(* ===== verification/Rust_Str.thy ===== *)
theory Rust_Str
  imports Main "HOL-Library.Word" "HOL-Library.Sublist"
begin

text \<open>
  The prelude of the development: the parts of Rust's string library the server uses.

  A Rust \<open>str\<close> is its sequence of UTF-8 bytes, so it is a \<^typ>\<open>string\<close> here (a list of
  8-bit \<^typ>\<open>char\<close>), and \<open>len()\<close> is \<^const>\<open>length\<close>: it counts bytes. A byte
  buffer (\<open>Vec<u8>\<close>, \<open>[u8]\<close>) is a list of 8-bit words. Searching and splitting at an
  ASCII pattern works byte by byte, as it does on valid UTF-8.
  \<open>trim\<close> removes every character with the Unicode property White\_Space, that is, the byte
  sequences listed in \<open>ws_encodings\<close>.
\<close>

section \<open>Types and collections of facts\<close>

type_synonym u8 = "8 word"
type_synonym u16 = "16 word"
type_synonym u32 = "32 word"
type_synonym u64 = "64 word"
type_synonym u128 = "128 word"
type_synonym usize = nat
type_synonym i64 = int
type_synonym bytes = "u8 list"

named_theorems str_simps \<open>equations that evaluate the string operations\<close>
named_theorems io_simps \<open>equations that run the input/output operations\<close>
named_theorems size_bounds \<open>how much unread input an operation leaves\<close>

section \<open>Bytes and strings\<close>

definition as_bytes :: "string \<Rightarrow> bytes" where
  "as_bytes s = map (\<lambda>c. of_nat (of_char c)) s"

definition bytes_str :: "bytes \<Rightarrow> string" where
  "bytes_str bs = map (\<lambda>b. char_of (unat b)) bs"

lemma length_as_bytes [simp]: "length (as_bytes s) = length s"
  by (simp add: as_bytes_def)

lemma length_bytes_str [simp]: "length (bytes_str bs) = length bs"
  by (simp add: bytes_str_def)

lemma as_bytes_append [simp]: "as_bytes (s @ t) = as_bytes s @ as_bytes t"
  by (simp add: as_bytes_def)

lemma bytes_str_append [simp]: "bytes_str (s @ t) = bytes_str s @ bytes_str t"
  by (simp add: bytes_str_def)

lemma as_bytes_Nil [simp]: "as_bytes [] = []"
  by (simp add: as_bytes_def)

lemma as_bytes_eq_Nil [simp]: "as_bytes s = [] \<longleftrightarrow> s = []"
  by (simp add: as_bytes_def)

lemma char_of_byte_of_char: "char_of (unat (of_nat (of_char c) :: u8)) = c"
proof -
  have "of_char c < (256::nat)" by simp
  then have "unat (of_nat (of_char c) :: u8) = of_char c"
    by (simp add: unat_of_nat)
  then show ?thesis by simp
qed

lemma bytes_str_as_bytes [simp]: "bytes_str (as_bytes s) = s"
  by (simp add: bytes_str_def as_bytes_def char_of_byte_of_char comp_def)

lemma as_bytes_bytes_str [simp]: "as_bytes (bytes_str bs) = bs"
proof -
  have "(of_nat (of_char (char_of (unat b) :: char)) :: u8) = b" for b :: u8
  proof -
    have "unat b < 256" using unsigned_less [of b] by simp
    then have "(of_char (char_of (unat b) :: char) :: nat) = unat b"
      by (simp add: of_char_of)
    then show ?thesis by simp
  qed
  then show ?thesis by (simp add: bytes_str_def as_bytes_def comp_def)
qed

lemma as_bytes_inject [simp]: "as_bytes s = as_bytes t \<longleftrightarrow> s = t"
  by (metis bytes_str_as_bytes)

section \<open>Lists\<close>

lemma takeWhile_split:
  assumes "length (takeWhile P xs) < length xs"
  obtains y ys where "xs = takeWhile P xs @ y # ys" and "\<not> P y"
proof (cases "dropWhile P xs")
  case Nil
  then have "takeWhile P xs = xs" by (metis append_Nil2 takeWhile_dropWhile_id)
  with assms show ?thesis by (metis less_irrefl)
next
  case (Cons y ys)
  then have "\<not> P y" by (metis dropWhile_eq_Cons_conv)
  with Cons that show ?thesis by (metis takeWhile_dropWhile_id)
qed

lemma takeWhile_full:
  "\<not> length (takeWhile P xs) < length xs \<Longrightarrow> takeWhile P xs = xs"
  by (metis append_eq_conv_conj leI takeWhile_dropWhile_id take_all)

lemma map_sum_id_Inl [simp]: "map_sum id f x = Inl r \<longleftrightarrow> x = Inl r"
  by (cases x) simp_all

lemma map_sum_id_Inr [simp]: "map_sum id f x = Inr y \<longleftrightarrow> (\<exists>z. x = Inr z \<and> y = f z)"
  by (cases x) auto

section \<open>Prefixes, searching and splitting\<close>

definition starts_with :: "string \<Rightarrow> string \<Rightarrow> bool" where
  "starts_with p s \<longleftrightarrow> take (length p) s = p"

definition ends_with :: "string \<Rightarrow> string \<Rightarrow> bool" where
  "ends_with p s \<longleftrightarrow> starts_with (rev p) (rev s)"

definition strip_prefix :: "string \<Rightarrow> string \<Rightarrow> string option" where
  "strip_prefix p s = (if starts_with p s then Some (drop (length p) s) else None)"

lemma starts_with_iff: "starts_with p s \<longleftrightarrow> (\<exists>r. s = p @ r)"
proof
  assume "starts_with p s"
  then have "s = p @ drop (length p) s"
    by (metis append_take_drop_id starts_with_def)
  then show "\<exists>r. s = p @ r" ..
next
  assume "\<exists>r. s = p @ r"
  then show "starts_with p s" by (auto simp: starts_with_def)
qed

lemma starts_with_append [simp]: "starts_with p (p @ r)"
  by (simp add: starts_with_def)

lemma strip_prefix_Some: "strip_prefix p s = Some r \<longleftrightarrow> s = p @ r"
  by (auto simp: strip_prefix_def starts_with_iff)

lemma strip_prefix_append [simp]: "strip_prefix p (p @ r) = Some r"
  by (simp add: strip_prefix_Some)

lemma ends_with_iff: "ends_with p s \<longleftrightarrow> (\<exists>r. s = r @ p)"
proof -
  have "ends_with p s \<longleftrightarrow> (\<exists>r. rev s = rev p @ r)"
    by (simp add: ends_with_def starts_with_iff)
  also have "\<dots> \<longleftrightarrow> (\<exists>r. s = r @ p)"
    by (metis rev_append rev_rev_ident)
  finally show ?thesis .
qed

text \<open>\<open>str::split_once\<close>: cut at the first occurrence of a (non-empty) pattern.\<close>

fun split_once :: "string \<Rightarrow> string \<Rightarrow> (string \<times> string) option" where
  "split_once p [] = (if p = [] then Some ([], []) else None)"
| "split_once p (c # cs) =
     (case strip_prefix p (c # cs) of
        Some r \<Rightarrow> Some ([], r)
      | None \<Rightarrow> map_option (\<lambda>(a, b). (c # a, b)) (split_once p cs))"

definition contains :: "string \<Rightarrow> string \<Rightarrow> bool" where
  "contains p s \<longleftrightarrow> split_once p s \<noteq> None"

lemma split_once_Some: "split_once p s = Some (a, b) \<Longrightarrow> s = a @ p @ b"
  by (induction s arbitrary: a b)
    (auto simp: strip_prefix_Some split: option.splits if_splits)

lemma split_once_None: "split_once p s = None \<longleftrightarrow> \<not> sublist p s"
proof (induction s)
  case Nil
  then show ?case by simp
next
  case (Cons c s)
  have "strip_prefix p (c # s) = None \<longleftrightarrow> \<not> prefix p (c # s)"
    by (auto simp: strip_prefix_def starts_with_iff prefix_def)
  with Cons show ?case
    by (auto simp: sublist_Cons_right split: option.splits)
qed

lemma contains_iff: "contains p s \<longleftrightarrow> sublist p s"
  by (simp add: contains_def split_once_None)

text \<open>The pattern occurs only where it is written, if its first character occurs nowhere before.\<close>

lemma split_once_first:
  assumes "p = c # q" and "c \<notin> set a"
  shows "split_once p (a @ p @ b) = Some (a, b)"
  using assms(2)
proof (induction a)
  case Nil
  have "strip_prefix p (p @ b) = Some b" by simp
  with assms(1) show ?case by simp
next
  case (Cons x a)
  then have "x \<noteq> c" by auto
  then have "strip_prefix p (x # a @ p @ b) = None"
    by (simp add: strip_prefix_def starts_with_def assms(1))
  with Cons show ?case by simp
qed

lemma split_once_second:
  assumes "p = c # d # q" and "c \<noteq> d" and "d \<notin> set a"
  shows "split_once p (a @ p @ b) = Some (a, b)"
  using assms(3)
proof (induction a)
  case Nil
  have "strip_prefix p (p @ b) = Some b" by simp
  with assms(1) show ?case by simp
next
  case (Cons x a)
  have "\<not> starts_with p (x # a @ p @ b)"
    using Cons.prems assms(1,2) by (cases a) (auto simp: starts_with_def)
  then have "strip_prefix p (x # a @ p @ b) = None" by (simp add: strip_prefix_def)
  with Cons show ?case by simp
qed

text \<open>\<open>str::split\<close> and \<open>str::splitn\<close> at one ASCII character.\<close>

fun split_char :: "char \<Rightarrow> string \<Rightarrow> string list" where
  "split_char d [] = [[]]"
| "split_char d (c # cs) =
     (if c = d then [] # split_char d cs
      else (case split_char d cs of [] \<Rightarrow> [[c]] | w # ws \<Rightarrow> (c # w) # ws))"

fun splitn :: "nat \<Rightarrow> char \<Rightarrow> string \<Rightarrow> string list" where
  "splitn 0 d s = []"
| "splitn (Suc 0) d s = [s]"
| "splitn (Suc (Suc n)) d s =
     (case split_once [d] s of
        None \<Rightarrow> [s]
      | Some (a, b) \<Rightarrow> a # splitn (Suc n) d b)"

lemma split_char_not_Nil [simp]: "split_char d s \<noteq> []"
  by (induction s) (auto split: list.splits)

lemma split_once_char:
  "split_once [c] s = Some (a, b) \<longleftrightarrow> s = a @ c # b \<and> c \<notin> set a"
proof
  assume "split_once [c] s = Some (a, b)"
  then show "s = a @ c # b \<and> c \<notin> set a"
    by (induction s arbitrary: a b)
      (auto simp: strip_prefix_def starts_with_def split: if_splits)
next
  assume "s = a @ c # b \<and> c \<notin> set a"
  then show "split_once [c] s = Some (a, b)"
    using split_once_first [of "[c]" c "[]" a b] by simp
qed

lemma split_once_char_None: "split_once [c] s = None \<longleftrightarrow> c \<notin> set s"
  by (induction s) (auto simp: strip_prefix_def starts_with_def)

lemma splitn3:
  "splitn 3 c s = [a, b, r] \<longleftrightarrow> s = a @ c # b @ c # r \<and> c \<notin> set a \<and> c \<notin> set b"
proof
  assume "splitn 3 c s = [a, b, r]"
  then show "s = a @ c # b @ c # r \<and> c \<notin> set a \<and> c \<notin> set b"
    by (auto simp: eval_nat_numeral split_once_char split: option.splits)
next
  assume "s = a @ c # b @ c # r \<and> c \<notin> set a \<and> c \<notin> set b"
  then have "split_once [c] s = Some (a, b @ c # r)" and "split_once [c] (b @ c # r) = Some (b, r)"
    by (simp_all add: split_once_char)
  then show "splitn 3 c s = [a, b, r]" by (simp add: eval_nat_numeral)
qed

text \<open>\<open>str::split\<close> at a longer pattern, here CR LF.\<close>

lemma split_once_length:
  "split_once p s = Some (a, b) \<Longrightarrow> length s = length a + length p + length b"
  by (drule split_once_Some) simp

function split_str :: "string \<Rightarrow> string \<Rightarrow> string list" where
  "split_str p s =
     (if p = [] then [s] else
      (case split_once p s of
         None \<Rightarrow> [s]
       | Some (a, b) \<Rightarrow> a # split_str p b))"
  by pat_completeness auto
termination
  by (relation "measure (\<lambda>(p, s). length s)") (auto dest!: split_once_length)

declare split_str.simps [simp del]

lemma split_str_not_Nil [simp]: "split_str p s \<noteq> []"
  by (subst split_str.simps) (auto split: option.splits)

text \<open>
  \<open>str::lines\<close>: the text up to each LF, without the LF and without one CR before it; what
  follows the last LF is a line of its own unless it is empty.
\<close>

definition strip_cr :: "string \<Rightarrow> string" where
  "strip_cr l = (if l \<noteq> [] \<and> last l = CHR 0x0D then butlast l else l)"

fun join_lines :: "string list \<Rightarrow> string list" where
  "join_lines [] = []"
| "join_lines [l] = (if l = [] then [] else [l])"
| "join_lines (l # ls) = strip_cr l # join_lines ls"

definition str_lines :: "string \<Rightarrow> string list" where
  "str_lines s = join_lines (split_char (CHR 0x0A) s)"

section \<open>Case folding\<close>

definition ascii_lower :: "char \<Rightarrow> char" where
  "ascii_lower c =
     (let n = (of_char c :: nat) in if 65 \<le> n \<and> n \<le> 90 then char_of (n + 32) else c)"

definition to_ascii_lowercase :: "string \<Rightarrow> string" where
  "to_ascii_lowercase s = map ascii_lower s"

definition eq_ignore_ascii_case :: "string \<Rightarrow> string \<Rightarrow> bool" where
  "eq_ignore_ascii_case s t \<longleftrightarrow> to_ascii_lowercase s = to_ascii_lowercase t"

lemma length_to_ascii_lowercase [simp]: "length (to_ascii_lowercase s) = length s"
  by (simp add: to_ascii_lowercase_def)

lemma to_ascii_lowercase_append [simp]:
  "to_ascii_lowercase (s @ t) = to_ascii_lowercase s @ to_ascii_lowercase t"
  by (simp add: to_ascii_lowercase_def)

section \<open>Trimming white space\<close>

definition ws_encodings :: "string list" where
  "ws_encodings =
     [[CHR 0x09], [CHR 0x0A], [CHR 0x0B], [CHR 0x0C], [CHR 0x0D], [CHR 0x20],
      [CHR 0xC2, CHR 0x85], [CHR 0xC2, CHR 0xA0],
      [CHR 0xE1, CHR 0x9A, CHR 0x80],
      [CHR 0xE2, CHR 0x80, CHR 0x80], [CHR 0xE2, CHR 0x80, CHR 0x81],
      [CHR 0xE2, CHR 0x80, CHR 0x82], [CHR 0xE2, CHR 0x80, CHR 0x83],
      [CHR 0xE2, CHR 0x80, CHR 0x84], [CHR 0xE2, CHR 0x80, CHR 0x85],
      [CHR 0xE2, CHR 0x80, CHR 0x86], [CHR 0xE2, CHR 0x80, CHR 0x87],
      [CHR 0xE2, CHR 0x80, CHR 0x88], [CHR 0xE2, CHR 0x80, CHR 0x89],
      [CHR 0xE2, CHR 0x80, CHR 0x8A],
      [CHR 0xE2, CHR 0x80, CHR 0xA8], [CHR 0xE2, CHR 0x80, CHR 0xA9],
      [CHR 0xE2, CHR 0x80, CHR 0xAF], [CHR 0xE2, CHR 0x81, CHR 0x9F],
      [CHR 0xE3, CHR 0x80, CHR 0x80]]"

fun strip_any :: "string list \<Rightarrow> string \<Rightarrow> string option" where
  "strip_any [] s = None"
| "strip_any (e # es) s =
     (if e \<noteq> [] \<and> starts_with e s then Some (drop (length e) s) else strip_any es s)"

lemma strip_any_shorter: "strip_any es s = Some r \<Longrightarrow> length r < length s"
proof (induction es)
  case Nil
  then show ?case by simp
next
  case (Cons e es)
  then show ?case
    by (cases "e \<noteq> [] \<and> starts_with e s") (auto simp: starts_with_iff)
qed

function trim_with :: "string list \<Rightarrow> string \<Rightarrow> string" where
  "trim_with es s = (case strip_any es s of None \<Rightarrow> s | Some r \<Rightarrow> trim_with es r)"
  by pat_completeness auto
termination
  by (relation "measure (\<lambda>(es, s). length s)") (auto dest: strip_any_shorter)

declare trim_with.simps [simp del]

definition trim_start :: "string \<Rightarrow> string" where
  "trim_start s = trim_with ws_encodings s"

definition trim_end :: "string \<Rightarrow> string" where
  "trim_end s = rev (trim_with (map rev ws_encodings) (rev s))"

definition trim :: "string \<Rightarrow> string" where
  "trim s = trim_end (trim_start s)"

text \<open>\<open>trim_end_matches\<close> with one character.\<close>

definition trim_end_char :: "char \<Rightarrow> string \<Rightarrow> string" where
  "trim_end_char c s = rev (dropWhile (\<lambda>x. x = c) (rev s))"

lemma strip_any_None: "strip_any es s = None \<longleftrightarrow> (\<forall>e \<in> set es. e = [] \<or> \<not> starts_with e s)"
  by (induction es) auto

lemma trim_with_suffix: "suffix (trim_with es s) s"
proof (induction es s rule: trim_with.induct)
  case (1 es s)
  show ?case
  proof (cases "strip_any es s")
    case None
    then show ?thesis by (simp add: trim_with.simps [of es s])
  next
    case (Some r)
    have "suffix r s"
      using Some
    proof (induction es)
      case (Cons e es)
      then show ?case by (auto simp: suffix_drop split: if_splits)
    qed simp
    with 1 [OF Some] Some show ?thesis
      by (simp add: trim_with.simps [of es s])
  qed
qed

lemma trim_with_idem [simp]: "trim_with es (trim_with es s) = trim_with es s"
proof (induction es s rule: trim_with.induct)
  case (1 es s)
  then show ?case
    by (cases "strip_any es s") (simp_all add: trim_with.simps [of es s])
qed

lemma trim_with_fix: "strip_any es s = None \<Longrightarrow> trim_with es s = s"
  by (simp add: trim_with.simps)

lemma trim_with_stops: "strip_any es (trim_with es s) = None"
proof (induction es s rule: trim_with.induct)
  case (1 es s)
  then show ?case
    by (cases "strip_any es s") (simp_all add: trim_with.simps [of es s])
qed

lemma length_trim_with: "length (trim_with es s) \<le> length s"
  using suffix_length_le [OF trim_with_suffix] .

lemma length_trim: "length (trim s) \<le> length s"
  using length_trim_with [of ws_encodings s]
    length_trim_with [of "map rev ws_encodings" "rev (trim_start s)"]
  by (simp add: trim_def trim_end_def trim_start_def)

text \<open>
  An \<^emph>\<open>ink\<close> character is one that no white space character starts or ends with: the ASCII
  characters above the space. Text that starts and ends with ink is not changed by \<open>trim\<close>.
\<close>

definition ink :: "char \<Rightarrow> bool" where
  "ink c \<longleftrightarrow> (let n = (of_char c :: nat) in 0x20 < n \<and> n < 0x80)"

lemma ws_first_not_ink: "\<forall>e \<in> set ws_encodings. \<exists>x xs. e = x # xs \<and> \<not> ink x"
  by (simp add: ws_encodings_def ink_def)

lemma ws_last_not_ink: "\<forall>e \<in> set (map rev ws_encodings). \<exists>x xs. e = x # xs \<and> \<not> ink x"
  by (simp add: ws_encodings_def ink_def)

lemma strip_any_ink:
  assumes "\<forall>e \<in> set es. \<exists>x xs. e = x # xs \<and> \<not> ink x" and "ink c"
  shows "strip_any es (c # s) = None"
  using assms by (auto simp: strip_any_None starts_with_iff)

lemma trim_start_ink [str_simps]: "ink c \<Longrightarrow> trim_start (c # s) = c # s"
  unfolding trim_start_def
  by (rule trim_with_fix, rule strip_any_ink [OF ws_first_not_ink])

lemma trim_end_ink: "s \<noteq> [] \<Longrightarrow> ink (last s) \<Longrightarrow> trim_end s = s"
  unfolding trim_end_def
  by (cases s rule: rev_cases)
    (simp_all add: trim_with_fix strip_any_ink [OF ws_last_not_ink])

lemma trim_ink: "s \<noteq> [] \<Longrightarrow> ink (hd s) \<Longrightarrow> ink (last s) \<Longrightarrow> trim s = s"
  by (cases s) (simp_all add: trim_def trim_start_ink trim_end_ink)

lemma trim_with_Nil [simp]: "trim_with es [] = []"
  using length_trim_with [of es "[]"] by simp

lemma trim_Nil [simp]: "trim [] = []"
  by (simp add: trim_def trim_start_def trim_end_def)

lemma trim_start_sp [str_simps]: "trim_start (CHR '' '' # s) = trim_start s"
  by (simp add: trim_start_def trim_with.simps [of _ "CHR '' '' # s"] ws_encodings_def
      starts_with_def)

text \<open>Text that starts with ink is not blank.\<close>

lemma strip_any_Some: "strip_any es s = Some r \<Longrightarrow> \<exists>e \<in> set es. e \<noteq> [] \<and> s = e @ r"
  by (induction es) (auto simp: starts_with_iff split: if_splits)

lemma trim_with_all:
  "trim_with es s = [] \<Longrightarrow> s \<noteq> [] \<Longrightarrow> \<exists>e \<in> set es. e \<noteq> [] \<and> last e = last s"
proof (induction es s rule: trim_with.induct)
  case (1 es s)
  show ?case
  proof (cases "strip_any es s")
    case None
    with "1.prems" show ?thesis by (simp add: trim_with_fix)
  next
    case (Some r)
    from strip_any_Some [OF this] obtain e where e: "e \<in> set es" "e \<noteq> []" "s = e @ r" by blast
    have "trim_with es r = []" using "1.prems"(1) Some by (simp add: trim_with.simps [of es s])
    with 1 Some e show ?thesis by (cases "r = []") auto
  qed
qed

lemma trim_starts_ink: "ink c \<Longrightarrow> trim (c # s) \<noteq> []"
proof
  assume c: "ink c" and "trim (c # s) = []"
  then have "trim_with (map rev ws_encodings) (rev (c # s)) = []"
    by (simp add: trim_def trim_start_ink trim_end_def)
  from trim_with_all [OF this] obtain e where "e \<in> set ws_encodings" "e \<noteq> []" "hd e = c"
    by (auto simp: last_rev)
  with ws_first_not_ink c show False by fastforce
qed

lemma set_trim: "set (trim s) \<subseteq> set s"
proof -
  have "suffix (trim_start s) s" by (simp add: trim_start_def trim_with_suffix)
  moreover have "set (trim_end r) \<subseteq> set r" for r
    using set_mono_suffix [OF trim_with_suffix [of "map rev ws_encodings" "rev r"]]
    by (simp add: trim_end_def)
  ultimately show ?thesis by (auto simp: trim_def dest!: set_mono_suffix)
qed

end
