(* ===== verification/Rust_Num.thy ===== *)
theory Rust_Num
  imports Rust_Str
begin

text \<open>
  Integers as text: \<open>to_string\<close> (and \<open>format!\<close> with \<open>{}\<close>), \<open>str::parse\<close> for the
  integer types, and the two hexadecimal formats the server prints. \<open>parse\<close> follows
  \<open>from_str_radix\<close> with radix 10: an optional sign (\<open>-\<close> for signed types only), at
  least one digit, nothing else, and an error when the value leaves the type's range.

  The locale \<open>decimal_codec\<close> is the contract between printing and parsing that the token
  format and the protocol lines rely on; it is interpreted for every integer type the
  server prints or reads.
\<close>

section \<open>Digits\<close>

definition digit_char :: "nat \<Rightarrow> char" where
  "digit_char d = char_of (48 + d)"

definition digit_val :: "char \<Rightarrow> nat option" where
  "digit_val c =
     (let n = (of_char c :: nat) in if 48 \<le> n \<and> n \<le> 57 then Some (n - 48) else None)"

definition hex_char :: "nat \<Rightarrow> char" where
  "hex_char d = (if d < 10 then char_of (48 + d) else char_of (87 + d))"

lemma of_char_digit_char [simp]: "d < 10 \<Longrightarrow> (of_char (digit_char d) :: nat) = 48 + d"
  by (simp add: digit_char_def of_char_of)

lemma digit_val_digit_char [simp]: "d < 10 \<Longrightarrow> digit_val (digit_char d) = Some d"
  by (simp add: digit_val_def)

lemma ink_digit_char [simp]: "d < 10 \<Longrightarrow> ink (digit_char d)"
  by (simp add: ink_def)

lemma digit_val_less: "digit_val c = Some d \<Longrightarrow> d < 10"
  by (auto simp: digit_val_def Let_def split: if_splits)

section \<open>Printing\<close>

fun nat_to_string :: "nat \<Rightarrow> string" where
  "nat_to_string n =
     (if n < 10 then [digit_char n]
      else nat_to_string (n div 10) @ [digit_char (n mod 10)])"

declare nat_to_string.simps [simp del]

definition int_to_string :: "int \<Rightarrow> string" where
  "int_to_string i =
     (if i < 0 then CHR ''-'' # nat_to_string (nat (- i)) else nat_to_string (nat i))"

text \<open>\<open>{:x}\<close> and \<open>{:02x}\<close>.\<close>

fun hex_string :: "nat \<Rightarrow> string" where
  "hex_string n =
     (if n < 16 then [hex_char n] else hex_string (n div 16) @ [hex_char (n mod 16)])"

declare hex_string.simps [simp del]

definition hex_byte :: "u8 \<Rightarrow> string" where
  "hex_byte b = [hex_char (unat b div 16), hex_char (unat b mod 16)]"

lemma nat_to_string_not_Nil [simp]: "nat_to_string n \<noteq> []"
  by (subst nat_to_string.simps) simp

lemma nat_to_string_digits:
  "c \<in> set (nat_to_string n) \<Longrightarrow> \<exists>d < 10. c = digit_char d"
proof (induction n rule: nat_to_string.induct)
  case (1 n)
  show ?case
  proof (cases "n < 10")
    case True
    with "1.prems" show ?thesis by (auto simp: nat_to_string.simps [of n])
  next
    case False
    with "1.prems" consider "c \<in> set (nat_to_string (n div 10))" | "c = digit_char (n mod 10)"
      by (auto simp: nat_to_string.simps [of n])
    then show ?thesis
    proof cases
      case 1
      with "1.IH" [OF False] show ?thesis by blast
    next
      case 2
      have "n mod 10 < 10" by simp
      with 2 show ?thesis by blast
    qed
  qed
qed

lemma nat_to_string_ink: "c \<in> set (nat_to_string n) \<Longrightarrow> ink c"
  using nat_to_string_digits by fastforce

section \<open>Parsing\<close>

fun digits_val :: "nat \<Rightarrow> string \<Rightarrow> nat option" where
  "digits_val acc [] = Some acc"
| "digits_val acc (c # cs) =
     (case digit_val c of None \<Rightarrow> None | Some d \<Rightarrow> digits_val (10 * acc + d) cs)"

definition parse_digits :: "string \<Rightarrow> nat option" where
  "parse_digits s = (if s = [] then None else digits_val 0 s)"

definition parse_uint :: "nat \<Rightarrow> string \<Rightarrow> nat option" where
  "parse_uint bits s =
     (let r = (case s of CHR ''+'' # t \<Rightarrow> t | _ \<Rightarrow> s)
      in case parse_digits r of
           None \<Rightarrow> None
         | Some n \<Rightarrow> if n < 2 ^ bits then Some n else None)"

definition parse_sint :: "nat \<Rightarrow> string \<Rightarrow> int option" where
  "parse_sint bits s =
     (let (neg, r) = (case s of CHR ''+'' # t \<Rightarrow> (False, t)
                              | CHR ''-'' # t \<Rightarrow> (True, t)
                              | _ \<Rightarrow> (False, s))
      in case parse_digits r of
           None \<Rightarrow> None
         | Some n \<Rightarrow>
             (let i = (if neg then - int n else int n)
              in if - (2 ^ (bits - 1)) \<le> i \<and> i < 2 ^ (bits - 1) then Some i else None))"

abbreviation parse_u16 :: "string \<Rightarrow> nat option" where
  "parse_u16 \<equiv> parse_uint 16"

abbreviation parse_u32 :: "string \<Rightarrow> nat option" where
  "parse_u32 \<equiv> parse_uint 32"

abbreviation parse_u64 :: "string \<Rightarrow> nat option" where
  "parse_u64 \<equiv> parse_uint 64"

abbreviation parse_usize :: "string \<Rightarrow> nat option" where
  "parse_usize \<equiv> parse_uint 64"

abbreviation parse_i64 :: "string \<Rightarrow> int option" where
  "parse_i64 \<equiv> parse_sint 64"

lemma parse_uint_bound: "parse_uint bits s = Some n \<Longrightarrow> n < 2 ^ bits"
  by (auto simp: parse_uint_def Let_def split: option.splits if_splits)

lemma parse_sint_bound:
  "parse_sint bits s = Some i \<Longrightarrow> - (2 ^ (bits - 1)) \<le> i \<and> i < 2 ^ (bits - 1)"
  by (auto simp: parse_sint_def Let_def split: option.splits if_splits prod.splits)

lemma digits_val_append:
  "digits_val acc (s @ t) =
     (case digits_val acc s of None \<Rightarrow> None | Some a \<Rightarrow> digits_val a t)"
  by (induction s arbitrary: acc) (auto split: option.splits)

lemma digits_val_to_string: "digits_val 0 (nat_to_string n) = Some n"
proof (induction n rule: nat_to_string.induct)
  case (1 n)
  show ?case
  proof (cases "n < 10")
    case True
    then show ?thesis by (simp add: nat_to_string.simps [of n])
  next
    case False
    with 1 show ?thesis by (simp add: nat_to_string.simps [of n] digits_val_append)
  qed
qed

lemma parse_digits_to_string [simp]: "parse_digits (nat_to_string n) = Some n"
  by (simp add: parse_digits_def digits_val_to_string)

lemma nat_to_string_head:
  obtains d t where "nat_to_string n = digit_char d # t" and "d < 10"
proof (cases "nat_to_string n")
  case (Cons c t)
  then obtain d where "d < 10" "c = digit_char d"
    using nat_to_string_digits [of c n] by auto
  with Cons that show ?thesis by blast
qed simp

lemma digit_char_not_sign:
  assumes "d < 10"
  shows "digit_char d \<noteq> CHR ''+''" and "digit_char d \<noteq> CHR ''-''"
proof -
  have "(of_char (digit_char d) :: nat) = 48 + d" using assms by simp
  then show "digit_char d \<noteq> CHR ''+''" and "digit_char d \<noteq> CHR ''-''" by auto
qed

lemma parse_uint_to_string:
  assumes "n < 2 ^ bits"
  shows "parse_uint bits (nat_to_string n) = Some n"
proof -
  obtain d t where s: "nat_to_string n = digit_char d # t" and d: "d < 10"
    by (rule nat_to_string_head)
  have "(case nat_to_string n of CHR ''+'' # t \<Rightarrow> t | _ \<Rightarrow> nat_to_string n) = nat_to_string n"
    unfolding s using digit_char_not_sign [OF d] by (simp split: char.splits bool.splits)
  with assms show ?thesis by (simp add: parse_uint_def)
qed

lemma parse_sint_to_string:
  assumes "- (2 ^ (bits - 1)) \<le> i" and "i < 2 ^ (bits - 1)"
  shows "parse_sint bits (int_to_string i) = Some i"
proof (cases "i < 0")
  case True
  with assms show ?thesis by (simp add: parse_sint_def int_to_string_def)
next
  case False
  obtain d t where s: "nat_to_string (nat i) = digit_char d # t" and d: "d < 10"
    by (rule nat_to_string_head)
  have "(case nat_to_string (nat i) of CHR ''+'' # t \<Rightarrow> (False, t)
        | CHR ''-'' # t \<Rightarrow> (True, t) | _ \<Rightarrow> (False, nat_to_string (nat i)))
      = (False, nat_to_string (nat i))"
    unfolding s using digit_char_not_sign [OF d] by (simp split: char.splits bool.splits)
  with assms False show ?thesis by (simp add: parse_sint_def int_to_string_def)
qed

lemma int_to_string_not_Nil [simp]: "int_to_string i \<noteq> []"
  by (simp add: int_to_string_def)

lemma int_to_string_ink: "c \<in> set (int_to_string i) \<Longrightarrow> ink c"
  by (auto simp: int_to_string_def nat_to_string_ink ink_def split: if_splits
      dest: nat_to_string_ink)

section \<open>The contract between printing and parsing\<close>

locale decimal_codec =
  fixes fmt :: "'n \<Rightarrow> string" and parse :: "string \<Rightarrow> 'n option" and ok :: "'n \<Rightarrow> bool"
  assumes parse_fmt: "ok n \<Longrightarrow> parse (fmt n) = Some n"
    and parse_ok: "parse s = Some n \<Longrightarrow> ok n"
    and fmt_not_Nil: "fmt n \<noteq> []"
    and fmt_ink: "c \<in> set (fmt n) \<Longrightarrow> ink c"
begin

lemma fmt_inject: "ok m \<Longrightarrow> ok n \<Longrightarrow> fmt m = fmt n \<longleftrightarrow> m = n"
  using parse_fmt by (metis option.inject)

lemma trim_fmt: "trim (fmt n) = fmt n"
  by (rule trim_ink) (auto intro!: fmt_ink [of _ n] simp: fmt_not_Nil)

lemma parse_trim_fmt: "ok n \<Longrightarrow> parse (trim (fmt n)) = Some n"
  by (simp add: trim_fmt parse_fmt)

lemma fmt_no_char: "\<not> ink c \<Longrightarrow> c \<notin> set (fmt n)"
  using fmt_ink by blast

end

interpretation dec_u16: decimal_codec nat_to_string parse_u16 "\<lambda>n. n < 2 ^ 16"
  by unfold_locales (auto intro: parse_uint_to_string dest: parse_uint_bound nat_to_string_ink)

interpretation dec_u32: decimal_codec nat_to_string parse_u32 "\<lambda>n. n < 2 ^ 32"
  by unfold_locales (auto intro: parse_uint_to_string dest: parse_uint_bound nat_to_string_ink)

interpretation dec_u64: decimal_codec nat_to_string parse_u64 "\<lambda>n. n < 2 ^ 64"
  by unfold_locales (auto intro: parse_uint_to_string dest: parse_uint_bound nat_to_string_ink)

interpretation dec_i64: decimal_codec int_to_string parse_i64
    "\<lambda>i. - (2 ^ 63) \<le> i \<and> i < 2 ^ 63"
proof (unfold_locales, goal_cases)
  case (1 n)
  then show ?case using parse_sint_to_string [of 64 n] by simp
next
  case (2 s n)
  then show ?case using parse_sint_bound [of 64 s n] by simp
next
  case (3 n)
  then show ?case by simp
next
  case (4 c n)
  then show ?case by (rule int_to_string_ink)
qed

lemma nat_to_string_no_char [simp]: "\<not> ink c \<Longrightarrow> c \<notin> set (nat_to_string n)"
  by (rule dec_u64.fmt_no_char)

lemma nat_to_string_only_digits:
  "(\<And>d. d < 10 \<Longrightarrow> c \<noteq> digit_char d) \<Longrightarrow> c \<notin> set (nat_to_string n)"
  using nat_to_string_digits by blast

lemma int_to_string_no_special:
  "CHR ''_'' \<notin> set (int_to_string i)" "CHR ''#'' \<notin> set (int_to_string i)"
proof -
  have "c \<notin> set (nat_to_string n)" if "\<not> (48 \<le> (of_char c :: nat))\<or> (57 < (of_char c :: nat))" for c n
    using nat_to_string_digits [of c n] that by fastforce
  then show "CHR ''_'' \<notin> set (int_to_string i)" "CHR ''#'' \<notin> set (int_to_string i)"
    by (auto simp: int_to_string_def)
qed

section \<open>Hexadecimal text determines its number\<close>

lemma hex_char_inject: "d < 16 \<Longrightarrow> e < 16 \<Longrightarrow> hex_char d = hex_char e \<longleftrightarrow> d = e"
proof -
  have "(of_char (hex_char d) :: nat) = (if d < 10 then 48 + d else 87 + d)" if "d < 16" for d
    using that by (simp add: hex_char_def of_char_of)
  then have "(if d < 10 then 48 + d else 87 + d) = (if e < 10 then 48 + e else 87 + e)"
    if "d < 16" "e < 16" "hex_char d = hex_char e" for d e using that by metis
  then show "d < 16 \<Longrightarrow> e < 16 \<Longrightarrow> hex_char d = hex_char e \<longleftrightarrow> d = e"
    by (fastforce split: if_splits)
qed

lemma hex_string_not_Nil [simp]: "hex_string n \<noteq> []" "[] \<noteq> hex_string n"
  by (subst hex_string.simps; simp)+

lemma hex_string_inject: "hex_string m = hex_string n \<longleftrightarrow> m = n"
proof
  show "hex_string m = hex_string n \<Longrightarrow> m = n"
  proof (induction m arbitrary: n rule: hex_string.induct)
    case (1 m)
    show ?case
    proof (cases "m < 16")
      case True
      with "1.prems" have "n < 16"
        by (subst (asm) hex_string.simps [of n]) (auto simp: hex_string.simps [of m] split: if_splits)
      with True "1.prems" show ?thesis
        by (simp add: hex_string.simps [of m] hex_string.simps [of n] hex_char_inject)
    next
      case False
      with "1.prems" have n: "\<not> n < 16"
        by (subst (asm) hex_string.simps [of m]) (auto simp: hex_string.simps [of n] split: if_splits)
      with False "1.prems" have "hex_string (m div 16) = hex_string (n div 16)"
        "hex_char (m mod 16) = hex_char (n mod 16)"
        by (simp_all add: hex_string.simps [of m] hex_string.simps [of n])
      then have "m div 16 = n div 16" "m mod 16 = n mod 16"
        using "1.IH" [OF False] by (simp_all add: hex_char_inject)
      then show ?thesis by (metis div_mult_mod_eq)
    qed
  qed
qed simp

lemma hex_string_chars: "c \<in> set (hex_string n) \<Longrightarrow> \<exists>d < 16. c = hex_char d"
proof (induction n rule: hex_string.induct)
  case (1 n)
  show ?case
  proof (cases "n < 16")
    case True
    with "1.prems" show ?thesis by (auto simp: hex_string.simps [of n])
  next
    case False
    with "1.prems" have "c \<in> set (hex_string (n div 16)) \<or> c = hex_char (n mod 16)"
      by (auto simp: hex_string.simps [of n])
    moreover have "n mod 16 < 16" by simp
    ultimately show ?thesis using "1.IH" [OF False] by blast
  qed
qed

lemma hex_string_no_punct: "CHR '':'' \<notin> set (hex_string n)" "CHR ''.'' \<notin> set (hex_string n)"
proof -
  have "hex_char d \<noteq> CHR '':'' \<and> hex_char d \<noteq> CHR ''.''" if "d < 16" for d
  proof -
    have "(of_char (hex_char d) :: nat) = (if d < 10 then 48 + d else 87 + d)"
      using that by (simp add: hex_char_def of_char_of)
    then show ?thesis using that by (auto split: if_splits)
  qed
  then show "CHR '':'' \<notin> set (hex_string n)" "CHR ''.'' \<notin> set (hex_string n)"
    using hex_string_chars by metis+
qed

end
