(* ===== verification/Rust_Net.thy ===== *)
theory Rust_Net
  imports Rust_Num
begin

unbundle bit_operations_syntax

text \<open>
  Internet addresses as in \<open>std::net\<close>: the address types, their octets and segments, the
  predicates the server uses, their text form (\<open>Display\<close>) and their parsers
  (\<open>FromStr\<close>), which follow the standard library's recursive-descent parser group by group.
\<close>

section \<open>Addresses\<close>

datatype ipv4_addr = Ipv4Addr u8 u8 u8 u8

datatype ipv6_addr = Ipv6Addr u16 u16 u16 u16 u16 u16 u16 u16

datatype ip_addr = V4 ipv4_addr | V6 ipv6_addr

text \<open>A socket address; the IPv6 form carries the flow information and the scope.\<close>

datatype socket_addr =
    SocketAddrV4 ipv4_addr u16
  | SocketAddrV6 ipv6_addr u16 u32 u32

fun socket_addr_new :: "ip_addr \<Rightarrow> u16 \<Rightarrow> socket_addr" where
  "socket_addr_new (V4 a) p = SocketAddrV4 a p"
| "socket_addr_new (V6 a) p = SocketAddrV6 a p 0 0"

fun sa_ip :: "socket_addr \<Rightarrow> ip_addr" where
  "sa_ip (SocketAddrV4 a p) = V4 a"
| "sa_ip (SocketAddrV6 a p f s) = V6 a"

fun sa_port :: "socket_addr \<Rightarrow> u16" where
  "sa_port (SocketAddrV4 a p) = p"
| "sa_port (SocketAddrV6 a p f s) = p"

fun is_ipv4 :: "ip_addr \<Rightarrow> bool" where
  "is_ipv4 (V4 _) = True"
| "is_ipv4 (V6 _) = False"

definition UNSPECIFIED_V4 :: ipv4_addr where
  "UNSPECIFIED_V4 = Ipv4Addr 0 0 0 0"

definition UNSPECIFIED_V6 :: ipv6_addr where
  "UNSPECIFIED_V6 = Ipv6Addr 0 0 0 0 0 0 0 0"

fun octets4 :: "ipv4_addr \<Rightarrow> bytes" where
  "octets4 (Ipv4Addr a b c d) = [a, b, c, d]"

fun segments :: "ipv6_addr \<Rightarrow> u16 list" where
  "segments (Ipv6Addr a b c d e f g h) = [a, b, c, d, e, f, g, h]"

fun of_segments :: "u16 list \<Rightarrow> ipv6_addr option" where
  "of_segments [a, b, c, d, e, f, g, h] = Some (Ipv6Addr a b c d e f g h)"
| "of_segments _ = None"

definition be16 :: "u16 \<Rightarrow> bytes" where
  "be16 w = [of_nat (unat w div 256), of_nat (unat w mod 256)]"

definition of_be16 :: "u8 \<Rightarrow> u8 \<Rightarrow> u16" where
  "of_be16 hi lo = of_nat (unat hi * 256 + unat lo)"

definition octets6 :: "ipv6_addr \<Rightarrow> bytes" where
  "octets6 a = concat (map be16 (segments a))"

fun to_ipv6_mapped :: "ipv4_addr \<Rightarrow> ipv6_addr" where
  "to_ipv6_mapped (Ipv4Addr a b c d) =
     Ipv6Addr 0 0 0 0 0 0xFFFF (of_be16 a b) (of_be16 c d)"

fun to_ipv4_mapped :: "ipv6_addr \<Rightarrow> ipv4_addr option" where
  "to_ipv4_mapped (Ipv6Addr a b c d e f g h) =
     (if a = 0 \<and> b = 0 \<and> c = 0 \<and> d = 0 \<and> e = 0 \<and> f = 0xFFFF
      then Some (Ipv4Addr (of_nat (unat g div 256)) (of_nat (unat g mod 256))
                          (of_nat (unat h div 256)) (of_nat (unat h mod 256)))
      else None)"

fun to_canonical :: "ip_addr \<Rightarrow> ip_addr" where
  "to_canonical (V4 a) = V4 a"
| "to_canonical (V6 a) = (case to_ipv4_mapped a of Some v4 \<Rightarrow> V4 v4 | None \<Rightarrow> V6 a)"

lemma segments_of_segments [simp]: "of_segments (segments a) = Some a"
  by (cases a) simp

lemma length_segments [simp]: "length (segments a) = 8"
  by (cases a) simp

lemma length_octets4 [simp]: "length (octets4 a) = 4"
  by (cases a) simp

lemma length_be16 [simp]: "length (be16 w) = 2"
  by (simp add: be16_def)

lemma length_octets6 [simp]: "length (octets6 a) = 16"
  by (cases a) (simp add: octets6_def)

lemma unat_of_be16: "unat (of_be16 a b) = unat a * 256 + unat b"
proof -
  have "unat a < 256" "unat b < 256"
    using unsigned_less [of a] unsigned_less [of b] by simp_all
  then have "unat a * 256 + unat b < 2 ^ LENGTH(16)" by simp
  then show ?thesis unfolding of_be16_def by (rule of_nat_inverse [OF refl])
qed

lemma unat_u8_less: "unat (b :: u8) < 256"
  using unsigned_less [of b] by simp

lemma unat_u16_less: "unat (w :: u16) < 65536"
  using unsigned_less [of w] by simp

lemma be16_of_be16 [simp]: "be16 (of_be16 a b) = [a, b]"
  using unat_u8_less [of a] unat_u8_less [of b]
  by (simp add: be16_def unat_of_be16)

lemma of_be16_split:
  "of_be16 (of_nat (unat w div 256)) (of_nat (unat w mod 256)) = w"
proof -
  have "unat w div 256 < 256" using unat_u16_less [of w] by simp
  then have "unat (of_nat (unat w div 256) :: u8) = unat w div 256"
    by (simp add: unat_of_nat)
  moreover have "unat (of_nat (unat w mod 256) :: u8) = unat w mod 256"
    by (simp add: unat_of_nat)
  ultimately have "unat (of_be16 (of_nat (unat w div 256)) (of_nat (unat w mod 256))) = unat w"
    by (simp add: unat_of_be16)
  then show ?thesis by (simp only: unsigned_word_eqI)
qed

lemma be16_inject: "be16 v = be16 w \<longleftrightarrow> v = w"
  by (auto simp: be16_def) (metis of_be16_split)

lemma octets6_inject: "octets6 a = octets6 b \<longleftrightarrow> a = b"
proof
  assume eq: "octets6 a = octets6 b"
  obtain a1 a2 a3 a4 a5 a6 a7 a8 where a: "a = Ipv6Addr a1 a2 a3 a4 a5 a6 a7 a8" by (cases a)
  obtain b1 b2 b3 b4 b5 b6 b7 b8 where b: "b = Ipv6Addr b1 b2 b3 b4 b5 b6 b7 b8" by (cases b)
  from eq have "be16 a1 = be16 b1 \<and> be16 a2 = be16 b2 \<and> be16 a3 = be16 b3 \<and> be16 a4 = be16 b4
      \<and> be16 a5 = be16 b5 \<and> be16 a6 = be16 b6 \<and> be16 a7 = be16 b7 \<and> be16 a8 = be16 b8"
    by (simp add: a b octets6_def be16_def)
  then show "a = b" by (simp add: a b be16_inject)
qed simp

lemma mapped_round_trip [simp]: "to_ipv4_mapped (to_ipv6_mapped a) = Some a"
proof (cases a)
  case (Ipv4Addr a b c d)
  have "[of_nat (unat (of_be16 x y) div 256), of_nat (unat (of_be16 x y) mod 256)] = [x, y]"
    for x y using be16_of_be16 [of x y] by (simp only: be16_def)
  then show ?thesis by (simp add: Ipv4Addr)
qed

lemma to_ipv4_mapped_Some: "to_ipv4_mapped a = Some v4 \<Longrightarrow> a = to_ipv6_mapped v4"
  by (cases a) (auto simp: of_be16_split split: if_splits)

section \<open>Predicates\<close>

fun is_loopback4 :: "ipv4_addr \<Rightarrow> bool" where
  "is_loopback4 (Ipv4Addr a b c d) \<longleftrightarrow> a = 127"

fun is_link_local4 :: "ipv4_addr \<Rightarrow> bool" where
  "is_link_local4 (Ipv4Addr a b c d) \<longleftrightarrow> a = 169 \<and> b = 254"

fun is_private4 :: "ipv4_addr \<Rightarrow> bool" where
  "is_private4 (Ipv4Addr a b c d) \<longleftrightarrow>
     a = 10 \<or> (a = 172 \<and> 16 \<le> b \<and> b \<le> 31) \<or> (a = 192 \<and> b = 168)"

definition is_loopback6 :: "ipv6_addr \<Rightarrow> bool" where
  "is_loopback6 a \<longleftrightarrow> a = Ipv6Addr 0 0 0 0 0 0 0 1"

section \<open>Text form\<close>

fun ipv4_to_string :: "ipv4_addr \<Rightarrow> string" where
  "ipv4_to_string (Ipv4Addr a b c d) =
     nat_to_string (unat a) @ ''.'' @ nat_to_string (unat b) @ ''.'' @
     nat_to_string (unat c) @ ''.'' @ nat_to_string (unat d)"

text \<open>The longest run of zero segments (the first of equal ones), as start and length.\<close>

fun zero_run :: "nat \<Rightarrow> nat \<times> nat \<Rightarrow> nat \<times> nat \<Rightarrow> u16 list \<Rightarrow> nat \<times> nat" where
  "zero_run i cur best [] = best"
| "zero_run i cur best (w # ws) =
     (if w = 0 then
        (let start = (if snd cur = 0 then i else fst cur); cur' = (start, Suc (snd cur))
         in zero_run (Suc i) cur' (if snd best < snd cur' then cur' else best) ws)
      else zero_run (Suc i) (0, 0) best ws)"

fun fmt_subslice :: "u16 list \<Rightarrow> string" where
  "fmt_subslice [] = []"
| "fmt_subslice [w] = hex_string (unat w)"
| "fmt_subslice (w # ws) = hex_string (unat w) @ '':'' @ fmt_subslice ws"

definition ipv6_to_string :: "ipv6_addr \<Rightarrow> string" where
  "ipv6_to_string a =
     (case to_ipv4_mapped a of
        Some v4 \<Rightarrow> ''::ffff:'' @ ipv4_to_string v4
      | None \<Rightarrow>
          (let (start, len) = zero_run 0 (0, 0) (0, 0) (segments a)
           in if 1 < len
              then fmt_subslice (take start (segments a)) @ ''::'' @
                   fmt_subslice (drop (start + len) (segments a))
              else fmt_subslice (segments a)))"

fun ip_to_string :: "ip_addr \<Rightarrow> string" where
  "ip_to_string (V4 a) = ipv4_to_string a"
| "ip_to_string (V6 a) = ipv6_to_string a"

section \<open>Parsers\<close>

type_synonym 'a reader = "string \<Rightarrow> ('a \<times> string) option"

definition hex_val :: "char \<Rightarrow> nat option" where
  "hex_val c =
     (let n = (of_char c :: nat)
      in if 48 \<le> n \<and> n \<le> 57 then Some (n - 48)
         else if 97 \<le> n \<and> n \<le> 102 then Some (n - 87)
         else if 65 \<le> n \<and> n \<le> 70 then Some (n - 55)
         else None)"

definition radix_val :: "nat \<Rightarrow> char \<Rightarrow> nat option" where
  "radix_val radix c = (if radix = 16 then hex_val c else digit_val c)"

definition is_radix_digit :: "nat \<Rightarrow> char \<Rightarrow> bool" where
  "is_radix_digit radix c \<longleftrightarrow> radix_val radix c \<noteq> None"

definition radix_number :: "nat \<Rightarrow> string \<Rightarrow> nat" where
  "radix_number radix ds =
     fold (\<lambda>c acc. acc * radix + (case radix_val radix c of Some d \<Rightarrow> d | None \<Rightarrow> 0)) ds 0"

definition read_number :: "nat \<Rightarrow> nat option \<Rightarrow> bool \<Rightarrow> nat \<Rightarrow> nat reader" where
  "read_number radix max_digits allow_zero_prefix max_val s =
     (let ds = takeWhile (is_radix_digit radix) s;
          rest = dropWhile (is_radix_digit radix) s;
          n = radix_number radix ds
      in if (case max_digits of None \<Rightarrow> False | Some m \<Rightarrow> m < length ds) then None
         else if ds = [] then None
         else if \<not> allow_zero_prefix \<and> hd ds = CHR ''0'' \<and> 1 < length ds then None
         else if max_val < n then None
         else Some (n, rest))"

definition read_given_char :: "char \<Rightarrow> unit reader" where
  "read_given_char c s = (case s of [] \<Rightarrow> None | x # xs \<Rightarrow> if x = c then Some ((), xs) else None)"

definition read_separator :: "char \<Rightarrow> nat \<Rightarrow> 'a reader \<Rightarrow> 'a reader" where
  "read_separator sep i p s =
     (if i = 0 then p s
      else (case read_given_char sep s of None \<Rightarrow> None | Some (_, r) \<Rightarrow> p r))"

definition read_octet :: "nat \<Rightarrow> u8 reader" where
  "read_octet i s =
     map_option (\<lambda>(n, r). (of_nat n, r))
       (read_separator (CHR ''.'') i (read_number 10 (Some 3) False 255) s)"

definition read_ipv4_addr :: "ipv4_addr reader" where
  "read_ipv4_addr s0 =
     (case read_octet 0 s0 of None \<Rightarrow> None | Some (a, s1) \<Rightarrow>
     (case read_octet 1 s1 of None \<Rightarrow> None | Some (b, s2) \<Rightarrow>
     (case read_octet 2 s2 of None \<Rightarrow> None | Some (c, s3) \<Rightarrow>
     (case read_octet 3 s3 of None \<Rightarrow> None | Some (d, s4) \<Rightarrow> Some (Ipv4Addr a b c d, s4)))))"

text \<open>
  Up to \<open>limit\<close> groups, the first with index \<open>i\<close>; a trailing IPv4 address counts for two
  groups. Returns the groups, whether they end in an IPv4 address, and the rest of the text.
\<close>

function read_groups :: "nat \<Rightarrow> nat \<Rightarrow> string \<Rightarrow> u16 list \<times> bool \<times> string" where
  "read_groups limit i s =
     (if limit \<le> i then ([], False, s)
      else
        (case (if i + 1 < limit then read_separator (CHR '':'') i read_ipv4_addr s else None) of
           Some (Ipv4Addr a b c d, r) \<Rightarrow> ([of_be16 a b, of_be16 c d], True, r)
         | None \<Rightarrow>
             (case read_separator (CHR '':'') i (read_number 16 (Some 4) True 65535) s of
                None \<Rightarrow> ([], False, s)
              | Some (n, r) \<Rightarrow>
                  (case read_groups limit (Suc i) r of
                     (gs, v4, r') \<Rightarrow> (of_nat n # gs, v4, r')))))"
  by pat_completeness auto
termination
  by (relation "measure (\<lambda>(limit, i, s). limit - i)") auto

declare read_groups.simps [simp del]

definition read_ipv6_addr :: "ipv6_addr reader" where
  "read_ipv6_addr s =
     (case read_groups 8 0 s of
        (head, v4, r) \<Rightarrow>
          (if length head = 8 then map_option (\<lambda>a. (a, r)) (of_segments head)
           else if v4 then None
           else
             (case read_given_char (CHR '':'') r of None \<Rightarrow> None | Some (_, r1) \<Rightarrow>
             (case read_given_char (CHR '':'') r1 of None \<Rightarrow> None | Some (_, r2) \<Rightarrow>
             (case read_groups (8 - (length head + 1)) 0 r2 of
                (tail, _, r3) \<Rightarrow>
                  map_option (\<lambda>a. (a, r3))
                    (of_segments
                       (head @ replicate (8 - length head - length tail) 0 @ tail)))))))"

definition read_ip_addr :: "ip_addr reader" where
  "read_ip_addr s =
     (case read_ipv4_addr s of
        Some (a, r) \<Rightarrow> Some (V4 a, r)
      | None \<Rightarrow> map_option (\<lambda>(a, r). (V6 a, r)) (read_ipv6_addr s))"

definition read_port :: "u16 reader" where
  "read_port s =
     (case read_given_char (CHR '':'') s of
        None \<Rightarrow> None
      | Some (_, r) \<Rightarrow>
          map_option (\<lambda>(n, r'). (of_nat n, r')) (read_number 10 None True 65535 r))"

definition read_scope_id :: "string \<Rightarrow> u32 \<times> string" where
  "read_scope_id s =
     (case read_given_char (CHR ''%'') s of
        None \<Rightarrow> (0, s)
      | Some (_, r) \<Rightarrow>
          (case read_number 10 None True (2 ^ 32 - 1) r of
             None \<Rightarrow> (0, s)
           | Some (n, r') \<Rightarrow> (of_nat n, r')))"

definition read_socket_addr_v4 :: "socket_addr reader" where
  "read_socket_addr_v4 s =
     (case read_ipv4_addr s of
        None \<Rightarrow> None
      | Some (a, r) \<Rightarrow>
          (case read_port r of None \<Rightarrow> None | Some (p, r') \<Rightarrow> Some (SocketAddrV4 a p, r')))"

definition read_socket_addr_v6 :: "socket_addr reader" where
  "read_socket_addr_v6 s =
     (case read_given_char (CHR ''['') s of None \<Rightarrow> None | Some (_, s1) \<Rightarrow>
     (case read_ipv6_addr s1 of None \<Rightarrow> None | Some (a, s2) \<Rightarrow>
     (case read_scope_id s2 of (scope, s3) \<Rightarrow>
     (case read_given_char (CHR '']'') s3 of None \<Rightarrow> None | Some (_, s4) \<Rightarrow>
     (case read_port s4 of None \<Rightarrow> None | Some (p, s5) \<Rightarrow>
        Some (SocketAddrV6 a p 0 scope, s5))))))"

definition read_socket_addr :: "socket_addr reader" where
  "read_socket_addr s =
     (case read_socket_addr_v4 s of Some x \<Rightarrow> Some x | None \<Rightarrow> read_socket_addr_v6 s)"

definition parse_with :: "'a reader \<Rightarrow> string \<Rightarrow> 'a option" where
  "parse_with p s = (case p s of Some (x, []) \<Rightarrow> Some x | _ \<Rightarrow> None)"

abbreviation parse_ipv4_addr :: "string \<Rightarrow> ipv4_addr option" where
  "parse_ipv4_addr \<equiv> parse_with read_ipv4_addr"

abbreviation parse_ipv6_addr :: "string \<Rightarrow> ipv6_addr option" where
  "parse_ipv6_addr \<equiv> parse_with read_ipv6_addr"

abbreviation parse_ip_addr :: "string \<Rightarrow> ip_addr option" where
  "parse_ip_addr \<equiv> parse_with read_ip_addr"

abbreviation parse_socket_addr :: "string \<Rightarrow> socket_addr option" where
  "parse_socket_addr \<equiv> parse_with read_socket_addr"

end
