(* ===== verification/Rust_Utf8.thy ===== *)
theory Rust_Utf8
  imports Rust_Str
begin

text \<open>
  UTF-8 decoding as the standard library does it: \<open>String::from_utf8\<close> accepts exactly the
  well-formed byte sequences, and \<open>String::from_utf8_lossy\<close> replaces each maximal
  ill-formed part by U+FFFD (the bytes EF BF BD).
  A decoded string is again its bytes, so decoding never rearranges anything:
  \<open>from_utf8\<close> returns the bytes it was given or nothing.
\<close>

section \<open>One character\<close>

definition in_range :: "nat \<Rightarrow> nat \<Rightarrow> u8 \<Rightarrow> bool" where
  "in_range lo hi b \<longleftrightarrow> lo \<le> unat b \<and> unat b \<le> hi"

abbreviation is_cont :: "u8 \<Rightarrow> bool" where
  "is_cont \<equiv> in_range 0x80 0xBF"

text \<open>The range of the second byte, by the first byte of a three or four byte character.\<close>

definition second_ok :: "u8 \<Rightarrow> u8 \<Rightarrow> bool" where
  "second_ok b0 b1 =
     (if unat b0 = 0xE0 then in_range 0xA0 0xBF b1
      else if unat b0 = 0xED then in_range 0x80 0x9F b1
      else if unat b0 = 0xF0 then in_range 0x90 0xBF b1
      else if unat b0 = 0xF4 then in_range 0x80 0x8F b1
      else is_cont b1)"

text \<open>
  How many bytes the next character takes, and whether it is well formed. For an ill-formed
  one, the number of bytes that one replacement character stands for.
\<close>

fun utf8_tail :: "nat \<Rightarrow> nat \<Rightarrow> bytes \<Rightarrow> bool \<times> nat" where
  "utf8_tail 0 used bs = (True, used)"
| "utf8_tail (Suc n) used [] = (False, used)"
| "utf8_tail (Suc n) used (b # bs) =
     (if is_cont b then utf8_tail n (Suc used) bs else (False, used))"

definition utf8_next :: "u8 \<Rightarrow> bytes \<Rightarrow> bool \<times> nat" where
  "utf8_next b0 bs =
     (if unat b0 < 0x80 then (True, 1)
      else if in_range 0xC2 0xDF b0 then utf8_tail 1 1 bs
      else if in_range 0xE0 0xEF b0 then
        (case bs of
           [] \<Rightarrow> (False, 1)
         | b1 # bs' \<Rightarrow> if second_ok b0 b1 then utf8_tail 1 2 bs' else (False, 1))
      else if in_range 0xF0 0xF4 b0 then
        (case bs of
           [] \<Rightarrow> (False, 1)
         | b1 # bs' \<Rightarrow> if second_ok b0 b1 then utf8_tail 2 2 bs' else (False, 1))
      else (False, 1))"

lemma utf8_tail_ge: "utf8_tail n used bs = (v, k) \<Longrightarrow> used \<le> k"
  by (induction n used bs arbitrary: v k rule: utf8_tail.induct) (fastforce split: if_splits)+

lemma utf8_next_pos: "utf8_next b bs = (v, k) \<Longrightarrow> 0 < k"
  unfolding utf8_next_def
  by (auto split: if_splits list.splits dest: utf8_tail_ge)

section \<open>Whole strings\<close>

function valid_utf8 :: "bytes \<Rightarrow> bool" where
  "valid_utf8 [] = True"
| "valid_utf8 (b # bs) =
     (case utf8_next b bs of (v, k) \<Rightarrow> v \<and> valid_utf8 (drop (k - 1) bs))"
  by pat_completeness auto
termination
  by (relation "measure length") auto

definition from_utf8 :: "bytes \<Rightarrow> string option" where
  "from_utf8 bs = (if valid_utf8 bs then Some (bytes_str bs) else None)"

function from_utf8_lossy_bytes :: "bytes \<Rightarrow> bytes" where
  "from_utf8_lossy_bytes [] = []"
| "from_utf8_lossy_bytes (b # bs) =
     (case utf8_next b bs of
        (v, k) \<Rightarrow>
          (if v then b # take (k - 1) bs else [0xEF, 0xBF, 0xBD])
            @ from_utf8_lossy_bytes (drop (k - 1) bs))"
  by pat_completeness auto
termination
  by (relation "measure length") auto

definition from_utf8_lossy :: "bytes \<Rightarrow> string" where
  "from_utf8_lossy bs = bytes_str (from_utf8_lossy_bytes bs)"

lemma from_utf8_Some: "from_utf8 bs = Some s \<longleftrightarrow> valid_utf8 bs \<and> bs = as_bytes s"
  by (auto simp: from_utf8_def)

text \<open>On well-formed input the two decoders agree.\<close>

lemma lossy_valid: "valid_utf8 bs \<Longrightarrow> from_utf8_lossy_bytes bs = bs"
proof (induction bs rule: valid_utf8.induct)
  case 1
  then show ?case by simp
next
  case (2 b bs)
  obtain v k where vk: "utf8_next b bs = (v, k)" by fastforce
  with 2 show ?case by simp
qed

lemma from_utf8_lossy_valid: "from_utf8 bs = Some s \<Longrightarrow> from_utf8_lossy bs = s"
  by (auto simp: from_utf8_Some from_utf8_lossy_def lossy_valid)

text \<open>ASCII text is well formed.\<close>

lemma valid_utf8_ascii: "\<forall>b \<in> set bs. unat b < 0x80 \<Longrightarrow> valid_utf8 bs"
  by (induction bs) (simp_all add: utf8_next_def)

definition ascii :: "string \<Rightarrow> bool" where
  "ascii s \<longleftrightarrow> (\<forall>c \<in> set s. (of_char c :: nat) < 0x80)"

lemma unat_byte_of_char [simp]: "unat (of_nat (of_char c) :: u8) = of_char c"
proof -
  have "of_char c < (256::nat)" by simp
  then show ?thesis by (simp add: unat_of_nat)
qed

lemma ascii_bytes: "ascii s \<Longrightarrow> b \<in> set (as_bytes s) \<Longrightarrow> unat b < 0x80"
  by (auto simp: ascii_def as_bytes_def)

lemma from_utf8_ascii: "ascii s \<Longrightarrow> from_utf8 (as_bytes s) = Some s"
  by (simp add: from_utf8_Some valid_utf8_ascii ascii_bytes)

lemma from_utf8_lossy_ascii: "ascii s \<Longrightarrow> from_utf8_lossy (as_bytes s) = s"
  by (rule from_utf8_lossy_valid) (rule from_utf8_ascii)

lemma ascii_append [simp]: "ascii (s @ t) \<longleftrightarrow> ascii s \<and> ascii t"
  by (auto simp: ascii_def)

lemma ascii_Cons [simp]: "ascii (c # s) \<longleftrightarrow> (of_char c :: nat) < 0x80 \<and> ascii s"
  by (auto simp: ascii_def)

lemma ascii_Nil [simp]: "ascii []"
  by (simp add: ascii_def)

lemma ascii_ink: "(\<And>c. c \<in> set s \<Longrightarrow> ink c) \<Longrightarrow> ascii s"
  by (auto simp: ascii_def ink_def Let_def)

end
