(* ===== verification/Rmbt_Io.thy ===== *)
theory Rmbt_Io
  imports Rust_Net Rust_Utf8
begin

text \<open>
  Input and output of one connection: I/O errors and results, the operations that may fail,
  and the transport (\<open>src/src/stream/transport.rs\<close>).

  The peer and the operating system are the environment of the server. A connection's state
  therefore carries what the environment is going to do: the bytes the peer will have sent
  (\<open>d_in\<close>), what a read meets after them (\<open>d_end\<close>: end of file, or an error such as the
  socket timeout), and how many more bytes writes can deliver before they fail
  (\<open>d_room\<close>). Every theorem holds for all of these. \<open>d_out\<close> records the bytes
  delivered so far. For a TLS transport these are the plaintext streams.
\<close>

section \<open>Errors and results\<close>

datatype io_error_kind =
    UnexpectedEof | ConnectionReset | ConnectionAborted | BrokenPipe | InvalidData
  | PermissionDenied | AddrNotAvailable | WouldBlock | TimedOut | Interrupted | Other

datatype io_error = IoError (err_kind: io_error_kind) (err_msg: string)

text \<open>\<open>Panic\<close> is a Rust panic: an index out of range, \<open>unwrap\<close> of \<open>None\<close>, a division by 0.\<close>

datatype 'a res = Ok 'a | Err io_error | Panic string

type_synonym ('s, 'a) act = "'s \<Rightarrow> 'a res \<times> 's"

text \<open>Rust's \<open>?\<close>: go on with the value, or return the error.\<close>

definition try_act :: "('s, 'a) act \<Rightarrow> ('a \<Rightarrow> ('s, 'b) act) \<Rightarrow> ('s, 'b) act" where
  "try_act m f s =
     (case m s of
        (Ok a, s') \<Rightarrow> f a s'
      | (Err e, s') \<Rightarrow> (Err e, s')
      | (Panic p, s') \<Rightarrow> (Panic p, s'))"

definition ok_act :: "'a \<Rightarrow> ('s, 'a) act" where
  "ok_act a s = (Ok a, s)"

definition err_act :: "io_error \<Rightarrow> ('s, 'a) act" where
  "err_act e s = (Err e, s)"

text \<open>\<open>let _ = ...\<close>: the error, if any, is dropped.\<close>

definition ignore_act :: "('s, unit) act \<Rightarrow> ('s, unit) act" where
  "ignore_act m s = (case m s of (Panic p, s') \<Rightarrow> (Panic p, s') | (_, s') \<Rightarrow> (Ok (), s'))"

lemma try_act_Ok [io_simps]: "m s = (Ok a, s') \<Longrightarrow> try_act m f s = f a s'"
  by (simp add: try_act_def)

lemma try_act_Err [io_simps]: "m s = (Err e, s') \<Longrightarrow> try_act m f s = (Err e, s')"
  by (simp add: try_act_def)

lemma try_act_okE:
  assumes "try_act m f s = (Ok b, s'')"
  obtains a s' where "m s = (Ok a, s')" and "f a s' = (Ok b, s'')"
  using assms by (auto simp: try_act_def split: prod.splits res.splits)

lemma ok_act_apply [io_simps]: "ok_act a s = (Ok a, s)"
  by (simp add: ok_act_def)

lemma err_act_apply [io_simps]: "err_act e s = (Err e, s)"
  by (simp add: err_act_def)

section \<open>The two directions of a connection\<close>

text \<open>
  \<open>d_in\<close> is what the peer sends until it stops, \<open>d_end\<close> how it stops: end of file (\<open>None\<close>), or the error
  of the next read, among them that of the socket's timeout. The timeout bounds each read, not the
  session, so that \<open>d_in\<close> has any length, but it is finite: a peer that never stops is modelled by an
  environment that adds to \<open>d_in\<close> (\<open>serving\<close> in \<open>Rmbt_Commands\<close>).
\<close>

record duplex =
  d_in :: bytes
  d_end :: "io_error option"
  d_out :: bytes
  d_room :: "(nat \<times> io_error) option"
  d_peer :: "socket_addr option"

definition eof_error :: io_error where
  "eof_error = IoError UnexpectedEof ''failed to fill whole buffer''"

definition d_read_exact :: "nat \<Rightarrow> (duplex, bytes) act" where
  "d_read_exact n d =
     (if n \<le> length (d_in d)
      then (Ok (take n (d_in d)), d\<lparr>d_in := drop n (d_in d)\<rparr>)
      else (Err (case d_end d of None \<Rightarrow> eof_error | Some e \<Rightarrow> e), d\<lparr>d_in := []\<rparr>))"

text \<open>\<open>Read::take(n).read_to_end\<close>: up to \<open>n\<close> bytes, fewer at end of file.\<close>

definition d_read_up_to :: "nat \<Rightarrow> (duplex, bytes) act" where
  "d_read_up_to n d =
     (if n \<le> length (d_in d)
      then (Ok (take n (d_in d)), d\<lparr>d_in := drop n (d_in d)\<rparr>)
      else (case d_end d of
              None \<Rightarrow> (Ok (d_in d), d\<lparr>d_in := []\<rparr>)
            | Some e \<Rightarrow> (Err e, d\<lparr>d_in := []\<rparr>)))"

text \<open>\<open>Read::take(n).read_until(delim)\<close>: up to and with the delimiter, at most \<open>n\<close> bytes.\<close>

definition d_read_until :: "nat \<Rightarrow> u8 \<Rightarrow> (duplex, bytes) act" where
  "d_read_until n delim d =
     (let pre = takeWhile (\<lambda>b. b \<noteq> delim) (take n (d_in d))
      in if length pre < length (take n (d_in d))
         then (Ok (pre @ [delim]), d\<lparr>d_in := drop (length pre + 1) (d_in d)\<rparr>)
         else d_read_up_to n d)"

definition d_write_all :: "bytes \<Rightarrow> (duplex, unit) act" where
  "d_write_all data d =
     (case d_room d of
        None \<Rightarrow> (Ok (), d\<lparr>d_out := d_out d @ data\<rparr>)
      | Some (n, e) \<Rightarrow>
          if length data \<le> n
          then (Ok (), d\<lparr>d_out := d_out d @ data, d_room := Some (n - length data, e)\<rparr>)
          else (Err e, d\<lparr>d_out := d_out d @ take n data, d_room := Some (0, e)\<rparr>))"

text \<open>One \<open>read\<close> and one \<open>write\<close>: the operating system moves at most \<open>k\<close> bytes at once.\<close>

definition d_read :: "nat \<Rightarrow> nat \<Rightarrow> (duplex, bytes) act" where
  "d_read k n d =
     (if n = 0 then (Ok [], d)
      else if d_in d = [] then
        (case d_end d of None \<Rightarrow> (Ok [], d) | Some e \<Rightarrow> (Err e, d))
      else (let m = min n (max 1 k) in (Ok (take m (d_in d)), d\<lparr>d_in := drop m (d_in d)\<rparr>)))"

definition d_write :: "nat \<Rightarrow> bytes \<Rightarrow> (duplex, nat) act" where
  "d_write k data d =
     (case d_room d of
        None \<Rightarrow>
          (let m = min (length data) (max 1 k)
           in (Ok m, d\<lparr>d_out := d_out d @ take m data\<rparr>))
      | Some (n, e) \<Rightarrow>
          if data = [] then (Ok 0, d)
          else if n = 0 then (Err e, d)
          else (let m = min (min (length data) (max 1 k)) n
                in (Ok m, d\<lparr>d_out := d_out d @ take m data, d_room := Some (n - m, e)\<rparr>)))"

section \<open>Transport\<close>

text \<open>
  \<open>Transport\<close>: a plain TCP socket, or a TLS session on one; the flag records that
  \<open>close_notify\<close> was sent.
\<close>

datatype transport = Plain duplex | Tls duplex bool

fun chan :: "transport \<Rightarrow> duplex" where
  "chan (Plain d) = d"
| "chan (Tls d cn) = d"

fun with_chan :: "transport \<Rightarrow> duplex \<Rightarrow> transport" where
  "with_chan (Plain _) d = Plain d"
| "with_chan (Tls _ cn) d = Tls d cn"

definition on_chan :: "(duplex, 'a) act \<Rightarrow> (transport, 'a) act" where
  "on_chan f t = (case f (chan t) of (r, d) \<Rightarrow> (r, with_chan t d))"

definition transport_plain :: "duplex \<Rightarrow> transport" where
  "transport_plain d = Plain d"

text \<open>
  \<open>Transport::tls\<close>: \<open>ServerConnection::new\<close> (rustls) may refuse the configuration;
  \<open>conn\<close> is its result. The handshake itself happens in the first read or write.
\<close>

definition transport_tls :: "(string + unit) \<Rightarrow> duplex \<Rightarrow> transport res" where
  "transport_tls conn d =
     (case conn of Inl msg \<Rightarrow> Err (IoError Other msg) | Inr _ \<Rightarrow> Ok (Tls d False))"

definition t_peer_addr :: "transport \<Rightarrow> socket_addr option" where
  "t_peer_addr t = d_peer (chan t)"

fun transport_flush :: "(transport, unit) act" where
  "transport_flush (Plain d) = (Ok (), Plain d)"
| "transport_flush (Tls d cn) =
     (case d_room d of Some (0, e) \<Rightarrow> (Err e, Tls d cn) | _ \<Rightarrow> (Ok (), Tls d cn))"

fun transport_close :: "transport \<Rightarrow> transport" where
  "transport_close (Plain d) = Plain d"
| "transport_close (Tls d cn) = Tls d True"

definition transport_read :: "nat \<Rightarrow> nat \<Rightarrow> (transport, bytes) act" where
  "transport_read k n = on_chan (d_read k n)"

definition transport_write :: "nat \<Rightarrow> bytes \<Rightarrow> (transport, nat) act" where
  "transport_write k data = on_chan (d_write k data)"

text \<open>The provided methods of \<open>Read\<close> and \<open>Write\<close> that the server calls on a transport.\<close>

definition t_read_exact :: "nat \<Rightarrow> (transport, bytes) act" where
  "t_read_exact n = on_chan (d_read_exact n)"

definition t_read_up_to :: "nat \<Rightarrow> (transport, bytes) act" where
  "t_read_up_to n = on_chan (d_read_up_to n)"

definition t_write_all :: "bytes \<Rightarrow> (transport, unit) act" where
  "t_write_all data = on_chan (d_write_all data)"

definition t_unread :: "transport \<Rightarrow> nat" where
  "t_unread t = length (d_in (chan t))"

definition t_sent :: "transport \<Rightarrow> bytes" where
  "t_sent t = d_out (chan t)"

subsection \<open>Laws of the transport operations\<close>

lemma chan_with_chan [simp]: "chan (with_chan t d) = d"
  by (cases t) simp_all

lemma with_chan_chan [simp]: "with_chan t (chan t) = t"
  by (cases t) simp_all

lemma with_chan_twice [simp]: "with_chan (with_chan t d) d' = with_chan t d'"
  by (cases t) simp_all

lemma on_chan_eq: "on_chan f t = (r, t') \<longleftrightarrow> (\<exists>d. f (chan t) = (r, d) \<and> t' = with_chan t d)"
  by (auto simp: on_chan_def split: prod.splits)

lemma chan_transport_close [simp]: "chan (transport_close t) = chan t"
  by (cases t) simp_all

lemma transport_flush_chan: "transport_flush t = (r, t') \<Longrightarrow> t' = t"
  by (cases t) (auto split: option.splits prod.splits nat.splits)

lemma d_read_exact_Ok:
  "d_read_exact n d = (Ok bs, d') \<Longrightarrow>
     length bs = n \<and> d_in d = bs @ d_in d' \<and> d' = d\<lparr>d_in := d_in d'\<rparr>"
  by (auto simp: d_read_exact_def split: if_splits)

lemma d_write_all_Ok:
  "d_write_all data d = (Ok (), d') \<Longrightarrow>
     d_out d' = d_out d @ data \<and> d_in d' = d_in d \<and> d_end d' = d_end d \<and> d_peer d' = d_peer d"
  by (auto simp: d_write_all_def split: option.splits if_splits prod.splits)

lemma d_write_all_frame:
  "d_write_all data d = (r, d') \<Longrightarrow>
     d_in d' = d_in d \<and> d_end d' = d_end d \<and> d_peer d' = d_peer d \<and>
     prefix (d_out d) (d_out d')"
  by (auto simp: d_write_all_def split: option.splits if_splits prod.splits)

lemma d_write_all_bound: "d_write_all data d = (r, d') \<Longrightarrow> prefix (d_out d') (d_out d @ data)"
  by (auto simp: d_write_all_def take_is_prefix split: option.splits if_splits prod.splits)

lemma d_write_all_no_panic: "d_write_all data d \<noteq> (Panic p, d')"
  by (auto simp: d_write_all_def split: option.splits if_splits prod.splits)

lemma t_write_all_Ok:
  "t_write_all data t = (Ok (), t') \<Longrightarrow> t_sent t' = t_sent t @ data"
  by (auto simp: t_write_all_def on_chan_eq t_sent_def dest!: d_write_all_Ok)

text \<open>
  How the operating system cuts the data does not matter: writing piece by piece, as
  \<open>write_all\<close> loops over \<open>write\<close>, has the result of \<open>d_write_all\<close> whatever sizes \<open>ks\<close> it
  chooses, if there are enough of them.
\<close>

fun write_loop :: "nat list \<Rightarrow> bytes \<Rightarrow> (duplex, unit) act" where
  "write_loop ks [] d = (Ok (), d)"
| "write_loop [] data d = (Panic ''out of sizes'', d)"
| "write_loop (k # ks) data d =
     try_act (d_write k data) (\<lambda>m. write_loop ks (drop m data)) d"

lemma d_write_step:
  assumes "data \<noteq> []"
  shows "(\<exists>m d1. d_write k data d = (Ok m, d1) \<and> 1 \<le> m \<and> m \<le> length data \<and>
            d_write_all (drop m data) d1 = d_write_all data d) \<or>
         (\<exists>e d1. d_write k data d = (Err e, d1) \<and> d_write_all data d = (Err e, d1))"
proof (cases "d_room d")
  case None
  with assms show ?thesis by (auto simp: d_write_def d_write_all_def Let_def Suc_le_eq)
next
  case (Some ne)
  obtain n e where ne: "ne = (n, e)" by fastforce
  define m where "m = min (min (length data) (max 1 k)) n"
  show ?thesis
  proof (cases "n = 0")
    case True
    with Some ne assms show ?thesis by (simp add: d_write_def d_write_all_def)
  next
    case False
    have m: "1 \<le> m" "m \<le> length data" "m \<le> n"
      using assms False by (auto simp: m_def Suc_le_eq)
    have w: "d_write k data d =
        (Ok m, d\<lparr>d_out := d_out d @ take m data, d_room := Some (n - m, e)\<rparr>)"
      using Some ne False assms by (simp add: d_write_def m_def Let_def)
    have "take m data @ take (n - m) (drop m data) = take n data"
      using m by (metis le_add_diff_inverse take_add)
    with m Some ne w show ?thesis by (auto simp: d_write_all_def)
  qed
qed

lemma d_write_all_Nil: "d_write_all [] d = (Ok (), d)"
  by (auto simp: d_write_all_def split: option.splits)

lemma write_loop_eq_write_all:
  "length data \<le> length ks \<Longrightarrow> write_loop ks data d = d_write_all data d"
proof (induction ks data d rule: write_loop.induct)
  case (1 ks d)
  then show ?case by (simp add: d_write_all_Nil)
next
  case (2 b bs d)
  then show ?case by simp
next
  case (3 k ks b bs d)
  have "b # bs \<noteq> []" by simp
  from d_write_step [OF this, of k d] 3 show ?case by (auto simp: try_act_def)
qed

end
