(* ===== verification/Rmbt_Config.thy ===== *)
theory Rmbt_Config
  imports Rust_Net
begin

text \<open>
  Configuration: the protocol constants (\<open>src/src/config/constants.rs\<close>), the records
  \<open>SecretKey\<close> and \<open>Config\<close> (\<open>src/src/config/mod.rs\<close>), the secret key file and the command
  line (\<open>src/src/config/parser.rs\<close>).
  \<open>log::LevelFilter\<close> and its parser belong to the crate \<open>log\<close>; the parser is the parameter
  \<open>parse_level\<close>. The contents of the key file are the parameter \<open>content\<close>.
\<close>

section \<open>Constants\<close>

definition GREETING :: "string \<Rightarrow> string" where
  "GREETING version = ''RMBTv'' @ version @ [CHR 0x0A]"

definition DEFAULT_TLS_PORT :: u16 where
  "DEFAULT_TLS_PORT = 443"

definition CRLF :: string where
  "CRLF = [CHR 0x0D, CHR 0x0A]"

definition HSTS_HEADER :: string where
  "HSTS_HEADER = ''Strict-Transport-Security: max-age=31536000'' @ CRLF"

definition CHUNK_SIZE :: usize where
  "CHUNK_SIZE = 4096"

definition MIN_CHUNK_SIZE :: usize where
  "MIN_CHUNK_SIZE = 4096"

definition MAX_CHUNK_SIZE :: usize where
  "MAX_CHUNK_SIZE = 4194304"

definition MAX_CHUNKS :: nat where
  "MAX_CHUNKS = 300000"

definition MAX_SECONDS :: nat where
  "MAX_SECONDS = 30"

definition MAX_LINE_LENGTH :: usize where
  "MAX_LINE_LENGTH = 1024"

definition SOCKET_TIMEOUT_SECS :: nat where
  "SOCKET_TIMEOUT_SECS = 30"

definition MAX_ACCEPT_EARLY :: i64 where
  "MAX_ACCEPT_EARLY = 20"

definition MAX_ACCEPT_LATE :: i64 where
  "MAX_ACCEPT_LATE = 90"

text \<open>\<open>RANDOM_CHUNK\<close>: a zeroed buffer passed through \<open>fastrand::fill\<close> (the parameter).\<close>

definition RANDOM_CHUNK :: "(bytes \<Rightarrow> bytes) \<Rightarrow> bytes" where
  "RANDOM_CHUNK fill = fill (replicate MAX_CHUNK_SIZE 0)"

lemmas chunk_constants = CHUNK_SIZE_def MIN_CHUNK_SIZE_def MAX_CHUNK_SIZE_def

section \<open>Records\<close>

record secret_key =
  sk_key :: string
  sk_label :: string

datatype level_filter = Off | Error | Warn | Info | Debug | Trace

text \<open>The levels are ordered as the crate \<open>log\<close> orders them: a filter admits all lower levels.\<close>

fun level_rank :: "level_filter \<Rightarrow> nat" where
  "level_rank Off = 0"
| "level_rank Error = 1"
| "level_rank Warn = 2"
| "level_rank Info = 3"
| "level_rank Debug = 4"
| "level_rank Trace = 5"

instantiation level_filter :: linorder
begin

definition less_eq_level_filter :: "level_filter \<Rightarrow> level_filter \<Rightarrow> bool" where
  "less_eq_level_filter a b \<longleftrightarrow> level_rank a \<le> level_rank b"

definition less_level_filter :: "level_filter \<Rightarrow> level_filter \<Rightarrow> bool" where
  "less_level_filter a b \<longleftrightarrow> level_rank a < level_rank b"

instance
proof (standard, goal_cases)
  case (4 x y)
  then show ?case by (cases x; cases y) (simp_all add: less_eq_level_filter_def)
qed (auto simp: less_eq_level_filter_def less_level_filter_def)

end

record config =
  cert_path :: "string option"
  key_path :: "string option"
  tls13_only :: bool
  hsts :: bool
  num_workers :: usize
  secret_key_path :: string
  check_token :: bool
  v2_only :: bool
  log_level :: level_filter
  syslog_target :: "socket_addr option"
  log_full_ip :: bool

definition config_default :: config where
  "config_default =
     \<lparr>cert_path = None, key_path = None, tls13_only = False, hsts = False,
      num_workers = 200, secret_key_path = ''secret.key'', check_token = True,
      v2_only = False, log_level = Off, syslog_target = None, log_full_ip = False\<rparr>"

section \<open>The secret key file\<close>

datatype key_error = CannotOpenKeyFile string string | NoValidKeys string

definition key_line :: "string \<Rightarrow> secret_key option" where
  "key_line line0 =
     (let line = trim line0
      in if length line < 5 \<or> starts_with ''#'' line then None
         else (case split_once '' '' line of
                 Some (key, label) \<Rightarrow> Some \<lparr>sk_key = key, sk_label = trim label\<rparr>
               | None \<Rightarrow> Some \<lparr>sk_key = line, sk_label = []\<rparr>))"

definition read_secret_keys ::
    "string \<Rightarrow> (string + string) \<Rightarrow> key_error + secret_key list" where
  "read_secret_keys path content =
     (case content of
        Inl e \<Rightarrow> Inl (CannotOpenKeyFile path e)
      | Inr text \<Rightarrow>
          (let keys = List.map_filter key_line (str_lines text)
           in if keys = [] then Inl (NoValidKeys path) else Inr keys))"

section \<open>Addresses on the command line\<close>

datatype cli_error =
    InvalidAddress string | InvalidSyslogTarget string | BadNumber string | BadLevel string

text \<open>\<open>rfind\<close>: the text before and after the last occurrence of a character.\<close>

definition rsplit_char :: "char \<Rightarrow> string \<Rightarrow> (string \<times> string) option" where
  "rsplit_char c s = map_option (\<lambda>(a, b). (rev b, rev a)) (split_once [c] (rev s))"

definition parse_bracketed :: "string \<Rightarrow> socket_addr option" where
  "parse_bracketed s =
     (if starts_with ''['' s then
        (case rsplit_char (CHR '']'') s of
           None \<Rightarrow> None
         | Some (before, after) \<Rightarrow>
             (case strip_prefix '':'' after of
                None \<Rightarrow> None
              | Some port_str \<Rightarrow>
                  (case (parse_ipv6_addr (drop 1 before), parse_u16 port_str) of
                     (Some ip, Some port) \<Rightarrow> Some (socket_addr_new (V6 ip) (of_nat port))
                   | _ \<Rightarrow> None)))
      else None)"

definition parse_ipv4_port :: "string \<Rightarrow> socket_addr option" where
  "parse_ipv4_port s =
     (case split_once '':'' s of
        None \<Rightarrow> None
      | Some (ip_s, port_s) \<Rightarrow>
          (case (parse_ipv4_addr ip_s, parse_u16 port_s) of
             (Some ip, Some port) \<Rightarrow> Some (socket_addr_new (V4 ip) (of_nat port))
           | _ \<Rightarrow> None))"

definition parse_addr :: "string \<Rightarrow> cli_error + socket_addr" where
  "parse_addr s0 =
     (let s = trim s0
      in case parse_socket_addr s of
           Some sa \<Rightarrow> Inr sa
         | None \<Rightarrow>
             (case parse_bracketed s of
                Some sa \<Rightarrow> Inr sa
              | None \<Rightarrow>
                  (case parse_ipv4_port s of
                     Some sa \<Rightarrow> Inr sa
                   | None \<Rightarrow>
                       (case parse_u16 s of
                          Some port \<Rightarrow> Inr (socket_addr_new (V4 UNSPECIFIED_V4) (of_nat port))
                        | None \<Rightarrow> Inl (InvalidAddress s)))))"

definition parse_syslog_target :: "string \<Rightarrow> cli_error + socket_addr" where
  "parse_syslog_target s0 =
     (let s = trim s0
      in case parse_socket_addr s of
           Some addr \<Rightarrow> Inr addr
         | None \<Rightarrow>
             (case parse_ip_addr s of
                Some ip \<Rightarrow> Inr (socket_addr_new ip 514)
              | None \<Rightarrow> Inl (InvalidSyslogTarget s)))"

section \<open>The command line\<close>

record cli =
  cli_config :: config
  tcp_addrs :: "socket_addr list"
  tls_addrs :: "socket_addr list"

text \<open>
  \<open>Run\<close> is \<open>Ok(Some(cli))\<close>, \<open>PrintAndExit\<close> is \<open>Ok(None)\<close> after \<open>--help\<close> or \<open>--version\<close>,
  \<open>Fail\<close> is \<open>Err\<close>, and \<open>ExitFailure\<close> is \<open>std::process::exit(1)\<close> on an unknown option.
\<close>

datatype cli_result = Run cli | PrintAndExit | Fail cli_error | ExitFailure string

definition upd_config :: "(config \<Rightarrow> config) \<Rightarrow> cli \<Rightarrow> cli" where
  "upd_config f c = c\<lparr>cli_config := f (cli_config c)\<rparr>"

text \<open>The value of an option: the setting to make, or the error of its parser.\<close>

definition value_option ::
    "(string \<Rightarrow> level_filter option) \<Rightarrow> string \<Rightarrow> (string \<Rightarrow> cli \<Rightarrow> cli_error + cli) option" where
  "value_option parse_level a =
     (if a = ''-l'' then
        Some (\<lambda>v c. map_sum id (\<lambda>sa. c\<lparr>tcp_addrs := tcp_addrs c @ [sa]\<rparr>) (parse_addr v))
      else if a = ''-L'' then
        Some (\<lambda>v c. map_sum id (\<lambda>sa. c\<lparr>tls_addrs := tls_addrs c @ [sa]\<rparr>) (parse_addr v))
      else if a = ''-c'' then Some (\<lambda>v c. Inr (upd_config (\<lambda>g. g\<lparr>cert_path := Some v\<rparr>) c))
      else if a = ''-k'' then Some (\<lambda>v c. Inr (upd_config (\<lambda>g. g\<lparr>key_path := Some v\<rparr>) c))
      else if a = ''-S'' then Some (\<lambda>v c. Inr (upd_config (\<lambda>g. g\<lparr>secret_key_path := v\<rparr>) c))
      else if a = ''-t'' then
        Some (\<lambda>v c. case parse_usize v of
                      Some n \<Rightarrow> Inr (upd_config (\<lambda>g. g\<lparr>num_workers := n\<rparr>) c)
                    | None \<Rightarrow> Inl (BadNumber v))
      else if a = ''-log'' then
        Some (\<lambda>v c. case parse_level v of
                      Some l \<Rightarrow> Inr (upd_config (\<lambda>g. g\<lparr>log_level := l\<rparr>) c)
                    | None \<Rightarrow> Inl (BadLevel v))
      else if a = ''--syslog'' then
        Some (\<lambda>v c. map_sum id (\<lambda>sa. upd_config (\<lambda>g. g\<lparr>syslog_target := Some sa\<rparr>) c)
                      (parse_syslog_target v))
      else None)"

definition plain_option :: "string \<Rightarrow> (cli \<Rightarrow> cli) option" where
  "plain_option a =
     (if a = ''--tls13-only'' then Some (upd_config (\<lambda>g. g\<lparr>tls13_only := True\<rparr>))
      else if a = ''--hsts'' then Some (upd_config (\<lambda>g. g\<lparr>hsts := True\<rparr>))
      else if a = ''-s'' then Some (\<lambda>c. c)
      else if a = ''--no-token-check'' then Some (upd_config (\<lambda>g. g\<lparr>check_token := False\<rparr>))
      else if a = ''--v2-only'' then Some (upd_config (\<lambda>g. g\<lparr>v2_only := True\<rparr>))
      else if a = ''--log-full-ip'' then Some (upd_config (\<lambda>g. g\<lparr>log_full_ip := True\<rparr>))
      else None)"

definition default_tls_addrs :: "socket_addr list" where
  "default_tls_addrs =
     [socket_addr_new (V6 UNSPECIFIED_V6) DEFAULT_TLS_PORT,
      socket_addr_new (V4 UNSPECIFIED_V4) DEFAULT_TLS_PORT]"

text \<open>The loop over the arguments; an option whose value is missing at the end is ignored.\<close>

fun parse_args :: "(string \<Rightarrow> level_filter option) \<Rightarrow> cli \<Rightarrow> string list \<Rightarrow> cli_result" where
  "parse_args pl c [] =
     Run (if tls_addrs c = [] then c\<lparr>tls_addrs := default_tls_addrs\<rparr> else c)"
| "parse_args pl c (a # rest) =
     (case value_option pl a of
        Some f \<Rightarrow>
          (case rest of
             [] \<Rightarrow> parse_args pl c []
           | v # rest' \<Rightarrow>
               (case f v c of Inl e \<Rightarrow> Fail e | Inr c' \<Rightarrow> parse_args pl c' rest'))
      | None \<Rightarrow>
          (case plain_option a of
             Some g \<Rightarrow> parse_args pl (g c) rest
           | None \<Rightarrow>
               if a = ''--help'' \<or> a = ''-h'' \<or> a = ''-v'' \<or> a = ''--version''
               then PrintAndExit else ExitFailure a))"

definition parse_cli :: "(string \<Rightarrow> level_filter option) \<Rightarrow> string list \<Rightarrow> cli_result" where
  "parse_cli pl args =
     parse_args pl \<lparr>cli_config = config_default, tcp_addrs = [], tls_addrs = []\<rparr> args"

end
