(* ===== verification/Rmbt_Stream.thy ===== *)
theory Rmbt_Stream
  imports Rmbt_Io Rmbt_Config
begin

text \<open>
  The connection as the protocol handlers see it (\<open>src/src/stream/mod.rs\<close>, \<open>Stream\<close>): raw
  bytes, or WebSocket messages on top of a transport. \<open>tungstenite::WebSocket\<close> is not part
  of the repository: a WebSocket is the sequence of results its \<open>read\<close> will return
  (\<open>ws_in\<close>, of any finite length, then \<open>ws_end\<close> for ever), the messages sent (\<open>ws_out\<close>) and the number of
  messages it still takes before sending fails (\<open>ws_room\<close>).
  A \<open>BufReader\<close> only reads ahead: what it has buffered is the front of \<open>d_in\<close>.

  The locale \<open>byte_stream\<close> is the interface the protocol handlers rely on. It is interpreted
  for the raw stream, for the WebSocket stream and for the dispatching operations of
  \<open>Stream\<close>.
\<close>

section \<open>Messages and streams\<close>

datatype ws_message =
    Text string | Binary bytes | Ping bytes | Pong bytes | Close | Frame

text \<open>A tungstenite error with its text; only \<open>Error::Io\<close> is told apart.\<close>

datatype ws_error = WsIo io_error (ws_display: string) | WsOther (ws_display: string)

record websocket =
  ws_base :: transport
  ws_in :: "(ws_error + ws_message) list"
  ws_end :: ws_error
  ws_out :: "ws_message list"
  ws_room :: "(nat \<times> ws_error) option"

datatype stream = Raw transport | WebSocket websocket

definition LF :: char where "LF = CHR 0x0A"
definition CR :: char where "CR = CHR 0x0D"

section \<open>Reading a line\<close>

definition pop_if :: "'a \<Rightarrow> 'a list \<Rightarrow> 'a list" where
  "pop_if x xs = (if xs \<noteq> [] \<and> last xs = x then butlast xs else xs)"

definition raw_read_line :: "(transport, string) act" where
  "raw_read_line =
     try_act (on_chan (d_read_until (MAX_LINE_LENGTH + 1) 0x0A)) (\<lambda>buf.
       if buf = [] then err_act (IoError UnexpectedEof ''connection closed'')
       else if MAX_LINE_LENGTH < length buf then err_act (IoError InvalidData ''line too long'')
       else (case from_utf8 (pop_if 0x0D (pop_if 0x0A buf)) of
               Some s \<Rightarrow> ok_act s
             | None \<Rightarrow> err_act (IoError InvalidData ''invalid UTF-8 in line'')))"

fun ws_io_error :: "ws_error \<Rightarrow> io_error" where
  "ws_io_error (WsIo e _) = e"
| "ws_io_error (WsOther txt) = IoError Other txt"

definition ws_line :: "ws_message \<Rightarrow> string option" where
  "ws_line m =
     (case m of
        Text t \<Rightarrow> Some (trim_end_char CR (trim_end_char LF t))
      | Binary b \<Rightarrow> Some (pop_if CR (pop_if LF (from_utf8_lossy b)))
      | _ \<Rightarrow> None)"

text \<open>The loop over \<open>ws.read()\<close>, on the results still to come.\<close>

fun ws_read_line_from ::
    "(ws_error + ws_message) list \<Rightarrow> ws_error \<Rightarrow> string res \<times> (ws_error + ws_message) list" where
  "ws_read_line_from [] e = (Err (ws_io_error e), [])"
| "ws_read_line_from (Inl e' # rs) e = (Err (ws_io_error e'), rs)"
| "ws_read_line_from (Inr m # rs) e =
     (if m = Close then (Err (IoError ConnectionReset ''ws close''), rs)
      else (case ws_line m of
              Some l \<Rightarrow> (Ok l, rs)
            | None \<Rightarrow> ws_read_line_from rs e))"

definition ws_read_line :: "(websocket, string) act" where
  "ws_read_line w =
     (case ws_read_line_from (ws_in w) (ws_end w) of (r, rest) \<Rightarrow> (r, w\<lparr>ws_in := rest\<rparr>))"

section \<open>Writing\<close>

definition ws_send :: "ws_message \<Rightarrow> websocket \<Rightarrow> (ws_error + unit) \<times> websocket" where
  "ws_send m w =
     (case ws_room w of
        None \<Rightarrow> (Inr (), w\<lparr>ws_out := ws_out w @ [m]\<rparr>)
      | Some (0, e) \<Rightarrow> (Inl e, w)
      | Some (Suc n, e) \<Rightarrow> (Inr (), w\<lparr>ws_out := ws_out w @ [m], ws_room := Some (n, e)\<rparr>))"

definition ws_flush :: "websocket \<Rightarrow> (ws_error + unit) \<times> websocket" where
  "ws_flush w = (case ws_room w of Some (0, e) \<Rightarrow> (Inl e, w) | _ \<Rightarrow> (Inr (), w))"

text \<open>\<open>map_err(|e| io::Error::other(e.to_string()))\<close>\<close>

definition map_other :: "(websocket \<Rightarrow> (ws_error + unit) \<times> websocket) \<Rightarrow> (websocket, unit) act" where
  "map_other f w =
     (case f w of
        (Inl e, w') \<Rightarrow> (Err (IoError Other (ws_display e)), w')
      | (Inr _, w') \<Rightarrow> (Ok (), w'))"

definition ws_frame :: "bytes \<Rightarrow> ws_message" where
  "ws_frame data =
     (if length data < 2 \<or> CHUNK_SIZE - 3 < length data then Binary data
      else Text (from_utf8_lossy data))"

definition ws_write_all :: "bytes \<Rightarrow> (websocket, unit) act" where
  "ws_write_all data =
     try_act (map_other (ws_send (ws_frame data))) (\<lambda>_. map_other ws_flush)"

section \<open>Reading data\<close>

definition ws_payload :: "ws_message \<Rightarrow> bytes option" where
  "ws_payload m = (case m of Binary b \<Rightarrow> Some b | Text t \<Rightarrow> Some (as_bytes t) | _ \<Rightarrow> None)"

text \<open>\<open>filled\<close> holds the bytes already copied; the rest of a message that does not fit is lost.\<close>

fun ws_read_exact_from ::
    "nat \<Rightarrow> bytes \<Rightarrow> (ws_error + ws_message) list \<Rightarrow> ws_error \<Rightarrow>
     bytes res \<times> (ws_error + ws_message) list" where
  "ws_read_exact_from n filled [] e =
     (if length filled < n then (Err (ws_io_error e), []) else (Ok filled, []))"
| "ws_read_exact_from n filled (r # rs) e =
     (if length filled < n then
        (case r of
           Inl e' \<Rightarrow> (Err (ws_io_error e'), rs)
         | Inr m \<Rightarrow>
             if m = Close then (Err (IoError ConnectionReset ''ws close''), rs)
             else
               (case ws_payload m of
                  Some b \<Rightarrow> ws_read_exact_from n (filled @ take (n - length filled) b) rs e
                | None \<Rightarrow> ws_read_exact_from n filled rs e))
      else (Ok filled, r # rs))"

definition ws_read_exact :: "nat \<Rightarrow> (websocket, bytes) act" where
  "ws_read_exact n w =
     (case ws_read_exact_from n [] (ws_in w) (ws_end w) of (r, rest) \<Rightarrow> (r, w\<lparr>ws_in := rest\<rparr>))"

fun ws_read_from ::
    "nat \<Rightarrow> (ws_error + ws_message) list \<Rightarrow> ws_error \<Rightarrow> bytes res \<times> (ws_error + ws_message) list" where
  "ws_read_from n [] e = (Err (ws_io_error e), [])"
| "ws_read_from n (Inl e' # rs) e = (Err (ws_io_error e'), rs)"
| "ws_read_from n (Inr m # rs) e =
     (if m = Close then (Ok [], rs)
      else (case ws_payload m of
              Some b \<Rightarrow> (Ok (take n b), rs)
            | None \<Rightarrow> ws_read_from n rs e))"

definition ws_read :: "nat \<Rightarrow> (websocket, bytes) act" where
  "ws_read n w =
     (case ws_read_from n (ws_in w) (ws_end w) of (r, rest) \<Rightarrow> (r, w\<lparr>ws_in := rest\<rparr>))"

section \<open>The operations of Stream\<close>

definition on_raw :: "(transport, 'a) act \<Rightarrow> transport \<Rightarrow> 'a res \<times> stream" where
  "on_raw f t = (case f t of (r, t') \<Rightarrow> (r, Raw t'))"

definition on_ws :: "(websocket, 'a) act \<Rightarrow> websocket \<Rightarrow> 'a res \<times> stream" where
  "on_ws f w = (case f w of (r, w') \<Rightarrow> (r, WebSocket w'))"

fun read_line :: "(stream, string) act" where
  "read_line (Raw t) = on_raw raw_read_line t"
| "read_line (WebSocket w) = on_ws ws_read_line w"

fun write_all :: "bytes \<Rightarrow> (stream, unit) act" where
  "write_all data (Raw t) = on_raw (t_write_all data) t"
| "write_all data (WebSocket w) = on_ws (ws_write_all data) w"

definition write_line :: "string \<Rightarrow> (stream, unit) act" where
  "write_line s = write_all (as_bytes s)"

fun read_exact :: "nat \<Rightarrow> (stream, bytes) act" where
  "read_exact n (Raw t) = on_raw (t_read_exact n) t"
| "read_exact n (WebSocket w) = on_ws (ws_read_exact n) w"

fun stream_read :: "nat \<Rightarrow> nat \<Rightarrow> (stream, bytes) act" where
  "stream_read k n (Raw t) = on_raw (transport_read k n) t"
| "stream_read k n (WebSocket w) = on_ws (ws_read n) w"

fun kind_name :: "stream \<Rightarrow> string" where
  "kind_name (Raw _) = ''raw''"
| "kind_name (WebSocket _) = ''websocket''"

fun peer_addr :: "stream \<Rightarrow> socket_addr option" where
  "peer_addr (Raw t) = t_peer_addr t"
| "peer_addr (WebSocket w) = t_peer_addr (ws_base w)"

section \<open>The interface of a stream\<close>

text \<open>
  \<open>unread\<close> counts what the peer has still to say; \<open>sent\<close> is the data delivered to it.
  \<open>clean\<close> marks the data whose bytes arrive unchanged: all data on a raw stream; on a
  WebSocket, data framed as binary or valid UTF-8. \<open>inp\<close> is what is still to come from the
  peer: all that a read depends on, and nothing a write changes. On a \<open>reliable\<close> stream
  every write succeeds.
\<close>

locale byte_stream =
  fixes rd :: "('s, string) act"
    and wr :: "bytes \<Rightarrow> ('s, unit) act"
    and rx :: "nat \<Rightarrow> ('s, bytes) act"
    and unread :: "'s \<Rightarrow> nat"
    and sent :: "'s \<Rightarrow> bytes"
    and peer :: "'s \<Rightarrow> socket_addr option"
    and clean :: "bytes \<Rightarrow> bool"
    and inp :: "'s \<Rightarrow> 'i"
    and reliable :: "'s \<Rightarrow> bool"
  assumes rd_progress: "rd s = (Ok l, s') \<Longrightarrow> unread s' < unread s"
    and rd_unread: "rd s = (r, s') \<Longrightarrow> unread s' \<le> unread s"
    and rd_frame: "rd s = (r, s') \<Longrightarrow> sent s' = sent s \<and> peer s' = peer s"
    and rd_no_panic: "rd s \<noteq> (Panic p, s')"
    and wr_sent: "wr d s = (Ok (), s') \<Longrightarrow> clean d \<Longrightarrow> sent s' = sent s @ d"
    and wr_frame: "wr d s = (q, s') \<Longrightarrow> unread s' = unread s \<and> peer s' = peer s"
    and wr_prefix: "wr d s = (q, s') \<Longrightarrow> prefix (sent s) (sent s')"
    and wr_bound: "wr d s = (q, s') \<Longrightarrow> clean d \<Longrightarrow> prefix (sent s') (sent s @ d)"
    and wr_no_panic: "wr d s \<noteq> (Panic p, s')"
    and rx_length: "rx n s = (Ok b, s') \<Longrightarrow> length b = n"
    and rx_progress: "rx n s = (Ok b, s') \<Longrightarrow> 0 < n \<Longrightarrow> unread s' < unread s"
    and rx_unread: "rx n s = (v, s') \<Longrightarrow> unread s' \<le> unread s"
    and rx_frame: "rx n s = (v, s') \<Longrightarrow> sent s' = sent s \<and> peer s' = peer s"
    and rx_no_panic: "rx n s \<noteq> (Panic p, s')"
    and rd_inp: "rd s = (r, s') \<Longrightarrow> inp s = inp t \<Longrightarrow> \<exists>t'. rd t = (r, t') \<and> inp t' = inp s'"
    and wr_inp: "wr d s = (q, s') \<Longrightarrow> inp s' = inp s"
    and wr_reliable: "reliable s \<Longrightarrow> \<exists>s'. wr d s = (Ok (), s') \<and> reliable s'"
    and rd_reliable: "rd s = (r, s') \<Longrightarrow> reliable s' \<longleftrightarrow> reliable s"
    and rx_reliable: "rx n s = (v, s') \<Longrightarrow> reliable s' \<longleftrightarrow> reliable s"
begin

lemma wr_unread: "wr d s = (q, s') \<Longrightarrow> unread s' \<le> unread s"
  by (simp add: wr_frame)

text \<open>An exchange that ends in a read of a line leaves strictly less to read.\<close>

lemma wr_rd_progress:
  assumes "try_act (wr d) (\<lambda>_. rd) s = (Ok l, s')"
  shows "unread s' < unread s"
proof -
  from assms obtain s1 where "wr d s = (Ok (), s1)" and r: "rd s1 = (Ok l, s')"
    by (elim try_act_okE) simp
  then have "unread s1 = unread s" using wr_frame by blast
  with rd_progress [OF r] show ?thesis by simp
qed

lemma wr_wr_sent:
  assumes "try_act (wr d) (\<lambda>_. wr e) s = (Ok (), s')" and "clean d" and "clean e"
  shows "sent s' = sent s @ d @ e"
  using assms by (auto elim!: try_act_okE simp: wr_sent)

lemma exchange_no_panic: "try_act (wr d) (\<lambda>_. rd) s \<noteq> (Panic p, s')"
  using wr_no_panic rd_no_panic by (auto simp: try_act_def split: res.splits prod.splits)

end

subsection \<open>Raw streams\<close>

lemma d_read_up_to_unread:
  "d_read_up_to n d = (r, d') \<Longrightarrow> length (d_in d') \<le> length (d_in d) \<and> d' = d\<lparr>d_in := d_in d'\<rparr>"
  by (auto simp: d_read_up_to_def split: if_splits option.splits)

lemma d_read_up_to_Ok:
  "d_read_up_to n d = (Ok b, d') \<Longrightarrow>
     d_in d = b @ d_in d' \<and> length b \<le> n \<and> (length b < n \<longrightarrow> d_in d' = [] \<and> d_end d = None)"
  by (auto simp: d_read_up_to_def split: if_splits option.splits)

lemma d_read_until_frame:
  "d_read_until n c d = (r, d') \<Longrightarrow> length (d_in d') \<le> length (d_in d) \<and> d' = d\<lparr>d_in := d_in d'\<rparr>"
  by (auto simp: d_read_until_def Let_def split: if_splits dest: d_read_up_to_unread)

text \<open>What \<open>read_until\<close> returns is the front of the input, cut after the first delimiter.\<close>

lemma d_read_until_Ok:
  assumes "d_read_until n c d = (Ok b, d')"
  shows "d_in d = b @ d_in d' \<and> length b \<le> n \<and> c \<notin> set (butlast b)"
proof -
  define xs where "xs = take n (d_in d)"
  define pre where "pre = takeWhile (\<lambda>x. x \<noteq> c) xs"
  have pre: "c \<notin> set pre" by (auto simp: pre_def dest: set_takeWhileD)
  show ?thesis
  proof (cases "length pre < length xs")
    case True
    then obtain ys where ys: "xs = pre @ c # ys"
      unfolding pre_def by (rule takeWhile_split) auto
    have b: "b = pre @ [c]" "d_in d' = drop (length pre + 1) (d_in d)"
      using assms True by (auto simp: d_read_until_def Let_def pre_def xs_def)
    define zs where "zs = ys @ drop n (d_in d)"
    have "d_in d = (pre @ c # ys) @ drop n (d_in d)"
      using ys by (metis append_take_drop_id xs_def)
    then have "d_in d = (pre @ [c]) @ zs" by (simp add: zs_def)
    then have "d_in d = b @ d_in d'" using b by simp
    moreover have "length xs \<le> n" by (simp add: xs_def)
    then have "length (pre @ [c]) \<le> n" using ys by simp
    ultimately show ?thesis using b pre by simp
  next
    case False
    then have xs: "xs = pre" unfolding pre_def by (simp add: takeWhile_full)
    have "d_read_up_to n d = (Ok b, d')"
      using assms False by (auto simp: d_read_until_def Let_def pre_def xs_def)
    then have b: "d_in d = b @ d_in d'" "length b \<le> n" by (auto dest: d_read_up_to_Ok)
    then have "b = take (length b) xs" by (simp add: xs_def)
    then have "c \<notin> set b" using xs pre by (metis in_set_takeD)
    with b show ?thesis by (auto dest: in_set_butlastD)
  qed
qed

lemma raw_read_line_cases:
  assumes "raw_read_line t = (r, t')"
  obtains (until) b d where "d_read_until (MAX_LINE_LENGTH + 1) 0x0A (chan t) = (Ok b, d)"
      and "t' = with_chan t d" and "\<And>p. r \<noteq> Panic p" and "\<And>l. r = Ok l \<Longrightarrow> b \<noteq> []"
  | (fail) e d where "d_read_until (MAX_LINE_LENGTH + 1) 0x0A (chan t) = (Err e, d)"
      and "t' = with_chan t d" and "r = Err e"
proof -
  obtain x d where x: "d_read_until (MAX_LINE_LENGTH + 1) 0x0A (chan t) = (x, d)" by fastforce
  have "x \<noteq> Panic p" for p
    using x by (auto simp: d_read_until_def d_read_up_to_def Let_def split: if_splits option.splits)
  with x assms show ?thesis
    by (cases x)
      (auto simp: raw_read_line_def try_act_def on_chan_def ok_act_def err_act_def
        intro: that split: if_splits option.splits)
qed

lemma raw_read_line_frame:
  assumes "raw_read_line t = (r, t')"
  shows "t_unread t' \<le> t_unread t" and "t_sent t' = t_sent t" and "t_peer_addr t' = t_peer_addr t"
proof -
  from assms obtain x d where "d_read_until (MAX_LINE_LENGTH + 1) 0x0A (chan t) = (x, d)"
    and t': "t' = with_chan t d" by (cases rule: raw_read_line_cases) auto
  then have "length (d_in d) \<le> length (d_in (chan t))" and d: "d = (chan t)\<lparr>d_in := d_in d\<rparr>"
    by (auto dest: d_read_until_frame)
  then show "t_unread t' \<le> t_unread t" by (simp add: t_unread_def t')
  from d have "d_out d = d_out (chan t)" and "d_peer d = d_peer (chan t)"
    by (metis duplex.select_convs(3) duplex.surjective duplex.update_convs(1),
        metis duplex.select_convs(5) duplex.surjective duplex.update_convs(1))
  then show "t_sent t' = t_sent t" and "t_peer_addr t' = t_peer_addr t"
    by (simp_all add: t_sent_def t_peer_addr_def t')
qed

lemma raw_read_line_progress:
  assumes "raw_read_line t = (Ok l, t')"
  shows "t_unread t' < t_unread t"
  using assms
proof (cases rule: raw_read_line_cases)
  case (until b d)
  then have "b \<noteq> []" by simp
  with d_read_until_Ok [OF until(1)] have "length (d_in d) < length (d_in (chan t))" by simp
  with until(2) show ?thesis by (simp add: t_unread_def)
qed simp

lemma t_read_exact_eq:
  "t_read_exact n t = (v, t') \<Longrightarrow>
     (t_unread t' \<le> t_unread t \<and> t_sent t' = t_sent t \<and> t_peer_addr t' = t_peer_addr t) \<and>
     (\<forall>p. v \<noteq> Panic p) \<and>
     (\<forall>b. v = Ok b \<longrightarrow> length b = n \<and> t_unread t = n + t_unread t')"
  by (auto simp: t_read_exact_def on_chan_eq d_read_exact_def t_unread_def t_sent_def
      t_peer_addr_def split: if_splits)

definition t_input :: "transport \<Rightarrow> bytes \<times> io_error option" where
  "t_input t = (d_in (chan t), d_end (chan t))"

definition t_reliable :: "transport \<Rightarrow> bool" where
  "t_reliable t \<longleftrightarrow> d_room (chan t) = None"

lemma d_read_until_room: "d_read_until n c d = (r, d') \<Longrightarrow> d_room d' = d_room d"
  by (auto simp: d_read_until_def d_read_up_to_def Let_def split: if_splits option.splits)

lemma d_read_until_input:
  assumes "d_read_until n c d = (r, d')" and "d_in d = d_in e" and "d_end d = d_end e"
  shows "d_read_until n c e = (r, e\<lparr>d_in := d_in d'\<rparr>) \<and> d_end d' = d_end d"
  using assms
  by (auto simp: d_read_until_def d_read_up_to_def Let_def split: if_splits option.splits)

lemma raw_read_line_input:
  assumes "raw_read_line t = (r, t')" and "t_input t = t_input u"
  shows "\<exists>u'. raw_read_line u = (r, u') \<and> t_input u' = t_input t'"
proof -
  obtain x d where x: "d_read_until (MAX_LINE_LENGTH + 1) 0x0A (chan t) = (x, d)" by fastforce
  with assms(2) have y: "d_read_until (MAX_LINE_LENGTH + 1) 0x0A (chan u) =
      (x, (chan u)\<lparr>d_in := d_in d\<rparr>)" and e: "d_end d = d_end (chan u)"
    by (auto simp: t_input_def dest: d_read_until_input)
  from assms(1) x y e show ?thesis
    by (cases x)
      (auto simp: raw_read_line_def try_act_def on_chan_def ok_act_def err_act_def t_input_def
        split: if_splits option.splits)
qed

interpretation raw: byte_stream raw_read_line t_write_all t_read_exact t_unread t_sent
  t_peer_addr "\<lambda>_. True" t_input t_reliable
proof (unfold_locales, goal_cases)
  case (1 s l s')
  then show ?case by (rule raw_read_line_progress)
next
  case (2 s r s')
  then show ?case by (rule raw_read_line_frame)
next
  case (3 s r s')
  then show ?case by (simp add: raw_read_line_frame)
next
  case (4 s p s')
  show ?case by (auto elim: raw_read_line_cases)
next
  case (5 d s s')
  then show ?case by (simp add: t_write_all_Ok)
next
  case (6 d s q s')
  then show ?case
    by (auto simp: t_write_all_def on_chan_eq t_unread_def t_peer_addr_def
        dest: d_write_all_frame)
next
  case (7 d s q s')
  then show ?case
    by (auto simp: t_write_all_def on_chan_eq t_sent_def dest: d_write_all_frame)
next
  case (8 d s q s')
  then show ?case
    by (auto simp: t_write_all_def on_chan_eq t_sent_def dest: d_write_all_bound)
next
  case (9 d s p s')
  show ?case by (auto simp: t_write_all_def on_chan_eq d_write_all_no_panic)
next
  case (15 s r s' t)
  then show ?case by (rule raw_read_line_input)
next
  case (16 d s q s')
  then show ?case
    by (auto simp: t_write_all_def on_chan_eq t_input_def dest: d_write_all_frame)
next
  case (17 s d)
  then show ?case by (auto simp: t_write_all_def on_chan_def t_reliable_def d_write_all_def)
next
  case (18 s r s')
  then show ?case
    by (cases rule: raw_read_line_cases) (auto simp: t_reliable_def dest: d_read_until_room)
next
  case (19 n s v s')
  then show ?case
    by (auto simp: t_read_exact_def on_chan_eq d_read_exact_def t_reliable_def split: if_splits)
qed (auto dest: t_read_exact_eq)

subsection \<open>WebSocket streams\<close>

definition msg_data :: "ws_message \<Rightarrow> bytes" where
  "msg_data m = (case ws_payload m of Some b \<Rightarrow> b | None \<Rightarrow> [])"

definition ws_sent :: "websocket \<Rightarrow> bytes" where
  "ws_sent w = concat (map msg_data (ws_out w))"

definition ws_clean :: "bytes \<Rightarrow> bool" where
  "ws_clean d \<longleftrightarrow> length d < 2 \<or> CHUNK_SIZE - 3 < length d \<or> valid_utf8 d"

lemma msg_data_frame: "ws_clean d \<Longrightarrow> msg_data (ws_frame d) = d"
  by (auto simp: ws_clean_def ws_frame_def msg_data_def ws_payload_def from_utf8_lossy_def
      lossy_valid)

lemma ws_read_line_from_rest:
  "ws_read_line_from rs e = (r, rest) \<Longrightarrow>
     length rest \<le> length rs \<and> (\<forall>l. r = Ok l \<longrightarrow> length rest < length rs) \<and> (\<forall>p. r \<noteq> Panic p)"
proof (induction rs e arbitrary: r rest rule: ws_read_line_from.induct)
  case (3 m rs e)
  then show ?case by (fastforce split: if_splits option.splits)
qed auto

lemma ws_read_exact_from_rest:
  "ws_read_exact_from n filled rs e = (v, rest) \<Longrightarrow> length filled \<le> n \<Longrightarrow>
     length rest \<le> length rs \<and> (\<forall>p. v \<noteq> Panic p) \<and>
     (\<forall>b. v = Ok b \<longrightarrow> length b = n \<and> (length filled < n \<longrightarrow> length rest < length rs))"
proof (induction rs arbitrary: filled v rest)
  case Nil
  then show ?case by (auto split: if_splits)
next
  case (Cons r rs)
  show ?case
  proof (cases "length filled < n \<and> (\<exists>m. r = Inr m \<and> m \<noteq> Close)")
    case False
    with Cons.prems show ?thesis by (auto split: if_splits sum.splits)
  next
    case True
    then obtain m where m: "r = Inr m" "m \<noteq> Close" "length filled < n" by auto
    obtain f where "ws_read_exact_from n f rs e = (v, rest)" and "length f \<le> n"
    proof (cases "ws_payload m")
      case None
      with m Cons.prems that show ?thesis by auto
    next
      case (Some b)
      with m Cons.prems that [of "filled @ take (n - length filled) b"] show ?thesis by auto
    qed
    from Cons.IH [OF this] show ?thesis by auto
  qed
qed

lemma ws_write_all_eq:
  "ws_write_all d w = (q, w') \<Longrightarrow>
     ws_in w' = ws_in w \<and> ws_end w' = ws_end w \<and> ws_base w' = ws_base w \<and> (\<forall>p. q \<noteq> Panic p) \<and>
     (ws_out w' = ws_out w @ [ws_frame d] \<or> (ws_out w' = ws_out w \<and> q \<noteq> Ok ()))"
  by (auto simp: ws_write_all_def try_act_def map_other_def ws_send_def ws_flush_def
      split: option.splits prod.splits nat.splits sum.splits)

interpretation ws: byte_stream ws_read_line ws_write_all ws_read_exact "\<lambda>w. length (ws_in w)"
  ws_sent "\<lambda>w. t_peer_addr (ws_base w)" ws_clean "\<lambda>w. (ws_in w, ws_end w)"
  "\<lambda>w. ws_room w = None"
proof (unfold_locales, goal_cases)
  case (5 d s s')
  then show ?case by (auto simp: ws_sent_def msg_data_frame dest: ws_write_all_eq)
next
  case (7 d s q s')
  then have "ws_sent s' = ws_sent s @ msg_data (ws_frame d) \<or> ws_sent s' = ws_sent s"
    by (auto simp: ws_sent_def dest: ws_write_all_eq)
  then show ?case by auto
next
  case (8 d s q s')
  then have "ws_sent s' = ws_sent s @ d \<or> ws_sent s' = ws_sent s"
    by (auto simp: ws_sent_def msg_data_frame dest: ws_write_all_eq)
  then show ?case by auto
next
  case (17 s d)
  then show ?case
    by (simp add: ws_write_all_def try_act_def map_other_def ws_send_def ws_flush_def)
qed (auto simp: ws_read_line_def ws_read_exact_def ws_sent_def split: prod.splits
    dest: ws_write_all_eq ws_read_line_from_rest ws_read_exact_from_rest)

subsection \<open>Either\<close>

fun stream_unread :: "stream \<Rightarrow> nat" where
  "stream_unread (Raw t) = t_unread t"
| "stream_unread (WebSocket w) = length (ws_in w)"

fun stream_sent :: "stream \<Rightarrow> bytes" where
  "stream_sent (Raw t) = t_sent t"
| "stream_sent (WebSocket w) = ws_sent w"

fun stream_input ::
    "stream \<Rightarrow> (bytes \<times> io_error option) + ((ws_error + ws_message) list \<times> ws_error)" where
  "stream_input (Raw t) = Inl (t_input t)"
| "stream_input (WebSocket w) = Inr (ws_in w, ws_end w)"

fun stream_reliable :: "stream \<Rightarrow> bool" where
  "stream_reliable (Raw t) = t_reliable t"
| "stream_reliable (WebSocket w) = (ws_room w = None)"

lemma on_raw_eq: "on_raw f t = (r, s) \<longleftrightarrow> (\<exists>t'. f t = (r, t') \<and> s = Raw t')"
  by (auto simp: on_raw_def split: prod.splits)

lemma on_ws_eq: "on_ws f w = (r, s) \<longleftrightarrow> (\<exists>w'. f w = (r, w') \<and> s = WebSocket w')"
  by (auto simp: on_ws_def split: prod.splits)

lemmas on_either = on_raw_eq on_ws_eq

interpretation st: byte_stream read_line write_all read_exact stream_unread stream_sent
  peer_addr ws_clean stream_input stream_reliable
proof (unfold_locales, goal_cases)
  case (1 s l s')
  then show ?case by (cases s) (auto simp: on_either intro: raw.rd_progress ws.rd_progress)
next
  case (2 s r s')
  then show ?case by (cases s) (auto simp: on_either intro: raw.rd_unread ws.rd_unread)
next
  case (3 s r s')
  then show ?case by (cases s) (auto simp: on_either dest: raw.rd_frame ws.rd_frame)
next
  case (4 s p s')
  then show ?case by (cases s) (auto simp: on_either raw.rd_no_panic ws.rd_no_panic)
next
  case (5 d s s')
  then show ?case by (cases s) (auto simp: on_either dest: raw.wr_sent ws.wr_sent)
next
  case (6 d s q s')
  then show ?case by (cases s) (auto simp: on_either dest: raw.wr_frame ws.wr_frame)
next
  case (7 d s q s')
  then show ?case by (cases s) (auto simp: on_either dest: raw.wr_prefix ws.wr_prefix)
next
  case (8 d s q s')
  then show ?case by (cases s) (auto simp: on_either dest: raw.wr_bound ws.wr_bound)
next
  case (9 d s p s')
  then show ?case by (cases s) (auto simp: on_either raw.wr_no_panic ws.wr_no_panic)
next
  case (10 n s b s')
  then show ?case by (cases s) (auto simp: on_either dest: raw.rx_length ws.rx_length)
next
  case (11 n s b s')
  then show ?case by (cases s) (auto simp: on_either intro: raw.rx_progress ws.rx_progress)
next
  case (12 n s v s')
  then show ?case by (cases s) (auto simp: on_either intro: raw.rx_unread ws.rx_unread)
next
  case (13 n s v s')
  then show ?case by (cases s) (auto simp: on_either dest: raw.rx_frame ws.rx_frame)
next
  case (14 n s p s')
  then show ?case by (cases s) (auto simp: on_either raw.rx_no_panic ws.rx_no_panic)
next
  case (15 s r s' t)
  then show ?case
    by (cases s; cases t)
      (auto simp: on_either dest: raw.rd_inp ws.rd_inp)
next
  case (16 d s q s')
  then show ?case by (cases s) (auto simp: on_either dest: raw.wr_inp ws.wr_inp)
next
  case (17 s d)
  then show ?case
    by (cases s) (auto simp: on_either dest: raw.wr_reliable [of _ d] ws.wr_reliable [of _ d])
next
  case (18 s r s')
  then show ?case by (cases s) (auto simp: on_either dest: raw.rd_reliable ws.rd_reliable)
next
  case (19 n s v s')
  then show ?case by (cases s) (auto simp: on_either dest: raw.rx_reliable ws.rx_reliable)
qed

section \<open>Lines\<close>

lemma takeWhile_stops: "c \<notin> set xs \<Longrightarrow> takeWhile (\<lambda>x. x \<noteq> c) (xs @ c # ys) = xs"
  by (induction xs) auto

lemma char_of_line_ends: "char_of (10 :: nat) = CHR 0x0A" "char_of (13 :: nat) = CHR 0x0D"
  by code_simp+

lemma LF_byte: "CHR 0x0A \<notin> set l \<Longrightarrow> (0x0A :: u8) \<notin> set (as_bytes l)"
proof
  assume "CHR 0x0A \<notin> set l" and "(0x0A :: u8) \<in> set (as_bytes l)"
  then obtain c where c: "c \<in> set l" "(0x0A :: u8) = of_nat (of_char c)"
    by (auto simp: as_bytes_def)
  then have "char_of (unat (0x0A :: u8)) = c" by (simp only: char_of_byte_of_char)
  then have "c = CHR 0x0A" by (simp add: char_of_line_ends)
  with c \<open>CHR 0x0A \<notin> set l\<close> show False by simp
qed

lemma d_read_until_line:
  assumes "d_in d = xs @ c # rest" and "c \<notin> set xs" and "length xs < n"
  shows "d_read_until n c d = (Ok (xs @ [c]), d\<lparr>d_in := rest\<rparr>)"
proof -
  obtain m where n: "n = length xs + Suc m" using assms(3) less_iff_Suc_add [of "length xs" n] by auto
  then have "take n (d_in d) = xs @ c # take m rest" using assms(1) by simp
  then show ?thesis
    using assms(1,2) by (simp add: d_read_until_def Let_def takeWhile_stops)
qed

lemma pop_if_snoc [simp]: "pop_if x (xs @ [x]) = xs"
  by (simp add: pop_if_def)

lemma pop_if_other: "xs = [] \<or> last xs \<noteq> x \<Longrightarrow> pop_if x xs = xs"
  by (auto simp: pop_if_def)

lemma read_line_Raw:
  assumes "d_in (chan t) = as_bytes (l @ e) @ rest" and "e = [LF] \<or> e = [CR, LF]"
    and "valid_utf8 (as_bytes l)" and "LF \<notin> set l" and "l = [] \<or> last l \<noteq> CR"
    and "length l + length e \<le> MAX_LINE_LENGTH"
  shows "read_line (Raw t) = (Ok l, Raw (with_chan t ((chan t)\<lparr>d_in := rest\<rparr>)))"
proof -
  have e: "as_bytes [LF] = [0x0A]" "as_bytes [CR, LF] = [0x0D, 0x0A]"
    by (simp_all add: as_bytes_def LF_def CR_def)
  have no: "(0x0A :: u8) \<notin> set (as_bytes l)" using assms(4) LF_byte by (simp add: LF_def)
  have cr: "as_bytes l = [] \<or> last (as_bytes l) \<noteq> 0x0D"
  proof (cases "l = []")
    case False
    have "last (as_bytes l) = of_nat (of_char (last l))" using False
      by (simp add: as_bytes_def last_map)
    moreover have "(of_nat (of_char (last l)) :: u8) = 0x0D \<Longrightarrow> last l = CR"
      using char_of_byte_of_char [of "last l"] by (simp add: CR_def char_of_line_ends)
    ultimately show ?thesis using False assms(5) by auto
  qed simp
  define b where "b = as_bytes l @ (if e = [LF] then [] else [0x0D])"
  have d: "d_in (chan t) = b @ 0x0A # rest" "(0x0A :: u8) \<notin> set b"
    "length b + 1 \<le> MAX_LINE_LENGTH" "pop_if 0x0D b = as_bytes l"
    using assms(1,2,6) e no pop_if_other [OF cr] by (auto simp: b_def CR_def LF_def)
  then have "on_chan (d_read_until (MAX_LINE_LENGTH + 1) 0x0A) t =
      (Ok (b @ [0x0A]), with_chan t ((chan t)\<lparr>d_in := rest\<rparr>))"
    by (simp add: on_chan_def d_read_until_line)
  with d(3,4) assms(3) show ?thesis
    by (simp add: on_raw_def raw_read_line_def try_act_def ok_act_def from_utf8_def)
qed

definition demo_duplex :: "string \<Rightarrow> duplex" where
  "demo_duplex inp =
     \<lparr>d_in = as_bytes inp, d_end = None, d_out = [], d_room = None,
      d_peer = Some (socket_addr_new (V4 (Ipv4Addr 192 0 2 7)) 40000)\<rparr>"

lemma trim_end_char_line:
  assumes "l = [] \<or> last l \<noteq> CR \<and> last l \<noteq> LF" and "e \<in> {[], [LF], [CR, LF]}"
  shows "trim_end_char CR (trim_end_char LF (l @ e)) = l"
proof (cases l rule: rev_cases)
  case Nil
  then show ?thesis using assms(2) by (auto simp: trim_end_char_def CR_def LF_def)
next
  case (snoc xs x)
  then have "x \<noteq> CR" "x \<noteq> LF" using assms(1) by auto
  moreover have "CR \<noteq> LF" by (simp add: CR_def LF_def)
  ultimately show ?thesis using assms(2) snoc by (elim insertE; simp add: trim_end_char_def)
qed

lemma pop_line:
  assumes "l = [] \<or> last l \<noteq> CR \<and> last l \<noteq> LF" and "e \<in> {[], [LF], [CR, LF]}"
  shows "pop_if CR (pop_if LF (l @ e)) = l"
proof -
  have "pop_if LF l = l" "pop_if CR l = l" using assms(1) by (auto simp: pop_if_def)
  moreover have "pop_if LF (l @ [CR, LF]) = l @ [CR]" using pop_if_snoc [of LF "l @ [CR]"] by simp
  ultimately show ?thesis using assms(2) by auto
qed

lemma read_line_message:
  assumes "list_all (\<lambda>m. ws_line m = None \<and> m \<noteq> Close) ctl" and "ws_line m = Some l"
    and "ws_in w = map Inr ctl @ Inr m # ms"
  shows "read_line (WebSocket w) = (Ok l, WebSocket (w\<lparr>ws_in := ms\<rparr>))"
proof -
  have "m \<noteq> Close" using assms(2) by (auto simp: ws_line_def)
  with assms(1,2) have "ws_read_line_from (map Inr ctl @ Inr m # ms) (ws_end w) = (Ok l, ms)"
    by (induction ctl) auto
  then show ?thesis using assms(3) by (simp add: on_ws_def ws_read_line_def)
qed



end
