(* ===== verification/Rmbt_Http.thy ===== *)
theory Rmbt_Http
  imports Rmbt_Stream
begin

text \<open>
  The plain HTTP answers of the server, and the version endpoint (\<open>src/src/version.rs\<close>).

  The locale \<open>http_answer\<close> is the contract of every answer after which the connection is
  closed: it has a status line, its header lines announce the close and the length of the body,
  and a reader of HTTP gets back exactly these lines and this body. It is interpreted for the
  version endpoint here, and for the address check and the refusals of the upgrade in their
  theories. The version and the branch are fixed at build time (parameters \<open>ver\<close>, \<open>branch\<close>).
\<close>

section \<open>Reading an answer\<close>

text \<open>A client: the lines up to the first empty one, then the body.\<close>

function http_read :: "string \<Rightarrow> (string list \<times> string) option" where
  "http_read s =
     (case split_once CRLF s of
        None \<Rightarrow> None
      | Some (l, rest) \<Rightarrow>
          if l = [] then Some ([], rest)
          else map_option (\<lambda>(ls, b). (l # ls, b)) (http_read rest))"
  by pat_completeness auto

termination
  by (relation "measure length") (auto simp: CRLF_def dest!: split_once_length)

declare http_read.simps [simp del]

definition line_ok :: "string \<Rightarrow> bool" where
  "line_ok l \<longleftrightarrow> l \<noteq> [] \<and> CHR 0x0A \<notin> set l"

definition http_text :: "string list \<Rightarrow> string \<Rightarrow> string" where
  "http_text ls b = concat (map (\<lambda>l. l @ CRLF) ls) @ CRLF @ b"

lemma split_once_CRLF: "CHR 0x0A \<notin> set l \<Longrightarrow> split_once CRLF (l @ CRLF @ r) = Some (l, r)"
  by (rule split_once_second [where c = "CHR 0x0D" and d = "CHR 0x0A" and q = "[]"])
    (simp_all add: CRLF_def)

lemma http_read_text: "list_all line_ok ls \<Longrightarrow> http_read (http_text ls b) = Some (ls, b)"
proof (induction ls)
  case Nil
  show ?case
    using split_once_CRLF [of "[]" b] by (simp add: http_read.simps [of "CRLF @ b"] http_text_def)
next
  case (Cons l ls)
  have "http_text (l # ls) b = l @ CRLF @ http_text ls b" by (simp add: http_text_def)
  with Cons split_once_CRLF [of l "http_text ls b"] show ?case
    by (simp add: http_read.simps [of "l @ CRLF @ http_text ls b"] line_ok_def)
qed

lemma split_str_head:
  assumes "CHR 0x0A \<notin> set l"
  shows "split_str CRLF (l @ CRLF @ CRLF) = [l, [], []]"
proof -
  have "split_once CRLF (l @ CRLF @ CRLF) = Some (l, CRLF)"
    by (rule split_once_CRLF [OF assms])
  moreover have "split_once CRLF CRLF = Some ([], [])" using split_once_CRLF [of "[]" "[]"] by simp
  moreover have "split_once CRLF [] = None" "CRLF \<noteq> []" by (simp_all add: CRLF_def)
  ultimately show ?thesis
    by (simp add: split_str.simps [of CRLF "l @ CRLF @ CRLF"] split_str.simps [of CRLF CRLF]
        split_str.simps [of CRLF "[]"])
qed

definition length_header :: "string \<Rightarrow> string" where
  "length_header b = ''Content-Length: '' @ nat_to_string (length b)"

lemma LF_not_in_number: "CHR 0x0A \<notin> set (nat_to_string n)"
  by (rule dec_u64.fmt_no_char) (simp add: ink_def)

lemma line_ok_length [simp]: "line_ok (length_header b)"
  by (simp add: line_ok_def length_header_def LF_not_in_number)

section \<open>The contract of an answer\<close>

locale http_answer =
  fixes render :: "'r \<Rightarrow> string"
    and status :: "'r \<Rightarrow> string"
    and headers :: "'r \<Rightarrow> string list"
    and body :: "'r \<Rightarrow> string"
    and valid :: "'r \<Rightarrow> bool"
  assumes render_eq: "render r = http_text ((''HTTP/1.1 '' @ status r) # headers r) (body r)"
    and closes: "''Connection: close'' \<in> set (headers r)"
    and announces: "length_header (body r) \<in> set (headers r)"
    and lines: "valid r \<Longrightarrow> list_all line_ok ((''HTTP/1.1 '' @ status r) # headers r)"
begin

text \<open>A client gets the status, the headers and the body back, whatever the body contains.\<close>

lemma framed:
  "valid r \<Longrightarrow>
     http_read (render r) = Some ((''HTTP/1.1 '' @ status r) # headers r, body r)"
  unfolding render_eq by (rule http_read_text) (rule lines)

text \<open>What the client reads says that the connection closes and how long the body is.\<close>

lemma read_back:
  assumes "valid r"
  obtains hs where "http_read (render r) = Some ((''HTTP/1.1 '' @ status r) # hs, body r)"
    "''Connection: close'' \<in> set hs" "length_header (body r) \<in> set hs"
  using framed [OF assms] closes announces by blast

end

section \<open>Requests\<close>

definition first_or_empty :: "string list \<Rightarrow> string" where
  "first_or_empty ws = (case ws of [] \<Rightarrow> [] | w # _ \<Rightarrow> w)"

definition request_method :: "string \<Rightarrow> string" where
  "request_method head =
     first_or_empty (split_char (CHR '' '') (first_or_empty (split_str CRLF head)))"

definition request_lines :: "string \<Rightarrow> string list" where
  "request_lines head = drop 1 (split_str CRLF head)"

section \<open>The version endpoint\<close>

definition version_matches :: "string \<Rightarrow> bool" where
  "version_matches target \<longleftrightarrow> target = ''/version'' \<or> starts_with ''/version?'' target"

definition version :: "string \<Rightarrow> string \<Rightarrow> string" where
  "version ver branch =
     (if branch = [] then ''v'' @ ver else ''v'' @ ver @ ''('' @ branch @ '')'')"

definition version_body :: "string \<Rightarrow> string \<Rightarrow> string" where
  "version_body ver branch =
     ''{'' @ [CHR 0x22] @ ''version'' @ [CHR 0x22] @ '':'' @ [CHR 0x22] @ version ver branch @
     [CHR 0x22] @ ''}''"

definition has_origin :: "string list \<Rightarrow> bool" where
  "has_origin = list_ex (\<lambda>l. case split_once '':'' l of
     None \<Rightarrow> False | Some (k, _) \<Rightarrow> eq_ignore_ascii_case (trim k) ''origin'')"

definition version_parts :: "string \<Rightarrow> string \<Rightarrow> string \<Rightarrow> string \<times> string \<times> string" where
  "version_parts ver branch head =
     (if request_method head = ''GET''
      then (''200 OK'', ''Content-Type: application/json'' @ CRLF, version_body ver branch)
      else (''405 Method Not Allowed'', ''Allow: GET'' @ CRLF, []))"

definition version_response :: "string \<Rightarrow> string \<Rightarrow> string \<Rightarrow> string \<Rightarrow> string" where
  "version_response ver branch head sts =
     (let cors = (if has_origin (request_lines head)
                  then ''Access-Control-Allow-Origin: *'' @ CRLF else []);
          (status, extra, body) = version_parts ver branch head
      in ''HTTP/1.1 '' @ status @ CRLF @ ''Connection: close'' @ CRLF @ sts @ cors @ extra @
         ''Content-Length: '' @ nat_to_string (length body) @ CRLF @ CRLF @ body)"

definition version_handle ::
    "string \<Rightarrow> string \<Rightarrow> string \<Rightarrow> string \<Rightarrow> (transport, string) act" where
  "version_handle ver branch head sts =
     try_act (t_write_all (as_bytes (version_response ver branch head sts))) (\<lambda>_.
     try_act transport_flush (\<lambda>_.
     ok_act (request_method head @ '' /version -> '' @ take 3 (fst (version_parts ver branch head)))))"

subsection \<open>It is an answer\<close>

definition hsts_lines :: "string \<Rightarrow> string list" where
  "hsts_lines sts = (if sts = [] then [] else [''Strict-Transport-Security: max-age=31536000''])"

text \<open>The HSTS line the caller passes is the constant or nothing.\<close>

definition hsts_ok :: "string \<Rightarrow> bool" where
  "hsts_ok sts \<longleftrightarrow> sts = HSTS_HEADER \<or> sts = []"

definition cors_lines :: "bool \<Rightarrow> string list" where
  "cors_lines origin = (if origin then [''Access-Control-Allow-Origin: *''] else [])"

lemma hsts_text: "hsts_ok sts \<Longrightarrow> sts = concat (map (\<lambda>l. l @ CRLF) (hsts_lines sts))"
  by (auto simp: hsts_ok_def hsts_lines_def HSTS_HEADER_def)

lemma line_ok_parts [simp]: "list_all line_ok (hsts_lines sts)" "list_all line_ok (cors_lines o')"
  by (auto simp: hsts_lines_def cors_lines_def line_ok_def)

definition version_headers :: "string \<Rightarrow> string \<Rightarrow> string \<Rightarrow> string \<Rightarrow> string list" where
  "version_headers ver branch head sts =
     ''Connection: close'' # hsts_lines sts @ cors_lines (has_origin (request_lines head)) @
     [if request_method head = ''GET'' then ''Content-Type: application/json'' else ''Allow: GET'',
      length_header (snd (snd (version_parts ver branch head)))]"

interpretation version_http: http_answer
  "\<lambda>(head, sts). version_response ver branch head (if sts then HSTS_HEADER else [])"
  "\<lambda>(head, sts). fst (version_parts ver branch head)"
  "\<lambda>(head, sts). version_headers ver branch head (if sts then HSTS_HEADER else [])"
  "\<lambda>(head, sts). snd (snd (version_parts ver branch head))" "\<lambda>_. True"
  for ver branch
proof (unfold_locales, goal_cases)
  case (1 r)
  obtain head sts where r: "r = (head, sts)" by fastforce
  define h where "h = (if sts then HSTS_HEADER else [])"
  have "hsts_ok h" by (simp add: hsts_ok_def h_def)
  from hsts_text [OF this] show ?case
    unfolding r prod.case h_def [symmetric]
    by (simp add: version_response_def version_headers_def version_parts_def http_text_def
        length_header_def cors_lines_def Let_def)
next
  case (2 r)
  show ?case by (cases r) (simp add: version_headers_def)
next
  case (3 r)
  show ?case by (cases r) (simp add: version_headers_def)
next
  case (4 r)
  show ?case
    by (cases r, cases "request_method (fst r) = ''GET''")
      (simp_all add: version_headers_def version_parts_def, simp_all add: line_ok_def)
qed

end
