(* ===== verification/Rmbt_Token.thy ===== *)
theory Rmbt_Token
  imports Rmbt_Config
begin

unbundle bit_operations_syntax

text \<open>
  Authentication tokens (\<open>src/src/protocol/token.rs\<close>): the v1 token (HMAC-SHA1 over UUID and
  start time), the v2 token (HMAC-SHA256 over the start time and over start time and source
  address), the acceptance window, and the token check of \<open>/ip\<close>.

  HMAC, SHA-1 and Base64 come from crates outside the repository; they are the record
  \<open>crypto\<close>, a parameter of every definition that uses them. \<open>crypto_laws\<close> states what
  their documentation promises. The wall clock (\<open>SystemTime::now\<close>) is the parameter \<open>wall\<close>:
  \<open>wall i\<close> is the reading of the \<open>i\<close>-th call of \<open>now_secs\<close> within one validation.
  Logging is left out, and with it the parameter \<open>conn_id\<close>, which is only logged; the same
  functions with their records are in \<open>Rmbt_Log\<close>.
\<close>

section \<open>Cryptography\<close>

record crypto =
  hmac_sha1_raw :: "bytes \<Rightarrow> bytes \<Rightarrow> bytes"
  hmac_sha256_raw :: "bytes \<Rightarrow> bytes \<Rightarrow> bytes"
  sha1_raw :: "bytes \<Rightarrow> bytes"
  b64_encode :: "bytes \<Rightarrow> string"
  b64_decode :: "string \<Rightarrow> bytes option"

text \<open>
  What the crates document: digests of fixed length, decoding inverts encoding, and the
  alphabet of standard Base64 has neither \<open>_\<close> nor \<open>#\<close>.
\<close>

definition crypto_laws :: "crypto \<Rightarrow> bool" where
  "crypto_laws C \<longleftrightarrow>
     (\<forall>k m. length (hmac_sha256_raw C k m) = 32) \<and>
     (\<forall>bs. b64_decode C (b64_encode C bs) = Some bs) \<and>
     (\<forall>bs. CHR ''_'' \<notin> set (b64_encode C bs) \<and> CHR ''#'' \<notin> set (b64_encode C bs))"

definition hmac_sha256 :: "crypto \<Rightarrow> bytes \<Rightarrow> bytes list \<Rightarrow> bytes" where
  "hmac_sha256 C key parts = hmac_sha256_raw C key (concat parts)"

definition hmac_sha1_b64 :: "crypto \<Rightarrow> bytes \<Rightarrow> bytes \<Rightarrow> string" where
  "hmac_sha1_b64 C key msg = b64_encode C (hmac_sha1_raw C key msg)"

definition hex :: "bytes \<Rightarrow> string" where
  "hex bs = concat (map hex_byte bs)"

section \<open>Results\<close>

datatype token_result =
    Accepted (sleep_secs: nat) (acc_label: string)
  | InvalidHmac
  | InvalidIp
  | TooEarly string
  | TooLate string
  | ParseError
  | V2Required

fun is_accepted :: "token_result \<Rightarrow> bool" where
  "is_accepted (Accepted _ _) = True"
| "is_accepted _ = False"

section \<open>The acceptance window\<close>

definition window_check :: "i64 \<Rightarrow> i64 \<Rightarrow> token_result + i64" where
  "window_check start_time now =
     (let seconds_early = start_time - now; seconds_late = now - start_time
      in if seconds_early > MAX_ACCEPT_EARLY then
           Inl (TooEarly (''token not valid yet: client is '' @ int_to_string seconds_early @
                          ''s early (max '' @ int_to_string MAX_ACCEPT_EARLY @ '')''))
         else if seconds_late > MAX_ACCEPT_LATE then
           Inl (TooLate (''token expired: client is '' @ int_to_string seconds_late @
                         ''s late (max '' @ int_to_string MAX_ACCEPT_LATE @ '')''))
         else Inr seconds_early)"

definition time_window :: "i64 \<Rightarrow> i64 \<Rightarrow> string \<Rightarrow> token_result" where
  "time_window start_time now label =
     (case window_check start_time now of
        Inl rejected \<Rightarrow> rejected
      | Inr seconds_early \<Rightarrow>
          Accepted (if seconds_early > 0 then nat seconds_early else 0) label)"

definition PERIOD :: i64 where
  "PERIOD = 2 ^ 32"

definition reconstruct_time :: "u32 \<Rightarrow> i64 \<Rightarrow> i64" where
  "reconstruct_time time_u32 now =
     (let t = (now AND NOT 0xFFFFFFFF) OR uint time_u32
      in if t - now > PERIOD div 2 then t - PERIOD
         else if now - t > PERIOD div 2 then t + PERIOD
         else t)"

section \<open>Version 1\<close>

definition match_v1 ::
    "crypto \<Rightarrow> string \<Rightarrow> secret_key list \<Rightarrow> token_result + string \<times> i64 \<times> secret_key" where
  "match_v1 C raw_token keys =
     (case splitn 3 (CHR ''_'') raw_token of
        [uuid, ts_str, hmac_b64] \<Rightarrow>
          if length uuid \<noteq> 36 \<or> ts_str = [] \<or> 12 < length ts_str then Inl ParseError
          else
            (case parse_i64 ts_str of
               None \<Rightarrow> Inl ParseError
             | Some start_time \<Rightarrow>
                 (let message = uuid @ ''_'' @ ts_str
                  in case find (\<lambda>k. hmac_sha1_b64 C (as_bytes (sk_key k)) (as_bytes message)
                                      = hmac_b64) keys of
                       Some key \<Rightarrow> Inr (uuid, start_time, key)
                     | None \<Rightarrow> Inl InvalidHmac))
      | _ \<Rightarrow> Inl ParseError)"

definition validate_v1 :: "crypto \<Rightarrow> string \<Rightarrow> secret_key list \<Rightarrow> i64 \<Rightarrow> token_result" where
  "validate_v1 C raw_token keys now =
     (case match_v1 C raw_token keys of
        Inr (_, start_time, key) \<Rightarrow> time_window start_time now (sk_label key)
      | Inl rejected \<Rightarrow> rejected)"

section \<open>Version 2\<close>

text \<open>The source address as IPv4-mapped IPv6, 16 bytes.\<close>

definition mapped_ipv6 :: "ip_addr \<Rightarrow> bytes" where
  "mapped_ipv6 ip =
     (case ip of
        V6 a \<Rightarrow> octets6 a
      | V4 a \<Rightarrow> take 12 ((replicate 16 0)[10 := 0xFF, 11 := 0xFF]) @ octets4 a)"

datatype v2_match = TimeMismatch | IpMismatch | MatchOk

definition match_v2 :: "crypto \<Rightarrow> bytes \<Rightarrow> secret_key \<Rightarrow> bytes \<Rightarrow> v2_match" where
  "match_v2 C bs key ip16 =
     (let time_bytes = take 4 bs; packet_hash = take 8 (drop 4 bs); ip_hash = take 4 (drop 12 bs);
          kb = as_bytes (sk_key key)
      in if take 8 (hmac_sha256 C kb [time_bytes]) \<noteq> packet_hash then TimeMismatch
         else if take 4 (hmac_sha256 C kb [time_bytes, ip16]) = ip_hash then MatchOk
         else IpMismatch)"

text \<open>The loop over the keys: it stops at the first key whose time HMAC matches.\<close>

fun match_keys_v2 ::
    "crypto \<Rightarrow> bytes \<Rightarrow> bytes \<Rightarrow> secret_key list \<Rightarrow> token_result + string" where
  "match_keys_v2 C bs ip16 [] = Inl InvalidHmac"
| "match_keys_v2 C bs ip16 (key # keys) =
     (case match_v2 C bs key ip16 of
        TimeMismatch \<Rightarrow> match_keys_v2 C bs ip16 keys
      | IpMismatch \<Rightarrow> Inl InvalidIp
      | MatchOk \<Rightarrow> Inr (sk_label key))"

definition from_be_bytes :: "bytes \<Rightarrow> u32" where
  "from_be_bytes bs = of_nat (foldl (\<lambda>acc b. acc * 256 + unat b) 0 bs)"

definition to_be_bytes :: "u32 \<Rightarrow> bytes" where
  "to_be_bytes w =
     [of_nat (unat w div 2 ^ 24), of_nat (unat w div 2 ^ 16 mod 256),
      of_nat (unat w div 2 ^ 8 mod 256), of_nat (unat w mod 256)]"

text \<open>The part of \<open>validate_v2\<close> that does not look at the clock.\<close>

definition authenticate_v2 ::
    "crypto \<Rightarrow> string \<Rightarrow> secret_key list \<Rightarrow> ip_addr option \<Rightarrow> token_result + u32 \<times> string" where
  "authenticate_v2 C raw keys source_ip =
     (case b64_decode C raw of
        None \<Rightarrow> Inl ParseError
      | Some bs \<Rightarrow>
          if length bs \<noteq> 16 then Inl ParseError
          else
            (case source_ip of
               None \<Rightarrow> Inl InvalidIp
             | Some ip \<Rightarrow>
                 (case match_keys_v2 C bs (mapped_ipv6 ip) keys of
                    Inl rejected \<Rightarrow> Inl rejected
                  | Inr label \<Rightarrow> Inr (from_be_bytes (take 4 bs), label))))"

definition validate_v2 ::
    "crypto \<Rightarrow> string \<Rightarrow> secret_key list \<Rightarrow> ip_addr option \<Rightarrow> (nat \<Rightarrow> i64) \<Rightarrow> token_result" where
  "validate_v2 C raw keys source_ip wall =
     (case authenticate_v2 C raw keys source_ip of
        Inl rejected \<Rightarrow> rejected
      | Inr (time_u32, label) \<Rightarrow>
          (let now = wall 0; start_time = reconstruct_time time_u32 now
           in time_window start_time (wall 1) label))"

section \<open>Version detection\<close>

definition V2_MARK :: string where
  "V2_MARK = ''#v2#''"

definition extract_v2 :: "string \<Rightarrow> string option" where
  "extract_v2 raw = map_option snd (split_once V2_MARK raw)"

definition validate_token ::
    "crypto \<Rightarrow> string \<Rightarrow> secret_key list \<Rightarrow> ip_addr option \<Rightarrow> bool \<Rightarrow> (nat \<Rightarrow> i64) \<Rightarrow> token_result" where
  "validate_token C raw_token keys source_ip only_v2 wall =
     (case extract_v2 raw_token of
        Some v2_b64 \<Rightarrow> validate_v2 C v2_b64 keys source_ip wall
      | None \<Rightarrow> if only_v2 then V2Required else validate_v1 C raw_token keys (wall 0))"

section \<open>The token check of the address endpoint\<close>

record ip_token =
  it_key :: secret_key
  open_test_uuid :: string
  matching_ip :: bool

definition check_ip_token ::
    "crypto \<Rightarrow> string \<Rightarrow> secret_key list \<Rightarrow> ip_addr \<Rightarrow> i64 \<Rightarrow> token_result + ip_token" where
  "check_ip_token C raw_token keys source_ip now =
     (let (v1, v2) = (case split_once (''_'' @ V2_MARK) raw_token of
                        Some (v1, v2) \<Rightarrow> (v1, Some v2)
                      | None \<Rightarrow> (raw_token, None))
      in case match_v1 C v1 keys of
           Inl rejected \<Rightarrow> Inl rejected
         | Inr (uuid, start_time, key) \<Rightarrow>
             (case window_check start_time now of
                Inl rejected \<Rightarrow> Inl rejected
              | Inr _ \<Rightarrow>
                  Inr \<lparr>it_key = key, open_test_uuid = uuid,
                       matching_ip =
                         (case v2 of
                            None \<Rightarrow> False
                          | Some b64 \<Rightarrow>
                              (case b64_decode C b64 of
                                 None \<Rightarrow> False
                               | Some bs \<Rightarrow>
                                   length bs = 16 \<and>
                                   match_v2 C bs key (mapped_ipv6 source_ip) = MatchOk))\<rparr>))"

section \<open>Issuing a token\<close>

text \<open>
  \<open>make_test_token\<close>: the combined token as the control server issues it, for \<open>key\<close>, the open
  test UUID, the start time and the client's address.
\<close>

definition make_v2_bytes :: "crypto \<Rightarrow> string \<Rightarrow> i64 \<Rightarrow> ip_addr \<Rightarrow> bytes" where
  "make_v2_bytes C key start ip =
     (let tb = to_be_bytes (of_int start); kb = as_bytes key
      in tb @ take 8 (hmac_sha256 C kb [tb]) @ take 4 (hmac_sha256 C kb [tb, mapped_ipv6 ip]))"

definition make_v1 :: "crypto \<Rightarrow> string \<Rightarrow> string \<Rightarrow> i64 \<Rightarrow> string" where
  "make_v1 C key uuid start =
     (let data = uuid @ ''_'' @ int_to_string start
      in data @ ''_'' @ hmac_sha1_b64 C (as_bytes key) (as_bytes data))"

definition make_test_token ::
    "crypto \<Rightarrow> string \<Rightarrow> string \<Rightarrow> i64 \<Rightarrow> ip_addr \<Rightarrow> string" where
  "make_test_token C key uuid start ip =
     make_v1 C key uuid start @ ''_#v2#'' @ b64_encode C (make_v2_bytes C key start ip)"

section \<open>What the hashes and the parts of a token are\<close>

text \<open>The two hashes of a decoded v2 token under a key.\<close>

definition time_hash_ok :: "crypto \<Rightarrow> bytes \<Rightarrow> secret_key \<Rightarrow> bool" where
  "time_hash_ok C bs k \<longleftrightarrow>
     take 8 (hmac_sha256 C (as_bytes (sk_key k)) [take 4 bs]) = take 8 (drop 4 bs)"

definition ip_hash_ok :: "crypto \<Rightarrow> bytes \<Rightarrow> secret_key \<Rightarrow> bytes \<Rightarrow> bool" where
  "ip_hash_ok C bs k ip16 \<longleftrightarrow>
     take 4 (hmac_sha256 C (as_bytes (sk_key k)) [take 4 bs, ip16]) = take 4 (drop 12 bs)"

text \<open>The two parts of a combined token, as \<open>check_ip_token\<close> cuts it.\<close>

definition v1_part :: "string \<Rightarrow> string" where
  "v1_part raw = (case split_once (''_'' @ V2_MARK) raw of Some (a, _) \<Rightarrow> a | None \<Rightarrow> raw)"

definition v2_part :: "string \<Rightarrow> string option" where
  "v2_part raw = map_option snd (split_once (''_'' @ V2_MARK) raw)"

text \<open>Authentication without the clock, of either version: the start time and the key's label.\<close>

definition v1_auth :: "crypto \<Rightarrow> secret_key list \<Rightarrow> string \<Rightarrow> token_result + i64 \<times> string" where
  "v1_auth C keys t = map_sum id (\<lambda>(_, st, k). (st, sk_label k)) (match_v1 C t keys)"

definition v2_auth ::
    "crypto \<Rightarrow> secret_key list \<Rightarrow> ip_addr option \<Rightarrow> i64 \<Rightarrow> string \<Rightarrow> token_result + i64 \<times> string" where
  "v2_auth C keys src now t =
     map_sum id (\<lambda>(w, l). (reconstruct_time w now, l)) (authenticate_v2 C t keys src)"

section \<open>The acceptance window and the reconstructed time\<close>

lemma high_bits_or_low:
  fixes n :: int
  assumes "0 \<le> m" and "m < 2 ^ 32"
  shows "(n AND NOT 0xFFFFFFFF) OR m = n - n mod 2 ^ 32 + m"
proof -
  have mask: "(0xFFFFFFFF :: int) = mask 32" by (simp add: mask_eq_exp_minus_1)
  have low: "m = take_bit 32 m" using assms by (simp add: take_bit_int_eq_self)
  have "(n AND NOT (mask 32)) AND take_bit 32 m = 0"
    by (rule bit_eqI) (auto simp: bit_simps)
  then have "(n AND NOT (mask 32)) OR take_bit 32 m = (n AND NOT (mask 32)) + take_bit 32 m"
    by (simp add: disjunctive_add_eq_or)
  moreover have "n AND NOT (mask 32) = push_bit 32 (drop_bit 32 n)"
    by (rule bit_eqI) (auto simp: bit_simps)
  moreover have "push_bit 32 (drop_bit 32 n) = n - n mod 2 ^ 32"
    by (simp add: push_bit_eq_mult drop_bit_eq_div minus_mod_eq_div_mult)
  ultimately show ?thesis using mask low by simp
qed

lemma reconstruct_time_cases:
  "reconstruct_time t now =
     (let b = now - now mod PERIOD + uint t
      in if b - now > PERIOD div 2 then b - PERIOD
         else if now - b > PERIOD div 2 then b + PERIOD else b)"
proof -
  have "uint t < 2 ^ 32" using uint_lt2p [of t] by simp
  then have "(now AND NOT 0xFFFFFFFF) OR uint t = now - now mod PERIOD + uint t"
    unfolding PERIOD_def by (intro high_bits_or_low) simp_all
  then show ?thesis by (simp add: reconstruct_time_def)
qed

lemma reconstruct_time_near:
  "\<bar>reconstruct_time t now - now\<bar> \<le> 2 ^ 31"
proof -
  define m u where "m = now mod PERIOD" and "u = uint t"
  have "0 \<le> m" "m < 4294967296" by (simp_all add: m_def PERIOD_def)
  moreover have "0 \<le> u" "u < 4294967296" using uint_lt2p [of t] by (simp_all add: u_def)
  ultimately show ?thesis
    unfolding reconstruct_time_cases Let_def m_def [symmetric] u_def [symmetric]
    by (simp add: PERIOD_def abs_le_iff)
qed

lemma reconstruct_time_cong:
  "reconstruct_time t now mod PERIOD = uint t"
proof -
  have u: "0 \<le> uint t" "uint t < PERIOD" using uint_lt2p [of t] by (simp_all add: PERIOD_def)
  obtain k where k: "reconstruct_time t now = now - now mod PERIOD + uint t + k * PERIOD"
  proof -
    have "\<exists>k. reconstruct_time t now = now - now mod PERIOD + uint t + k * PERIOD"
      by (auto simp: reconstruct_time_cases Let_def intro: exI [of _ "-1"] exI [of _ 1] exI [of _ 0])
    then show ?thesis using that by blast
  qed
  have "now - now mod PERIOD = PERIOD * (now div PERIOD)"
    by (rule minus_mod_eq_mult_div)
  with k have "reconstruct_time t now = PERIOD * (now div PERIOD) + uint t + k * PERIOD"
    by simp
  then have "reconstruct_time t now = uint t + PERIOD * (now div PERIOD + k)"
    by (simp only: distrib_left add_ac mult.commute)
  then show ?thesis using u by simp
qed

lemma reconstruct_time_unique:
  assumes "\<bar>s - now\<bar> < 2 ^ 31"
  shows "reconstruct_time (of_int s) now = s"
proof -
  let ?r = "reconstruct_time (of_int s) now"
  have "?r mod PERIOD = s mod PERIOD"
    unfolding reconstruct_time_cong by (simp add: PERIOD_def uint_word_of_int)
  then have "PERIOD dvd ?r - s" by (simp add: mod_eq_dvd_iff)
  then obtain k where "?r - s = PERIOD * k" by (elim dvdE)
  moreover have "\<bar>?r - s\<bar> < 2 ^ 32"
    using reconstruct_time_near [of "of_int s" now] assms by (simp add: abs_le_iff abs_less_iff)
  ultimately have "k = 0" by (simp add: PERIOD_def abs_mult)
  with \<open>?r - s = PERIOD * k\<close> show ?thesis by simp
qed
lemma window_check_Inr:
  "window_check start now = Inr e \<longleftrightarrow>
     e = start - now \<and> start - now \<le> MAX_ACCEPT_EARLY \<and> now - start \<le> MAX_ACCEPT_LATE"
  by (auto simp: window_check_def Let_def)

lemma window_check_Inl: "window_check start now = Inl r \<Longrightarrow> \<not> is_accepted r"
  by (auto simp: window_check_def Let_def split: if_splits)

lemma time_window_Accepted:
  "time_window start now label = Accepted s l \<longleftrightarrow>
     start - now \<le> MAX_ACCEPT_EARLY \<and> now - start \<le> MAX_ACCEPT_LATE \<and>
     s = nat (start - now) \<and> l = label"
  by (auto simp: time_window_def window_check_def Let_def)

lemma is_accepted_iff: "is_accepted r \<longleftrightarrow> (\<exists>s l. r = Accepted s l)"
  by (cases r) auto

section \<open>Matching a token with the keys\<close>

lemma match_v1_Inr:
  "match_v1 C raw keys = Inr (uuid, start, key) \<longleftrightarrow>
     (\<exists>ts mac. raw = uuid @ CHR ''_'' # ts @ CHR ''_'' # mac \<and>
        CHR ''_'' \<notin> set uuid \<and> CHR ''_'' \<notin> set ts \<and>
        length uuid = 36 \<and> ts \<noteq> [] \<and> length ts \<le> 12 \<and> parse_i64 ts = Some start \<and>
        find (\<lambda>k. hmac_sha1_b64 C (as_bytes (sk_key k)) (as_bytes (uuid @ CHR ''_'' # ts)) = mac)
          keys = Some key)"
  (is "?l = ?r")
proof
  assume ?l
  then obtain ts mac where sp: "splitn 3 (CHR ''_'') raw = [uuid, ts, mac]"
    by (auto simp: match_v1_def Let_def split: list.splits if_splits option.splits)
  then have "raw = uuid @ CHR ''_'' # ts @ CHR ''_'' # mac" "CHR ''_'' \<notin> set uuid"
    "CHR ''_'' \<notin> set ts" by (auto simp: splitn3)
  with \<open>?l\<close> sp show ?r
    by (intro exI [of _ ts] exI [of _ mac])
      (auto simp: match_v1_def Let_def split: if_splits option.splits)
next
  assume ?r
  then obtain ts mac where raw: "raw = uuid @ CHR ''_'' # ts @ CHR ''_'' # mac"
    "CHR ''_'' \<notin> set uuid" "CHR ''_'' \<notin> set ts"
    and rest: "length uuid = 36" "ts \<noteq> []" "length ts \<le> 12" "parse_i64 ts = Some start"
    "find (\<lambda>k. hmac_sha1_b64 C (as_bytes (sk_key k)) (as_bytes (uuid @ CHR ''_'' # ts)) = mac)
          keys = Some key" by blast
  then have "splitn 3 (CHR ''_'') raw = [uuid, ts, mac]" by (simp add: splitn3)
  with rest show ?l by (simp add: match_v1_def)
qed

lemma match_v1_Inl: "match_v1 C raw keys = Inl r \<Longrightarrow> r = ParseError \<or> r = InvalidHmac"
  by (auto simp: match_v1_def Let_def split: list.splits if_splits option.splits)

lemma match_v2_eq:
  "match_v2 C bs k ip16 =
     (if \<not> time_hash_ok C bs k then TimeMismatch
      else if ip_hash_ok C bs k ip16 then MatchOk else IpMismatch)"
  by (simp add: match_v2_def time_hash_ok_def ip_hash_ok_def Let_def)

lemma match_keys_v2_find:
  "match_keys_v2 C bs ip16 keys =
     (case find (time_hash_ok C bs) keys of
        None \<Rightarrow> Inl InvalidHmac
      | Some k \<Rightarrow> if ip_hash_ok C bs k ip16 then Inr (sk_label k) else Inl InvalidIp)"
  by (induction keys) (auto simp: match_v2_eq)

lemma length_mapped_ipv6 [simp]: "length (mapped_ipv6 ip) = 16"
  by (simp add: mapped_ipv6_def split: ip_addr.splits)

lemma mapped_ipv6_V4: "mapped_ipv6 (V4 a) = octets6 (to_ipv6_mapped a)"
proof (cases a)
  case (Ipv4Addr a b c d)
  have "be16 0 = [0, 0]" "be16 0xFFFF = [0xFF, 0xFF]" by (simp_all add: be16_def)
  then show ?thesis
    by (simp add: mapped_ipv6_def Ipv4Addr octets6_def eval_nat_numeral)
qed

lemma mapped_ipv6_V6: "mapped_ipv6 (V6 a) = octets6 a"
  by (simp add: mapped_ipv6_def)

lemma mapped_ipv6_canonical: "mapped_ipv6 (to_canonical ip) = mapped_ipv6 ip"
proof (cases ip)
  case (V6 a)
  then show ?thesis
    by (cases "to_ipv4_mapped a")
      (auto simp: mapped_ipv6_V4 mapped_ipv6_V6 dest: to_ipv4_mapped_Some)
qed simp

lemma mapped_ipv6_inject:
  "mapped_ipv6 x = mapped_ipv6 y \<longleftrightarrow> to_canonical x = to_canonical y"
proof
  define six where "six ip = (case ip of V4 a \<Rightarrow> to_ipv6_mapped a | V6 a \<Rightarrow> a)" for ip
  have six: "mapped_ipv6 ip = octets6 (six ip)" for ip
    by (cases ip) (simp_all add: six_def mapped_ipv6_V4 mapped_ipv6_V6)
  have canon: "to_canonical ip = to_canonical (V6 (six ip))" for ip
    by (cases ip) (simp_all add: six_def)
  assume "mapped_ipv6 x = mapped_ipv6 y"
  then have "six x = six y" by (simp add: six octets6_inject)
  then show "to_canonical x = to_canonical y" using canon by metis
next
  assume "to_canonical x = to_canonical y"
  then show "mapped_ipv6 x = mapped_ipv6 y" by (metis mapped_ipv6_canonical)
qed

lemma from_to_be_bytes [simp]: "from_be_bytes (to_be_bytes w) = w"
proof -
  define n where "n = unat w"
  define q1 q2 q3 where "q1 = n div 256" and "q2 = q1 div 256" and "q3 = q2 div 256"
  have n: "n < 2 ^ 32" using unsigned_less [of w] by (simp add: n_def)
  have q: "n div 2 ^ 8 = q1" "n div 2 ^ 16 = q2" "n div 2 ^ 24 = q3"
    by (simp_all add: q1_def q2_def q3_def flip: div_mult2_eq)
  have u: "unat (of_nat (k mod 256) :: u8) = k mod 256" for k
    by (simp add: unat_of_nat)
  have "q3 < 256" using n q by simp
  then have u0: "unat (of_nat q3 :: u8) = q3" by (simp add: unat_of_nat)
  have "((q3 * 256 + q2 mod 256) * 256 + q1 mod 256) * 256 + n mod 256 = n"
    by (simp only: q1_def q2_def q3_def div_mult_mod_eq)
  moreover have "to_be_bytes w =
      [of_nat q3, of_nat (q2 mod 256), of_nat (q1 mod 256), of_nat (n mod 256)]"
    unfolding to_be_bytes_def n_def [symmetric] q by (rule refl)
  ultimately show ?thesis by (simp add: from_be_bytes_def u u0 del: of_nat_add of_nat_mult)
      (simp add: n_def)
qed

lemma length_to_be_bytes [simp]: "length (to_be_bytes w) = 4"
  by (simp add: to_be_bytes_def)

lemma authenticate_v2_Inr:
  "authenticate_v2 C raw keys src = Inr (t, l) \<longleftrightarrow>
     (\<exists>bs ip k. b64_decode C raw = Some bs \<and> length bs = 16 \<and> src = Some ip \<and>
        find (time_hash_ok C bs) keys = Some k \<and> ip_hash_ok C bs k (mapped_ipv6 ip) \<and>
        t = from_be_bytes (take 4 bs) \<and> l = sk_label k)"
  by (auto simp: authenticate_v2_def match_keys_v2_find split: option.splits if_splits)

lemma authenticate_v2_Inl:
  "authenticate_v2 C raw keys src = Inl r \<Longrightarrow> r = ParseError \<or> r = InvalidHmac \<or> r = InvalidIp"
  by (auto simp: authenticate_v2_def match_keys_v2_find split: option.splits if_splits)

section \<open>Authenticate, then look at the clock\<close>

text \<open>
  Both versions first authenticate the token and then apply the same window; the locale states
  this contract and what follows from it for the caller.
\<close>

locale auth_then_window =
  fixes auth :: "'t \<Rightarrow> token_result + i64 \<times> string"
    and now :: i64
    and validate :: "'t \<Rightarrow> token_result"
  assumes validate_eq:
      "validate t = (case auth t of Inl r \<Rightarrow> r | Inr (st, l) \<Rightarrow> time_window st now l)"
    and auth_reject: "auth t = Inl r \<Longrightarrow> r = ParseError \<or> r = InvalidHmac \<or> r = InvalidIp"
begin

lemma accepted_iff:
  "validate t = Accepted s l \<longleftrightarrow>
     (\<exists>st. auth t = Inr (st, l) \<and> st - now \<le> MAX_ACCEPT_EARLY \<and> now - st \<le> MAX_ACCEPT_LATE \<and>
        s = nat (st - now))"
  by (auto simp: validate_eq time_window_Accepted split: sum.splits dest: auth_reject)

lemma sleep_bounded: "validate t = Accepted s l \<Longrightarrow> int s \<le> MAX_ACCEPT_EARLY"
  by (auto simp: accepted_iff MAX_ACCEPT_EARLY_def)

text \<open>A rejection for the time is only ever given to an authentic token.\<close>

lemma time_reject_authentic:
  "validate t = TooEarly m \<or> validate t = TooLate m \<Longrightarrow> \<exists>st l. auth t = Inr (st, l)"
  by (auto simp: validate_eq split: sum.splits dest: auth_reject)

lemma not_v2_required: "validate t \<noteq> V2Required"
  by (auto simp: validate_eq time_window_def window_check_def Let_def
      split: sum.splits if_splits dest: auth_reject)

end

interpretation v1: auth_then_window "v1_auth C keys" now "\<lambda>t. validate_v1 C t keys now"
  for C keys now
  by unfold_locales
    (auto simp: validate_v1_def v1_auth_def split: sum.splits dest: match_v1_Inl)

interpretation v2: auth_then_window "v2_auth C keys src (wall 0)" "wall (Suc 0)"
    "\<lambda>t. validate_v2 C t keys src wall"
  for C keys src wall
  by unfold_locales
    (auto simp: validate_v2_def v2_auth_def Let_def split: sum.splits dest: authenticate_v2_Inl)

lemma validate_token_sleep:
  "validate_token C t keys src v2o wall = Accepted secs l \<Longrightarrow> int secs \<le> MAX_ACCEPT_EARLY"
  by (auto simp: validate_token_def split: option.splits if_splits
      dest: v1.sleep_bounded v2.sleep_bounded)

section \<open>Issued tokens\<close>

lemma length_make_v2_bytes [simp]: "crypto_laws C \<Longrightarrow> length (make_v2_bytes C key start ip) = 16"
  by (simp add: make_v2_bytes_def Let_def hmac_sha256_def crypto_laws_def)

lemma make_v2_bytes_parts:
  assumes "crypto_laws C"
  shows "take 4 (make_v2_bytes C key start ip) = to_be_bytes (of_int start)"
    and "take 8 (drop 4 (make_v2_bytes C key start ip)) =
           take 8 (hmac_sha256 C (as_bytes key) [to_be_bytes (of_int start)])"
    and "take 4 (drop 12 (make_v2_bytes C key start ip)) =
           take 4 (hmac_sha256 C (as_bytes key) [to_be_bytes (of_int start), mapped_ipv6 ip])"
  using assms by (simp_all add: make_v2_bytes_def Let_def hmac_sha256_def crypto_laws_def)

lemma extract_v2_make:
  assumes "crypto_laws C" and "CHR ''#'' \<notin> set uuid"
  shows "extract_v2 (make_test_token C key uuid start ip) =
           Some (b64_encode C (make_v2_bytes C key start ip))"
proof -
  let ?b = "b64_encode C (make_v2_bytes C key start ip)"
  let ?a = "make_v1 C key uuid start @ ''_''"
  have "CHR ''#'' \<notin> set ?a"
    using assms int_to_string_no_special
    by (auto simp: make_v1_def Let_def hmac_sha1_b64_def crypto_laws_def)
  then have "split_once V2_MARK (?a @ V2_MARK @ ?b) = Some (?a, ?b)"
    by (intro split_once_first [where c = "CHR ''#''"]) (simp_all add: V2_MARK_def)
  then show ?thesis by (simp add: extract_v2_def make_test_token_def V2_MARK_def)
qed

lemma validate_token_issued:
  assumes "crypto_laws C" and "CHR ''#'' \<notin> set uuid"
    and "find (time_hash_ok C (make_v2_bytes C (sk_key k) start ip)) keys = Some k"
  shows "validate_token C (make_test_token C (sk_key k) uuid start ip) keys (Some ip') v2o wall =
     (if ip_hash_ok C (make_v2_bytes C (sk_key k) start ip) k (mapped_ipv6 ip')
      then time_window (reconstruct_time (of_int start) (wall 0)) (wall 1) (sk_label k)
      else InvalidIp)"
proof -
  have b: "b64_decode C (b64_encode C bs) = Some bs" for bs
    using assms(1) by (simp add: crypto_laws_def)
  show ?thesis
    using assms extract_v2_make [of C uuid "sk_key k" start ip]
    by (simp add: validate_token_def validate_v2_def authenticate_v2_def b match_keys_v2_find
        make_v2_bytes_parts)
qed

lemma parse_i64_to_string:
  "- (2 ^ 63) \<le> i \<Longrightarrow> i < 2 ^ 63 \<Longrightarrow> parse_i64 (int_to_string i) = Some i"
  using dec_i64.parse_fmt by simp

lemma match_v1_issued:
  assumes "length uuid = 36" and "CHR ''_'' \<notin> set uuid" and "\<bar>start\<bar> < 2 ^ 63"
    and "length (int_to_string start) \<le> 12"
    and "find (\<lambda>j. make_v1 C (sk_key j) uuid start = make_v1 C (sk_key k) uuid start) keys = Some k"
  shows "match_v1 C (make_v1 C (sk_key k) uuid start) keys = Inr (uuid, start, k)"
proof -
  let ?ts = "int_to_string start"
  let ?mac = "\<lambda>j. hmac_sha1_b64 C (as_bytes (sk_key j)) (as_bytes (uuid @ CHR ''_'' # ?ts))"
  have raw: "make_v1 C (sk_key j) uuid start = uuid @ CHR ''_'' # ?ts @ CHR ''_'' # ?mac j" for j
    by (simp add: make_v1_def Let_def)
  have "find (\<lambda>j. ?mac j = ?mac k) keys = Some k" using assms(5) by (simp add: raw)
  moreover have "parse_i64 ?ts = Some start" using assms(3) by (intro parse_i64_to_string) auto
  ultimately show ?thesis
    unfolding match_v1_Inr raw using assms(1,2,4) int_to_string_no_special(1) [of start]
    by (intro exI [of _ ?ts] exI [of _ "?mac k"]) auto
qed

lemma split_issued:
  assumes "crypto_laws C" and "CHR ''#'' \<notin> set uuid"
  shows "split_once (''_'' @ V2_MARK) (make_test_token C key uuid start ip) =
           Some (make_v1 C key uuid start, b64_encode C (make_v2_bytes C key start ip))"
proof -
  have "CHR ''#'' \<notin> set (make_v1 C key uuid start)"
    using assms int_to_string_no_special
    by (auto simp: make_v1_def Let_def hmac_sha1_b64_def crypto_laws_def)
  moreover have "''_'' @ V2_MARK = CHR ''_'' # CHR ''#'' # ''v2#''" by (simp add: V2_MARK_def)
  ultimately have "split_once (''_'' @ V2_MARK)
      (make_v1 C key uuid start @ (''_'' @ V2_MARK) @ b64_encode C (make_v2_bytes C key start ip)) =
      Some (make_v1 C key uuid start, b64_encode C (make_v2_bytes C key start ip))"
    by (intro split_once_second) auto
  then show ?thesis by (simp add: make_test_token_def V2_MARK_def)
qed

lemma check_ip_token_issued:
  assumes "crypto_laws C" and "length uuid = 36"
    and "CHR ''_'' \<notin> set uuid" and "CHR ''#'' \<notin> set uuid"
    and "\<bar>start\<bar> < 2 ^ 63" and "length (int_to_string start) \<le> 12"
    and "find (\<lambda>j. make_v1 C (sk_key j) uuid start = make_v1 C (sk_key k) uuid start) keys = Some k"
    and "start - now \<le> 20" and "now - start \<le> 90"
  shows "check_ip_token C (make_test_token C (sk_key k) uuid start ip) keys ip' now =
           Inr \<lparr>it_key = k, open_test_uuid = uuid,
                matching_ip = ip_hash_ok C (make_v2_bytes C (sk_key k) start ip) k (mapped_ipv6 ip')\<rparr>"
proof -
  have "window_check start now = Inr (start - now)"
    using assms(8,9) by (simp add: window_check_Inr MAX_ACCEPT_EARLY_def MAX_ACCEPT_LATE_def)
  moreover have "b64_decode C (b64_encode C bs) = Some bs" for bs
    using assms(1) by (simp add: crypto_laws_def)
  moreover have "time_hash_ok C (make_v2_bytes C (sk_key k) start ip) k"
    unfolding time_hash_ok_def make_v2_bytes_parts [OF assms(1)] by simp
  ultimately show ?thesis
    using split_issued [OF assms(1,4)] match_v1_issued [OF assms(2,3,5,6,7)] assms(1)
    by (simp add: check_ip_token_def match_v2_eq)
qed

lemma time_hash_ok_make:
  "crypto_laws C \<Longrightarrow> time_hash_ok C (make_v2_bytes C (sk_key k) start ip) k"
  unfolding time_hash_ok_def make_v2_bytes_parts by simp

section \<open>A concrete instance of the cryptographic parameter\<close>

text \<open>
  Functions that satisfy \<open>crypto_laws\<close>, for evaluating the theorems below at concrete inputs.
\<close>

definition demo_enc :: "bytes \<Rightarrow> string" where
  "demo_enc bs = concat (map (\<lambda>b. [char_of (65 + unat b div 16), char_of (65 + unat b mod 16)]) bs)"

fun demo_dec :: "string \<Rightarrow> bytes option" where
  "demo_dec [] = Some []"
| "demo_dec [c] = None"
| "demo_dec (c # d # s) =
     map_option (\<lambda>bs. of_nat ((of_char c - 65) * 16 + (of_char d - 65)) # bs) (demo_dec s)"

definition demo_crypto :: crypto where
  "demo_crypto =
     \<lparr>hmac_sha1_raw = (\<lambda>k m. k @ m),
      hmac_sha256_raw = (\<lambda>k m. take 32 (rev m @ k @ replicate 32 0)),
      sha1_raw = (\<lambda>m. m), b64_encode = demo_enc, b64_decode = demo_dec\<rparr>"

lemma demo_dec_enc: "demo_dec (demo_enc bs) = Some bs"
proof (induction bs)
  case (Cons b bs)
  have "unat b div 16 < 16" using unat_u8_less [of b] by simp
  then have "(of_char (char_of (65 + unat b div 16) :: char) :: nat) = 65 + unat b div 16"
    "(of_char (char_of (65 + unat b mod 16) :: char) :: nat) = 65 + unat b mod 16"
    by (simp_all add: of_char_of)
  moreover have "of_nat (unat b div 16 * 16 + unat b mod 16) = b"
    by (simp only: div_mult_mod_eq) simp
  ultimately show ?case using Cons by (simp add: demo_enc_def del: of_nat_add of_nat_mult)
qed (simp add: demo_enc_def)

lemma demo_enc_alphabet: "CHR ''_'' \<notin> set (demo_enc bs) \<and> CHR ''#'' \<notin> set (demo_enc bs)"
proof -
  have "c \<in> set (demo_enc bs) \<Longrightarrow> 65 \<le> (of_char c :: nat) \<and> of_char c < (81 :: nat)" for c
  proof (induction bs)
    case (Cons b bs)
    have "unat b div 16 < 16" using unat_u8_less [of b] by simp
    with Cons show ?case by (auto simp: demo_enc_def of_char_of)
  qed (simp add: demo_enc_def)
  then show ?thesis by fastforce
qed

lemma demo_crypto_laws: "crypto_laws demo_crypto"
  by (auto simp: crypto_laws_def demo_crypto_def demo_dec_enc demo_enc_alphabet min_def)

definition demo_key :: secret_key where
  "demo_key = \<lparr>sk_key = ''topsecret'', sk_label = ''production''\<rparr>"

definition demo_uuid :: string where
  "demo_uuid = ''8723358c-2037-4029-a70c-91e5d9d35cf3''"

lemma demo_uuid_ok:
  "length demo_uuid = 36" "CHR ''_'' \<notin> set demo_uuid" "CHR ''#'' \<notin> set demo_uuid"
  by (simp_all add: demo_uuid_def)

lemma find_SomeD: "find P xs = Some x \<Longrightarrow> x \<in> set xs \<and> P x"
  by (induction xs) (auto split: if_splits)

lemma check_ip_token_key:
  assumes "check_ip_token C t keys ip now = Inr checked"
  shows "it_key checked \<in> set keys \<and>
     (\<exists>ts start. v1_part t = open_test_uuid checked @ CHR ''_'' # ts @ CHR ''_'' # hmac_sha1_b64 C
          (as_bytes (sk_key (it_key checked))) (as_bytes (open_test_uuid checked @ CHR ''_'' # ts)) \<and>
        parse_i64 ts = Some start \<and> start - now \<le> 20 \<and> now - start \<le> 90)"
proof -
  obtain uuid start key e where m: "match_v1 C (v1_part t) keys = Inr (uuid, start, key)"
    and w: "window_check start now = Inr e"
    and k: "it_key checked = key" "open_test_uuid checked = uuid"
  proof (cases "match_v1 C (v1_part t) keys")
    case (Inl r)
    with assms show ?thesis
      by (cases "split_once (''_'' @ V2_MARK) t") (auto simp: check_ip_token_def v1_part_def)
  next
    case (Inr a)
    obtain uuid start key where a: "a = (uuid, start, key)" by (cases a)
    have "(\<exists>e. window_check start now = Inr e) \<and> it_key checked = key \<and> open_test_uuid checked = uuid"
      using assms Inr a
      by (cases "split_once (''_'' @ V2_MARK) t"; cases "window_check start now")
        (auto simp: check_ip_token_def v1_part_def)
    with that Inr a show ?thesis by blast
  qed
  from m [unfolded match_v1_Inr] obtain ts mac where raw: "v1_part t = uuid @ CHR ''_'' # ts @ CHR ''_'' # mac"
    and ts: "parse_i64 ts = Some start"
    and f: "find (\<lambda>k. hmac_sha1_b64 C (as_bytes (sk_key k)) (as_bytes (uuid @ CHR ''_'' # ts)) = mac) keys = Some key"
    by blast
  from find_SomeD [OF f] raw ts k w show ?thesis
    by (auto simp: window_check_Inr MAX_ACCEPT_EARLY_def MAX_ACCEPT_LATE_def simp del: as_bytes_append)
qed

section \<open>Properties\<close>

text \<open>
  C11: a v1 token is accepted exactly when it has three fields, a 36-byte UUID and a
  timestamp of 1 to 12 bytes that parses, its HMAC-SHA1 over \<open>UUID_TIMESTAMP\<close> matches a loaded
  key, and the start time is at most 20 s ahead and 90 s behind the clock; the label is that of
  the first matching key and the server sleeps until the start time.
\<close>

theorem validate_v1_accepts:
  "validate_v1 C raw keys now = Accepted s l \<longleftrightarrow>
     (\<exists>uuid ts mac start key.
        raw = uuid @ CHR ''_'' # ts @ CHR ''_'' # mac \<and>
        CHR ''_'' \<notin> set uuid \<and> CHR ''_'' \<notin> set ts \<and>
        length uuid = 36 \<and> ts \<noteq> [] \<and> length ts \<le> 12 \<and> parse_i64 ts = Some start \<and>
        find (\<lambda>k. hmac_sha1_b64 C (as_bytes (sk_key k)) (as_bytes (uuid @ CHR ''_'' # ts)) = mac)
          keys = Some key \<and>
        start - now \<le> 20 \<and> now - start \<le> 90 \<and> s = nat (start - now) \<and> l = sk_label key)"
proof -
  have "validate_v1 C raw keys now = Accepted s l \<longleftrightarrow>
      (\<exists>uuid start key. match_v1 C raw keys = Inr (uuid, start, key) \<and> l = sk_label key \<and>
         start - now \<le> 20 \<and> now - start \<le> 90 \<and> s = nat (start - now))"
    by (auto simp: v1.accepted_iff v1_auth_def MAX_ACCEPT_EARLY_def MAX_ACCEPT_LATE_def)
  then show ?thesis unfolding match_v1_Inr by blast
qed

text \<open>
  C7: a v2 token is accepted exactly when it decodes to 16 bytes, the source address is
  known, the first key whose time hash matches also matches the address hash for the connecting
  address, and the reconstructed start time lies in the window.
\<close>

theorem validate_v2_accepts:
  "validate_v2 C raw keys src wall = Accepted s l \<longleftrightarrow>
     (\<exists>bs ip key start. b64_decode C raw = Some bs \<and> length bs = 16 \<and> src = Some ip \<and>
        find (time_hash_ok C bs) keys = Some key \<and> ip_hash_ok C bs key (mapped_ipv6 ip) \<and>
        start = reconstruct_time (from_be_bytes (take 4 bs)) (wall 0) \<and>
        start - wall 1 \<le> 20 \<and> wall 1 - start \<le> 90 \<and>
        s = nat (start - wall 1) \<and> l = sk_label key)"
proof -
  have "validate_v2 C raw keys src wall = Accepted s l \<longleftrightarrow>
      (\<exists>w. authenticate_v2 C raw keys src = Inr (w, l) \<and>
         reconstruct_time w (wall 0) - wall 1 \<le> 20 \<and> wall 1 - reconstruct_time w (wall 0) \<le> 90 \<and>
         s = nat (reconstruct_time w (wall 0) - wall 1))"
    by (auto simp: v2.accepted_iff v2_auth_def MAX_ACCEPT_EARLY_def MAX_ACCEPT_LATE_def)
  then show ?thesis unfolding authenticate_v2_Inr by auto
qed

text \<open>
  C34: the combined token that the control server issues for an address is accepted from
  that address (also when it is seen as an IPv4-mapped IPv6 address), with and without
  \<open>--v2-only\<close>, anywhere in the window, and the server sleeps until the start time.
\<close>

theorem issued_token_accepted:
  assumes "crypto_laws C" and "CHR ''#'' \<notin> set uuid"
    and "find (time_hash_ok C (make_v2_bytes C (sk_key k) start ip)) keys = Some k"
    and "to_canonical ip' = to_canonical ip"
    and "\<bar>start - wall 0\<bar> < 2 ^ 31"
    and "start - wall 1 \<le> 20" and "wall 1 - start \<le> 90"
  shows "validate_token C (make_test_token C (sk_key k) uuid start ip) keys (Some ip') v2o wall =
           Accepted (nat (start - wall 1)) (sk_label k)"
proof -
  have "mapped_ipv6 ip' = mapped_ipv6 ip" using assms(4) by (simp add: mapped_ipv6_inject)
  then have "ip_hash_ok C (make_v2_bytes C (sk_key k) start ip) k (mapped_ipv6 ip')"
    unfolding ip_hash_ok_def make_v2_bytes_parts [OF assms(1)] by simp
  moreover have "time_window start (wall 1) (sk_label k) =
      Accepted (nat (start - wall 1)) (sk_label k)"
    using assms(6,7) by (simp add: time_window_Accepted MAX_ACCEPT_EARLY_def MAX_ACCEPT_LATE_def)
  ultimately show ?thesis
    using validate_token_issued [where wall = wall, OF assms(1-3)] assms(5)
    by (simp add: reconstruct_time_unique)
qed

theorem issued_token_accepted_witness:
  "validate_token demo_crypto
     (make_test_token demo_crypto (sk_key demo_key) demo_uuid 1700000007 (V4 (Ipv4Addr 62 1 2 3)))
     [demo_key] (Some (V6 (Ipv6Addr 0 0 0 0 0 0xFFFF 0x3E01 0x0203))) True (\<lambda>i. 1700000000 + int i)
   = Accepted 6 ''production''"
  using issued_token_accepted [of demo_crypto demo_uuid demo_key 1700000007 "V4 (Ipv4Addr 62 1 2 3)"
      "[demo_key]" "V6 (Ipv6Addr 0 0 0 0 0 0xFFFF 0x3E01 0x0203)" "\<lambda>i. 1700000000 + int i" True]
    demo_crypto_laws demo_uuid_ok time_hash_ok_make [OF demo_crypto_laws]
  by (simp, simp add: demo_key_def)

text \<open>
  C35: the same token presented from an address with another address hash is refused with
  \<open>InvalidIp\<close>, whatever the clock says.
\<close>

theorem issued_token_bound_to_address:
  assumes "crypto_laws C" and "CHR ''#'' \<notin> set uuid"
    and "find (time_hash_ok C (make_v2_bytes C (sk_key k) start ip)) keys = Some k"
    and "take 4 (hmac_sha256 C (as_bytes (sk_key k)) [to_be_bytes (of_int start), mapped_ipv6 ip'])
       \<noteq> take 4 (hmac_sha256 C (as_bytes (sk_key k)) [to_be_bytes (of_int start), mapped_ipv6 ip])"
  shows "validate_token C (make_test_token C (sk_key k) uuid start ip) keys (Some ip') v2o wall =
           InvalidIp"
proof -
  have "\<not> ip_hash_ok C (make_v2_bytes C (sk_key k) start ip) k (mapped_ipv6 ip')"
    using assms(4) unfolding ip_hash_ok_def make_v2_bytes_parts [OF assms(1)] by simp
  then show ?thesis using validate_token_issued [where wall = wall, OF assms(1-3)] by simp
qed

theorem issued_token_bound_to_address_witness:
  "validate_token demo_crypto
     (make_test_token demo_crypto (sk_key demo_key) demo_uuid 1700000007 (V4 (Ipv4Addr 62 1 2 3)))
     [demo_key] (Some (V4 (Ipv4Addr 9 9 9 9))) False (\<lambda>i. 1700000000)
   = InvalidIp"
proof -
  have "take 4 (hmac_sha256 demo_crypto (as_bytes (sk_key demo_key))
        [to_be_bytes (of_int 1700000007), mapped_ipv6 (V4 (Ipv4Addr 9 9 9 9))])
      \<noteq> take 4 (hmac_sha256 demo_crypto (as_bytes (sk_key demo_key))
        [to_be_bytes (of_int 1700000007), mapped_ipv6 (V4 (Ipv4Addr 62 1 2 3))])"
    by (simp add: hmac_sha256_def demo_crypto_def mapped_ipv6_def)
  then show ?thesis
    using issued_token_bound_to_address [of demo_crypto demo_uuid demo_key 1700000007
        "V4 (Ipv4Addr 62 1 2 3)" "[demo_key]" "V4 (Ipv4Addr 9 9 9 9)" False "\<lambda>i. 1700000000"]
      demo_crypto_laws demo_uuid_ok time_hash_ok_make [OF demo_crypto_laws] by simp
qed

text \<open>
  The \<open>/ip\<close> check accepts an issued token in the window from any address, identifies
  the issuing key and the UUID, and reports whether the address hash fits the connecting address.
\<close>

theorem issued_token_ip_check:
  assumes "crypto_laws C" and "length uuid = 36"
    and "CHR ''_'' \<notin> set uuid" and "CHR ''#'' \<notin> set uuid"
    and "\<bar>start\<bar> < 2 ^ 63" and "length (int_to_string start) \<le> 12"
    and "find (\<lambda>j. make_v1 C (sk_key j) uuid start = make_v1 C (sk_key k) uuid start) keys = Some k"
    and "start - now \<le> 20" and "now - start \<le> 90"
  shows "check_ip_token C (make_test_token C (sk_key k) uuid start ip) keys ip' now =
           Inr \<lparr>it_key = k, open_test_uuid = uuid,
                matching_ip = ip_hash_ok C (make_v2_bytes C (sk_key k) start ip) k (mapped_ipv6 ip')\<rparr>"
  by (rule check_ip_token_issued [OF assms])

theorem issued_token_ip_check_witness:
  "check_ip_token demo_crypto
     (make_test_token demo_crypto (sk_key demo_key) demo_uuid 1700000007 (V4 (Ipv4Addr 62 1 2 3)))
     [demo_key] (V4 (Ipv4Addr 9 9 9 9)) 1700000080 =
   Inr \<lparr>it_key = demo_key, open_test_uuid = demo_uuid, matching_ip = False\<rparr>"
proof -
  have "length (int_to_string 1700000007) \<le> 12"
    by (simp add: int_to_string_def nat_to_string.simps)
  moreover have "\<not> ip_hash_ok demo_crypto
      (make_v2_bytes demo_crypto (sk_key demo_key) 1700000007 (V4 (Ipv4Addr 62 1 2 3))) demo_key
      (mapped_ipv6 (V4 (Ipv4Addr 9 9 9 9)))"
    unfolding ip_hash_ok_def make_v2_bytes_parts [OF demo_crypto_laws]
    by (simp add: hmac_sha256_def demo_crypto_def mapped_ipv6_def)
  ultimately show ?thesis
    using issued_token_ip_check [of demo_crypto demo_uuid 1700000007 demo_key "[demo_key]"
        1700000080 "V4 (Ipv4Addr 62 1 2 3)" "V4 (Ipv4Addr 9 9 9 9)"]
      demo_crypto_laws demo_uuid_ok by simp
qed

text \<open>
  The \<open>/ip\<close> check agrees with the speed test on the v1 part: it refuses a token with
  exactly the result the speed test gives, and otherwise the speed test accepts it with the label
  of the signing key, which is one of the loaded keys; \<open>matching_ip\<close> holds exactly when the v2
  part authenticates under that key for the connecting address.
\<close>

theorem check_ip_token_agrees:
  "case check_ip_token C raw keys ip now of
     Inl r \<Rightarrow> validate_v1 C (v1_part raw) keys now = r \<and> \<not> is_accepted r
   | Inr t \<Rightarrow>
       (\<exists>s. validate_v1 C (v1_part raw) keys now = Accepted s (sk_label (it_key t))) \<and>
       it_key t \<in> set keys \<and>
       matching_ip t = (case v2_part raw of
          None \<Rightarrow> False
        | Some b64 \<Rightarrow> isl (authenticate_v2 C b64 [it_key t] (Some ip)) = False)"
proof (cases "match_v1 C (v1_part raw) keys")
  case (Inl r)
  then have "check_ip_token C raw keys ip now = Inl r"
    by (auto simp: check_ip_token_def v1_part_def split: option.splits)
  moreover have "\<not> is_accepted r" using match_v1_Inl [OF Inl] by auto
  ultimately show ?thesis using Inl by (simp add: validate_v1_def)
next
  case (Inr m)
  obtain uuid start key where m: "m = (uuid, start, key)" by (cases m)
  have key: "key \<in> set keys" using Inr m by (auto simp: match_v1_Inr find_Some_iff)
  show ?thesis
  proof (cases "window_check start now")
    case (Inl r)
    with Inr m have "check_ip_token C raw keys ip now = Inl r"
      by (auto simp: check_ip_token_def v1_part_def split: option.splits)
    with Inr m Inl show ?thesis
      by (simp add: validate_v1_def time_window_def window_check_Inl)
  next
    case (Inr e)
    with \<open>match_v1 C (v1_part raw) keys = Inr m\<close> m key show ?thesis
      by (auto simp: check_ip_token_def v1_part_def v2_part_def validate_v1_def time_window_def
          authenticate_v2_def match_v2_eq split: option.splits if_splits)
  qed
qed

text \<open>
  With \<open>--v2-only\<close> a token without the \<open>#v2#\<close> marker is refused as \<open>V2Required\<close>, and
  any other token is treated as without the option.
\<close>

theorem v2_only_needs_v2:
  "validate_token C raw keys src True wall =
     (if contains V2_MARK raw then validate_token C raw keys src False wall else V2Required)"
  by (auto simp: validate_token_def extract_v2_def contains_def split: option.splits)

text \<open>
  C36: the start time reconstructed from 32 bits is congruent to them modulo 2^32 and at most
  2^31 seconds away from the clock, so a start time less than 2^31 seconds away is recovered.
\<close>

theorem reconstruct_time_nearest:
  "reconstruct_time t now mod 2 ^ 32 = uint t \<and> \<bar>reconstruct_time t now - now\<bar> \<le> 2 ^ 31 \<and>
   (\<bar>s - now\<bar> < 2 ^ 31 \<longrightarrow> reconstruct_time (of_int s) now = s)"
  using reconstruct_time_cong [of t now] reconstruct_time_near [of t now]
    reconstruct_time_unique [of s now] by (auto simp: PERIOD_def)

theorem reconstruct_time_nearest_witness:
  "reconstruct_time (of_int 4294967300) 4294967290 = 4294967300"
  using reconstruct_time_nearest [of 0 4294967290 4294967300] by simp

end
