(* ===== verification/Rmbt_Ip_Check.thy ===== *)
theory Rmbt_Ip_Check
  imports Rmbt_Http Rmbt_Token
begin

text \<open>
  The address check, \<open>POST /ip\<close> (\<open>src/src/ip_check.rs\<close>): the NAT classification, the request
  and its JSON body, the signed answer.

  JSON parsing and printing belong to the crate \<open>serde_json\<close>: the record \<open>serde\<close> holds the
  parser of the request body and the text of a value. An object is the list of its members. The
  address is the one the socket reports, and \<open>now\<close> the wall clock in seconds.
\<close>

section \<open>JSON values\<close>

datatype json_value =
    JNull | JBool bool | JNumber string | JString string | JArray "json_value list"
  | JObject "(string \<times> json_value) list"

record serde =
  from_slice :: "bytes \<Rightarrow> string + json_value"
  value_text :: "json_value \<Rightarrow> string"

section \<open>NAT classification\<close>

fun is_ip_local :: "ip_addr \<Rightarrow> bool" where
  "is_ip_local (V4 v4) \<longleftrightarrow> is_loopback4 v4 \<or> is_link_local4 v4 \<or> is_private4 v4"
| "is_ip_local (V6 v6) \<longleftrightarrow>
     (let pre = hd (segments v6) AND 0xFFC0
      in is_loopback6 v6 \<or> pre = 0xFE80 \<or> pre = 0xFEC0)"

definition ip_version :: "ip_addr \<Rightarrow> string" where
  "ip_version ip = (if is_ipv4 ip then ''ipv4'' else ''ipv6'')"

definition ip_scope :: "ip_addr \<Rightarrow> string" where
  "ip_scope ip = (if is_ip_local ip then ''local'' else ''public'')"

definition nat_type :: "ip_addr option \<Rightarrow> ip_addr \<Rightarrow> string" where
  "nat_type loc pub =
     (case loc of
        None \<Rightarrow> ''is_'' @ ip_version pub
      | Some l \<Rightarrow>
          if l = pub then ''no_nat_'' @ ip_version pub
          else if is_ipv4 l = is_ipv4 pub
          then ''nat_'' @ ip_scope l @ ''_to_'' @ ip_scope pub @ ''_'' @ ip_version pub
          else ''nat_'' @ ip_version l @ ''_to_'' @ ip_scope pub @ ''_'' @ ip_version pub)"

section \<open>UUID and signature\<close>

definition is_ascii_hexdigit :: "u8 \<Rightarrow> bool" where
  "is_ascii_hexdigit b \<longleftrightarrow>
     (48 \<le> b \<and> b \<le> 57) \<or> (65 \<le> b \<and> b \<le> 70) \<or> (97 \<le> b \<and> b \<le> 102)"

text \<open>\<open>u8::from_str_radix\<close> on two hexadecimal digits.\<close>

definition hex_digit_val :: "u8 \<Rightarrow> nat" where
  "hex_digit_val b =
     (if b \<le> 57 then unat b - 48 else if b \<le> 70 then unat b - 55 else unat b - 87)"

fun hex_pairs :: "bytes \<Rightarrow> bytes" where
  "hex_pairs (a # b # bs) = of_nat (hex_digit_val a * 16 + hex_digit_val b) # hex_pairs bs"
| "hex_pairs _ = []"

definition parse_uuid :: "string \<Rightarrow> bytes option" where
  "parse_uuid s =
     (let b = as_bytes s in
      if length b \<noteq> 36 \<or> list_ex (\<lambda>i. b ! i \<noteq> 0x2D) [8, 13, 18, 23] then None
      else
        (let hex = filter (\<lambda>c. c \<noteq> 0x2D) b in
         if length hex \<noteq> 32 \<or> \<not> list_all is_ascii_hexdigit hex then None
         else Some (hex_pairs hex)))"

definition ip_signature :: "crypto \<Rightarrow> bytes \<Rightarrow> ip_addr \<Rightarrow> bytes \<Rightarrow> bytes" where
  "ip_signature C key ip uuid =
     (let ip16 = (case ip of V4 v4 \<Rightarrow> octets6 (to_ipv6_mapped v4) | V6 v6 \<Rightarrow> octets6 v6)
      in hmac_sha256_raw C key (ip16 @ uuid))"

section \<open>The answer to a request body\<close>

type_synonym ip_error = "string \<times> string"

definition bad_request :: "string \<Rightarrow> ip_error" where
  "bad_request msg = (''400 Bad Request'', msg)"

definition forbidden :: "string \<Rightarrow> ip_error" where
  "forbidden msg = (''403 Forbidden'', msg)"

definition error_body :: "serde \<Rightarrow> string \<Rightarrow> string" where
  "error_body S msg = value_text S (JObject [(''error'', JArray [JString msg])])"

record ip_answer =
  ans_json :: string
  ans_note :: string

fun token_error :: "token_result \<Rightarrow> string" where
  "token_error (TooEarly reason) = ''invalid token: '' @ reason"
| "token_error (TooLate reason) = ''invalid token: '' @ reason"
| "token_error ParseError = ''invalid token: malformed''"
| "token_error _ = ''invalid token''"

text \<open>The member \<open>client_ip_local\<close>, and it parsed as an address in canonical form.\<close>

definition local_text :: "serde \<Rightarrow> (string \<times> json_value) list \<Rightarrow> ip_error + string option" where
  "local_text S obj =
     (case map_of obj ''client_ip_local'' of
        None \<Rightarrow> Inr None
      | Some JNull \<Rightarrow> Inr None
      | Some (JString s) \<Rightarrow> Inr (if trim s = [] then None else Some s)
      | Some (JNumber n) \<Rightarrow> Inr (Some (value_text S (JNumber n)))
      | Some (JBool b) \<Rightarrow> Inr (Some (value_text S (JBool b)))
      | Some _ \<Rightarrow> Inl (bad_request ''Invalid request format: client_ip_local must be a string''))"

definition local_ip :: "string option \<Rightarrow> ip_error + ip_addr option" where
  "local_ip txt =
     (case txt of
        None \<Rightarrow> Inr None
      | Some s \<Rightarrow>
          (case parse_ip_addr s of
             None \<Rightarrow> Inl (bad_request ''client_ip_local must be valid IP address'')
           | Some ip \<Rightarrow> Inr (Some (to_canonical ip))))"

definition token_text :: "(string \<times> json_value) list \<Rightarrow> ip_error + string option" where
  "token_text obj =
     (case map_of obj ''token'' of
        None \<Rightarrow> Inr None
      | Some JNull \<Rightarrow> Inr None
      | Some (JString s) \<Rightarrow> Inr (if trim s \<noteq> [] then Some s else None)
      | Some _ \<Rightarrow> Inl (bad_request ''Invalid request format: token must be a string''))"

definition QQ :: "string \<Rightarrow> string" where
  "QQ s = [CHR 0x22] @ s @ [CHR 0x22]"

definition json_head :: "ip_addr \<Rightarrow> string \<Rightarrow> string" where
  "json_head pub nt =
     ''{'' @ QQ ''v'' @ '':'' @ QQ (if is_ipv4 pub then ''4'' else ''6'') @ '','' @
     QQ ''ip'' @ '':'' @ QQ (ip_to_string pub) @ '','' @ QQ ''nat_type'' @ '':'' @ QQ nt"

definition bool_text :: "bool \<Rightarrow> string" where
  "bool_text b = (if b then ''true'' else ''false'')"

text \<open>The part of the answer that depends on the token: what is added to the JSON and the note.\<close>

definition sign_answer ::
    "crypto \<Rightarrow> string option \<Rightarrow> secret_key list \<Rightarrow> ip_addr \<Rightarrow> i64 \<Rightarrow> ip_error + string \<times> string" where
  "sign_answer C token keys pub now =
     (case token of
        None \<Rightarrow> Inr ([], '', no token, unsigned'')
      | Some t \<Rightarrow>
          (case check_ip_token C t keys pub now of
             Inl rejected \<Rightarrow> Inl (forbidden (token_error rejected))
           | Inr checked \<Rightarrow>
               (case parse_uuid (open_test_uuid checked) of
                  None \<Rightarrow> Inl (forbidden ''invalid token: malformed open test UUID'')
                | Some uuid \<Rightarrow>
                    (let signature = ip_signature C (as_bytes (sk_key (it_key checked))) pub uuid
                     in Inr ('','' @ QQ ''matching_ip'' @ '':'' @ bool_text (matching_ip checked) @
                             '','' @ QQ ''signature'' @ '':'' @ QQ (b64_encode C signature),
                             '', key '' @ [CHR 0x27] @ sk_label (it_key checked) @ [CHR 0x27] @
                             '', matching_ip='' @ bool_text (matching_ip checked) @
                             '', signed'')))))"

definition answer_object ::
    "crypto \<Rightarrow> serde \<Rightarrow> (string \<times> json_value) list \<Rightarrow> ip_addr \<Rightarrow> secret_key list \<Rightarrow> i64 \<Rightarrow>
     ip_error + ip_answer" where
  "answer_object C S obj public0 keys now =
     (case local_text S obj of
        Inl e \<Rightarrow> Inl e
      | Inr txt \<Rightarrow>
          (case local_ip txt of
             Inl e \<Rightarrow> Inl e
           | Inr loc \<Rightarrow>
               (case token_text obj of
                  Inl e \<Rightarrow> Inl e
                | Inr token \<Rightarrow>
                    (let pub = to_canonical public0; nt = nat_type loc pub
                     in case sign_answer C token keys pub now of
                          Inl e \<Rightarrow> Inl e
                        | Inr (sig, note) \<Rightarrow>
                            Inr \<lparr>ans_json = json_head pub nt @ sig @ ''}'',
                                 ans_note = nt @ note\<rparr>))))"

definition ip_response ::
    "crypto \<Rightarrow> serde \<Rightarrow> bytes \<Rightarrow> ip_addr \<Rightarrow> secret_key list \<Rightarrow> i64 \<Rightarrow> ip_error + ip_answer" where
  "ip_response C S body public0 keys now =
     (if body = [] then Inl (bad_request ''Required request body is missing'')
      else
        (case from_slice S body of
           Inl e \<Rightarrow> Inl (bad_request (''Invalid request format: '' @ e))
         | Inr (JObject obj) \<Rightarrow> answer_object C S obj public0 keys now
         | Inr _ \<Rightarrow> Inl (bad_request ''Invalid request format: expected a JSON object'')))"

section \<open>The HTTP exchange\<close>

definition MAX_BODY :: nat where "MAX_BODY = 8192"
definition MAX_DRAIN :: nat where "MAX_DRAIN = 64 * 1024"

definition ip_matches :: "string \<Rightarrow> bool" where
  "ip_matches target \<longleftrightarrow> target = ''/ip'' \<or> starts_with ''/ip?'' target"

definition is_json :: "string \<Rightarrow> bool" where
  "is_json content_type =
     (case split_char (CHR '';'') content_type of
        [] \<Rightarrow> False
      | t # _ \<Rightarrow> eq_ignore_ascii_case (trim t) ''application/json'')"

record ip_headers =
  content_length :: nat
  content_type :: string
  chunked :: bool
  origin :: bool
  request_headers :: string

definition no_headers :: ip_headers where
  "no_headers = \<lparr>content_length = 0, content_type = [], chunked = False, origin = False,
                 request_headers = []\<rparr>"

fun scan_headers :: "ip_headers \<Rightarrow> string list \<Rightarrow> ip_headers res" where
  "scan_headers h [] = Ok h"
| "scan_headers h (line # ls) =
     (case split_once '':'' line of
        None \<Rightarrow> scan_headers h ls
      | Some (name, value0) \<Rightarrow>
          (let value = trim value0; n = to_ascii_lowercase (trim name)
           in if n = ''content-length'' then
                (case parse_u64 value of
                   None \<Rightarrow> Err (IoError InvalidData ''bad Content-Length'')
                 | Some len \<Rightarrow> scan_headers (h\<lparr>content_length := len\<rparr>) ls)
              else if n = ''content-type'' then scan_headers (h\<lparr>content_type := value\<rparr>) ls
              else if n = ''transfer-encoding'' then
                scan_headers (h\<lparr>chunked := contains ''chunked'' (to_ascii_lowercase value)\<rparr>) ls
              else if n = ''origin'' then scan_headers (h\<lparr>origin := True\<rparr>) ls
              else if n = ''access-control-request-headers'' then
                scan_headers (h\<lparr>request_headers := value\<rparr>) ls
              else scan_headers h ls))"

text \<open>Status, additional header lines, body and note of the answer, and the reads it takes.\<close>

definition preflight_headers :: "string \<Rightarrow> string list" where
  "preflight_headers rh =
     [''Access-Control-Allow-Methods: POST, OPTIONS'', ''Access-Control-Allow-Headers: '' @ rh,
      ''Access-Control-Max-Age: 1800'']"

definition header_text :: "string list \<Rightarrow> string" where
  "header_text ls = concat (map (\<lambda>l. l @ CRLF) ls)"

type_synonym ip_parts = "string \<times> string list \<times> string \<times> string option"

definition peer_ip :: "(transport, ip_addr) act" where
  "peer_ip t =
     (case t_peer_addr t of
        Some sa \<Rightarrow> (Ok (sa_ip sa), t)
      | None \<Rightarrow> (Err (IoError Other ''peer address unavailable''), t))"

definition post_parts ::
    "crypto \<Rightarrow> serde \<Rightarrow> ip_headers \<Rightarrow> secret_key list \<Rightarrow> i64 \<Rightarrow> (transport, ip_parts) act" where
  "post_parts C S h keys now =
     try_act (t_read_up_to (content_length h)) (\<lambda>buf.
     if length buf < content_length h
     then err_act (IoError UnexpectedEof ''request body truncated'')
     else
       try_act peer_ip (\<lambda>public.
       ok_act
         (if \<not> is_json (content_type h) then
            (''415 Unsupported Media Type'', [''Accept: application/json''],
             error_body S ''Content-Type must be application/json'', None)
          else
            (case ip_response C S buf public keys now of
               Inr answer \<Rightarrow> (''200 OK'', [], ans_json answer, Some (ans_note answer))
             | Inl (status, msg) \<Rightarrow> (status, [], error_body S msg, None)))))"

definition ip_parts_of ::
    "crypto \<Rightarrow> serde \<Rightarrow> string \<Rightarrow> ip_headers \<Rightarrow> secret_key list \<Rightarrow> i64 \<Rightarrow> (transport, ip_parts) act" where
  "ip_parts_of C S method h keys now =
     (if method = ''OPTIONS'' then
        ok_act (''200 OK'', preflight_headers (request_headers h), [], None)
      else if method = ''POST'' \<and> chunked h then
        ok_act (''411 Length Required'', [], error_body S ''Content-Length required'', None)
      else if method = ''POST'' \<and> content_length h > MAX_BODY then
        try_act (t_read_up_to (min (content_length h) MAX_DRAIN)) (\<lambda>_.
        ok_act (''413 Content Too Large'', [], error_body S ''request body too large'', None))
      else if method = ''POST'' then post_parts C S h keys now
      else ok_act (''405 Method Not Allowed'', [''Allow: POST, OPTIONS''], [], None))"

definition ip_http_response :: "string \<Rightarrow> bool \<Rightarrow> ip_parts \<Rightarrow> string" where
  "ip_http_response sts org parts =
     (case parts of
        (status, extra, body, note) \<Rightarrow>
          ''HTTP/1.1 '' @ status @ CRLF @ ''Connection: close'' @ CRLF @ sts @
          (if org then ''Access-Control-Allow-Origin: *'' @ CRLF else []) @ header_text extra @
          (if body = [] then [] else ''Content-Type: application/json'' @ CRLF) @
          ''Cache-Control: no-cache, no-store, max-age=0, must-revalidate'' @ CRLF @
          ''Content-Length: '' @ nat_to_string (length body) @ CRLF @ CRLF @ body)"

definition ip_summary :: "string \<Rightarrow> ip_parts \<Rightarrow> string" where
  "ip_summary method parts =
     (case parts of
        (status, _, _, Some note) \<Rightarrow>
          method @ '' /ip -> '' @ take 3 status @ '' ('' @ note @ '')''
      | (status, _, _, None) \<Rightarrow> method @ '' /ip -> '' @ take 3 status)"

definition ip_handle ::
    "crypto \<Rightarrow> serde \<Rightarrow> string \<Rightarrow> string \<Rightarrow> secret_key list \<Rightarrow> i64 \<Rightarrow> (transport, string) act" where
  "ip_handle C S head sts keys now =
     (let method = request_method head in
      try_act (\<lambda>t. (scan_headers no_headers (request_lines head), t)) (\<lambda>h.
      try_act (ip_parts_of C S method h keys now) (\<lambda>parts.
      try_act (t_write_all (as_bytes (ip_http_response sts (origin h) parts))) (\<lambda>_.
      try_act transport_flush (\<lambda>_.
      ok_act (ip_summary method parts))))))"

section \<open>Lemmas\<close>

lemma ip_signature_eq: "ip_signature C key ip uuid = hmac_sha256 C key [mapped_ipv6 ip, uuid]"
  by (cases ip)
    (simp_all add: ip_signature_def hmac_sha256_def mapped_ipv6_V6 mapped_ipv6_V4)

lemma ip_response_Inr:
  assumes "ip_response C S body pub keys now = Inr a"
  obtains obj loc token sig nt where
    "body \<noteq> []" "from_slice S body = Inr (JObject obj)" "token_text obj = Inr token"
    "sign_answer C token keys (to_canonical pub) now = Inr (sig, nt)"
    "ans_json a = json_head (to_canonical pub) (nat_type loc (to_canonical pub)) @ sig @ ''}''"
  using assms
  by (auto simp: ip_response_def answer_object_def Let_def
      split: if_splits sum.splits json_value.splits prod.splits)

lemma sign_answer_Inr:
  assumes "sign_answer C (Some t) keys pub now = Inr (sig, nt)"
  obtains checked uuid where "check_ip_token C t keys pub now = Inr checked"
    "parse_uuid (open_test_uuid checked) = Some uuid"
    "sig = '','' @ QQ ''matching_ip'' @ '':'' @ bool_text (matching_ip checked) @ '','' @
       QQ ''signature'' @ '':'' @
       QQ (b64_encode C (ip_signature C (as_bytes (sk_key (it_key checked))) pub uuid))"
  using assms by (auto simp: sign_answer_def Let_def split: sum.splits option.splits)

lemma length_hex_pairs: "length (hex_pairs bs) = length bs div 2"
  by (induction bs rule: hex_pairs.induct) auto

lemma parse_uuid_length: "parse_uuid s = Some u \<Longrightarrow> length u = 16"
  by (auto simp: parse_uuid_def Let_def length_hex_pairs split: if_splits)

subsection \<open>The answer as HTTP\<close>

definition ip_http_headers :: "string \<Rightarrow> bool \<Rightarrow> ip_parts \<Rightarrow> string list" where
  "ip_http_headers sts org parts =
     (case parts of
        (status, extra, body, note) \<Rightarrow>
          ''Connection: close'' # hsts_lines sts @ cors_lines org @ extra @
          (if body = [] then [] else [''Content-Type: application/json'']) @
          [''Cache-Control: no-cache, no-store, max-age=0, must-revalidate'', length_header body])"

definition parts_ok :: "ip_parts \<Rightarrow> bool" where
  "parts_ok parts \<longleftrightarrow>
     CHR 0x0A \<notin> set (fst parts) \<and> list_all line_ok (fst (snd parts))"

abbreviation hsts_arg :: "bool \<Rightarrow> string" where
  "hsts_arg b \<equiv> (if b then HSTS_HEADER else [])"

interpretation ip_http: http_answer
  "\<lambda>(sts, org, parts). ip_http_response (hsts_arg sts) org parts"
  "\<lambda>(sts, org, parts). fst parts"
  "\<lambda>(sts, org, parts). ip_http_headers (hsts_arg sts) org parts"
  "\<lambda>(sts, org, parts). fst (snd (snd parts))"
  "\<lambda>(sts, org, parts). parts_ok parts"
proof (unfold_locales, goal_cases)
  case (1 r)
  obtain sts org status extra body nt where r: "r = (sts, org, status, extra, body, nt)"
    by (cases r) auto
  define h where "h = hsts_arg sts"
  have "hsts_ok h" by (simp add: hsts_ok_def h_def)
  from hsts_text [OF this] show ?case
    unfolding r prod.case h_def [symmetric]
    by (cases "body = []")
      (simp_all add: ip_http_response_def ip_http_headers_def http_text_def header_text_def
        length_header_def cors_lines_def)
next
  case (2 r)
  show ?case by (cases r) (simp add: ip_http_headers_def split: prod.split)
next
  case (3 r)
  show ?case by (cases r) (simp add: ip_http_headers_def split: prod.split)
next
  case (4 r)
  obtain sts org status extra body nt where r: "r = (sts, org, status, extra, body, nt)"
    by (cases r) auto
  have "line_ok ''Connection: close''" "line_ok ''Content-Type: application/json''"
    "line_ok ''Cache-Control: no-cache, no-store, max-age=0, must-revalidate''"
    by (simp_all add: line_ok_def)
  moreover have "line_ok (''HTTP/1.1 '' @ status)" "list_all line_ok extra"
    using 4 by (simp_all add: r parts_ok_def line_ok_def)
  ultimately show ?case unfolding r prod.case fst_conv snd_conv ip_http_headers_def
    by (cases "body = []") (simp_all del: append.simps)
qed

subsection \<open>UUIDs\<close>

text \<open>The canonical text of 16 bytes.\<close>

definition uuid_text :: "bytes \<Rightarrow> string" where
  "uuid_text bs =
     hex (take 4 bs) @ ''-'' @ hex (take 2 (drop 4 bs)) @ ''-'' @ hex (take 2 (drop 6 bs)) @ ''-'' @
     hex (take 2 (drop 8 bs)) @ ''-'' @ hex (drop 10 bs)"

lemma hex_char_byte:
  fixes d :: nat
  assumes "d < 16"
  defines "b \<equiv> of_nat (of_char (hex_char d)) :: u8"
  shows "is_ascii_hexdigit b" "hex_digit_val b = d" "b \<noteq> 0x2D"
proof -
  have u: "unat b = (if d < 10 then 48 + d else 87 + d)"
    using assms(1) by (simp add: b_def hex_char_def of_char_of)
  then show "is_ascii_hexdigit b" "hex_digit_val b = d"
    using assms(1) by (auto simp: is_ascii_hexdigit_def hex_digit_val_def word_le_nat_alt)
  show "b \<noteq> 0x2D" using u assms(1) by (auto split: if_splits)
qed

lemma hex_digits_of_byte:
  "unat (b :: u8) div 16 < 16" "unat b mod 16 < 16" "unat b div 16 * 16 + unat b mod 16 = unat b"
  using unat_u8_less [of b] by (simp_all add: div_mult_mod_eq)

lemma as_bytes_hex_Cons:
  "as_bytes (hex (b # bs)) = of_nat (of_char (hex_char (unat b div 16))) #
     of_nat (of_char (hex_char (unat b mod 16))) # as_bytes (hex bs)"
  by (simp add: hex_def hex_byte_def as_bytes_def)

lemma hex_Nil [simp]: "hex [] = []"
  by (simp add: hex_def)

lemma hex_append: "hex (a @ b) = hex a @ hex b"
  by (simp add: hex_def)

lemma length_hex [simp]: "length (hex bs) = 2 * length bs"
  by (induction bs) (simp_all add: hex_def hex_byte_def)

lemma hex_bytes:
  "filter (\<lambda>c. c \<noteq> 0x2D) (as_bytes (hex bs)) = as_bytes (hex bs) \<and>
   list_all is_ascii_hexdigit (as_bytes (hex bs)) \<and> hex_pairs (as_bytes (hex bs)) = bs"
proof (induction bs)
  case (Cons b bs)
  have "of_nat (unat b div 16 * 16 + unat b mod 16) = b"
    unfolding hex_digits_of_byte(3) by simp
  with Cons show ?case
    unfolding as_bytes_hex_Cons using hex_digits_of_byte(1,2) [of b] by (simp add: hex_char_byte)
qed simp

lemma as_bytes_dash: "as_bytes ''-'' = [0x2D]"
  by (simp add: as_bytes_def)

lemma five_fields:
  assumes "length a = 8" "length b = 4" "length c = 4" "length d = 4"
    and "xs = a @ [x] @ b @ [x] @ c @ [x] @ d @ [x] @ e"
  shows "xs ! 8 = x" "xs ! 13 = x" "xs ! 18 = x" "xs ! 23 = x"
  using assms by (simp_all add: nth_append)

lemma hex_chars: "c \<in> set (hex bs) \<Longrightarrow> \<exists>d < 16. c = hex_char d"
proof -
  assume "c \<in> set (hex bs)"
  then obtain b where "c = hex_char (unat (b :: u8) div 16) \<or> c = hex_char (unat b mod 16)"
    by (auto simp: hex_def hex_byte_def)
  then show ?thesis using hex_digits_of_byte(1,2) [of b] by blast
qed

lemma uuid_text_ok:
  assumes "length u = 16"
  shows "length (uuid_text u) = 36" "CHR ''_'' \<notin> set (uuid_text u)" "CHR ''#'' \<notin> set (uuid_text u)"
proof -
  have "d < 16 \<Longrightarrow> hex_char d \<noteq> CHR ''_'' \<and> hex_char d \<noteq> CHR ''#''" for d
  proof -
    assume d: "d < 16"
    have "(of_char (hex_char d) :: nat) = (if d < 10 then 48 + d else 87 + d)"
      using d by (simp add: hex_char_def of_char_of)
    then show ?thesis using d by (auto split: if_splits)
  qed
  then have "c \<noteq> CHR ''_'' \<and> c \<noteq> CHR ''#''" if "c \<in> set (hex bs)" for c bs
    using hex_chars [OF that] by metis
  then show "CHR ''_'' \<notin> set (uuid_text u)" "CHR ''#'' \<notin> set (uuid_text u)"
    by (auto simp: uuid_text_def)
  show "length (uuid_text u) = 36" using assms by (simp add: uuid_text_def)
qed

lemma issued_not_blank:
  assumes "length u = 16"
  shows "trim (make_test_token C key (uuid_text u) start ip) \<noteq> []"
proof -
  obtain b bs where "u = b # bs" using assms by (cases u) auto
  then obtain r where "make_test_token C key (uuid_text u) start ip = hex_char (unat b div 16) # r"
    by (simp add: make_test_token_def make_v1_def uuid_text_def hex_def hex_byte_def)
  moreover have "ink (hex_char (unat b div 16))"
    using hex_digits_of_byte(1) [of b] by (simp add: ink_def hex_char_def of_char_of)
  ultimately show ?thesis by (simp add: trim_starts_ink)
qed

definition signed_json :: "crypto \<Rightarrow> ip_addr \<Rightarrow> string \<Rightarrow> secret_key \<Rightarrow> bytes \<Rightarrow> bool \<Rightarrow> string" where
  "signed_json C pub nt k u m =
     json_head (to_canonical pub) nt @
     '','' @ QQ ''matching_ip'' @ '':'' @ bool_text m @ '','' @ QQ ''signature'' @ '':'' @
     QQ (b64_encode C (hmac_sha256 C (as_bytes (sk_key k)) [mapped_ipv6 pub, u])) @ ''}''"

lemma parse_uuid_text:
  assumes "length bs = 16"
  shows "parse_uuid (uuid_text bs) = Some bs"
proof -
  let ?f = "\<lambda>xs. filter (\<lambda>c. c \<noteq> 0x2D) xs"
  have split: "bs = take 4 bs @ take 2 (drop 4 bs) @ take 2 (drop 6 bs) @ take 2 (drop 8 bs) @ drop 10 bs"
    using take_add [of 4 2 bs] take_add [of 6 2 bs] take_add [of 8 2 bs]
      append_take_drop_id [of 10 bs] by simp
  have h: "hex bs = hex (take 4 bs) @ hex (take 2 (drop 4 bs)) @ hex (take 2 (drop 6 bs)) @
      hex (take 2 (drop 8 bs)) @ hex (drop 10 bs)"
    using arg_cong [OF split, of hex] by (simp only: hex_append)
  have f: "?f (as_bytes (uuid_text bs)) = as_bytes (hex bs)"
    unfolding h uuid_text_def as_bytes_append as_bytes_dash
    by (simp add: hex_bytes [THEN conjunct1])
  have n: "\<not> list_ex (\<lambda>i. as_bytes (uuid_text bs) ! i \<noteq> 0x2D) [8, 13, 18, 23]"
    unfolding uuid_text_def as_bytes_append as_bytes_dash
    using five_fields [OF _ _ _ _ refl, of "as_bytes (hex (take 4 bs))"
        "as_bytes (hex (take 2 (drop 4 bs)))" "as_bytes (hex (take 2 (drop 6 bs)))"
        "as_bytes (hex (take 2 (drop 8 bs)))" "0x2D" "as_bytes (hex (drop 10 bs))"] assms
    by simp
  have "length (uuid_text bs) = 36" using assms by (simp add: uuid_text_def)
  with f n show ?thesis using assms hex_bytes [of bs] by (simp add: parse_uuid_def Let_def)
qed

lemma ip_response_issued:
  assumes "crypto_laws C" and "length u = 16" and "\<bar>start\<bar> < 2 ^ 63"
    and "length (int_to_string start) \<le> 12"
    and "find (\<lambda>j. make_v1 C (sk_key j) (uuid_text u) start = make_v1 C (sk_key k) (uuid_text u) start)
           keys = Some k"
    and "start - now \<le> 20" and "now - start \<le> 90"
    and "to_canonical ip = to_canonical pub"
    and "body \<noteq> []" and "from_slice S body = Inr (JObject obj)"
    and "map_of obj ''client_ip_local'' = None"
    and "map_of obj ''token'' = Some (JString (make_test_token C (sk_key k) (uuid_text u) start ip))"
  shows "\<exists>a. ip_response C S body pub keys now = Inr a \<and>
     ans_json a = signed_json C pub (nat_type None (to_canonical pub)) k u True"
proof -
  let ?t = "make_test_token C (sk_key k) (uuid_text u) start ip"
  note u = uuid_text_ok [OF assms(2)]
  have "mapped_ipv6 (to_canonical pub) = mapped_ipv6 ip"
    using assms(8) by (metis mapped_ipv6_canonical)
  then have "ip_hash_ok C (make_v2_bytes C (sk_key k) start ip) k (mapped_ipv6 (to_canonical pub))"
    unfolding ip_hash_ok_def make_v2_bytes_parts [OF assms(1)] by simp
  then have "check_ip_token C ?t keys (to_canonical pub) now =
      Inr \<lparr>it_key = k, open_test_uuid = uuid_text u, matching_ip = True\<rparr>"
    using check_ip_token_issued [OF assms(1) u assms(3-7)] by simp
  moreover have "trim ?t \<noteq> []" by (rule issued_not_blank [OF assms(2)])
  ultimately show ?thesis using assms(9-12)
    by (simp add: ip_response_def answer_object_def local_text_def local_ip_def token_text_def
        sign_answer_def parse_uuid_text [OF assms(2)] signed_json_def ip_signature_eq
        mapped_ipv6_canonical Let_def)
qed

subsection \<open>The exchange\<close>

definition no_LF :: "string \<Rightarrow> bool" where
  "no_LF l \<longleftrightarrow> CHR 0x0A \<notin> set l"

lemma if_elim: "(if c then a else b) = x \<Longrightarrow> (a = x \<Longrightarrow> P) \<Longrightarrow> (b = x \<Longrightarrow> P) \<Longrightarrow> P"
  by (simp split: if_splits)

text \<open>One line changes at most one field, and the echoed header only to the line's own value.\<close>

lemma scan_headers_step:
  assumes "scan_headers h (line # ls) = Ok h'"
  shows "\<exists>h1. scan_headers h1 ls = Ok h' \<and>
     (request_headers h1 = request_headers h \<or>
      (\<exists>n v. split_once '':'' line = Some (n, v) \<and> request_headers h1 = trim v))"
proof (cases "split_once '':'' line")
  case None
  with assms show ?thesis by auto
next
  case (Some nv)
  obtain n v where nv: "nv = (n, v)" by fastforce
  show ?thesis
    using assms unfolding scan_headers.simps Some nv option.case prod.case Let_def
    by (elim if_elim) (auto split: option.splits)
qed

lemma scan_headers_no_LF:
  "scan_headers h ls = Ok h' \<Longrightarrow> list_all no_LF ls \<Longrightarrow> no_LF (request_headers h) \<Longrightarrow>
     no_LF (request_headers h')"
proof (induction ls arbitrary: h)
  case (Cons line ls)
  have "no_LF (trim v)" if "split_once '':'' line = Some (n, v)" for n v
    using split_once_Some [OF that] set_trim [of v] Cons.prems(2) by (auto simp: no_LF_def)
  with Cons scan_headers_step [OF Cons.prems(1)] show ?case by auto
qed simp

lemma ip_response_status:
  "ip_response C S b pub keys now = Inl (st, m) \<Longrightarrow> st = ''400 Bad Request'' \<or> st = ''403 Forbidden''"
  by (auto simp: ip_response_def answer_object_def bad_request_def forbidden_def local_text_def
      local_ip_def token_text_def sign_answer_def Let_def
      split: if_splits sum.splits json_value.splits option.splits prod.splits)

lemma t_read_up_to_frame:
  "t_read_up_to n t = (r, t') \<Longrightarrow>
     t_unread t \<le> t_unread t' + n \<and> t_sent t' = t_sent t \<and> t_reliable t' = t_reliable t"
  by (auto simp: t_read_up_to_def on_chan_eq d_read_up_to_def t_unread_def t_sent_def
      t_reliable_def split: if_splits option.splits)

lemma post_parts_ok:
  "post_parts C S h keys now t = (Ok parts, t') \<Longrightarrow>
     parts_ok parts \<and> t_unread t \<le> t_unread t' + content_length h \<and> t_sent t' = t_sent t"
  by (auto simp: post_parts_def ok_act_def err_act_def peer_ip_def parts_ok_def line_ok_def
      elim!: try_act_okE split: if_splits option.splits sum.splits
      dest!: t_read_up_to_frame ip_response_status)

lemma ip_parts_of_ok:
  assumes "ip_parts_of C S method h keys now t = (Ok parts, t')" and "no_LF (request_headers h)"
  shows "parts_ok parts \<and> t_unread t \<le> t_unread t' + MAX_DRAIN \<and> t_sent t' = t_sent t"
proof (cases "method = ''POST'' \<and> \<not> chunked h \<and> content_length h \<le> MAX_BODY")
  case True
  then have "post_parts C S h keys now t = (Ok parts, t')"
    using assms(1) by (simp add: ip_parts_of_def)
  with post_parts_ok [OF this] True show ?thesis by (auto simp: MAX_BODY_def MAX_DRAIN_def)
next
  case False
  have "list_all line_ok (preflight_headers (request_headers h))"
    using assms(2) by (simp add: preflight_headers_def line_ok_def no_LF_def)
  with False assms(1) show ?thesis
    by (auto simp: ip_parts_of_def ok_act_def parts_ok_def line_ok_def no_LF_def
        elim!: try_act_okE split: if_splits dest!: t_read_up_to_frame)
qed

subsection \<open>A concrete request\<close>

definition demo_serde :: serde where
  "demo_serde =
     \<lparr>from_slice = (\<lambda>b. Inr (JObject [(''token'', JString (bytes_str b))])),
      value_text = (\<lambda>_. [])\<rparr>"

definition demo_addr :: ip_addr where
  "demo_addr = V4 (Ipv4Addr 192 0 2 7)"

definition demo_ip_token :: string where
  "demo_ip_token =
     make_test_token demo_crypto (sk_key demo_key) (uuid_text (replicate 16 7)) 1700000007 demo_addr"

lemma demo_from_slice:
  "from_slice demo_serde (as_bytes t) = Inr (JObject [(''token'', JString t)])"
  by (simp add: demo_serde_def)

lemma demo_start: "length (int_to_string 1700000007) \<le> 12"
  by (simp add: int_to_string_def nat_to_string.simps)

lemma demo_ip_token_ok: "trim demo_ip_token \<noteq> []" "as_bytes demo_ip_token \<noteq> []"
proof -
  show "trim demo_ip_token \<noteq> []" unfolding demo_ip_token_def by (rule issued_not_blank) simp
  then show "as_bytes demo_ip_token \<noteq> []" by auto
qed

lemma demo_ip_response:
  "\<exists>a. ip_response demo_crypto demo_serde (as_bytes demo_ip_token) demo_addr [demo_key] 1700000000 =
      Inr a"
  using ip_response_issued [OF demo_crypto_laws _ _ demo_start _ _ _ refl demo_ip_token_ok(2)
      demo_from_slice, of "replicate 16 7" demo_key "[demo_key]" 1700000000 demo_addr]
  unfolding demo_ip_token_def by (simp add: demo_ip_token_def [symmetric]) blast

section \<open>Properties\<close>

text \<open>
  A UUID in canonical form is read back to its 16 bytes.
\<close>

theorem parse_uuid_round_trip:
  assumes "length bs = 16"
  shows "parse_uuid (uuid_text bs) = Some bs"
  by (rule parse_uuid_text [OF assms])

theorem parse_uuid_round_trip_witness:
  "parse_uuid (uuid_text (replicate 16 0xA7)) = Some (replicate 16 0xA7)"
  by (rule parse_uuid_round_trip) simp

text \<open>
  The address in an answer is the one the socket reports, in canonical form, whatever the
  request says; the request can only influence the NAT classification and the signature.
\<close>

theorem ip_answer_reports_peer:
  assumes "ip_response C S body pub keys now = Inr a"
  shows "\<exists>loc rest. ans_json a =
     json_head (to_canonical pub) (nat_type loc (to_canonical pub)) @ rest"
  using assms by (rule ip_response_Inr) blast

theorem ip_answer_reports_peer_witness:
  "\<exists>a loc rest. ip_response demo_crypto demo_serde (as_bytes demo_ip_token) demo_addr [demo_key]
       1700000000 = Inr a \<and>
     ans_json a = json_head (to_canonical demo_addr) (nat_type loc (to_canonical demo_addr)) @ rest"
  using demo_ip_response ip_answer_reports_peer by metis

text \<open>
  C23: the signature of an answer. A request without a token, or with a blank one, is answered
  without a signature. Every other answer is signed, and only if the token is valid: its v1 part has
  the form \<open>UUID_TIMESTAMP_HMAC\<close>, the HMAC is that of a loaded key over \<open>UUID_TIMESTAMP\<close>, the start
  time is at most 20 s ahead and 90 s behind the clock, and the UUID is well formed; the answer then
  carries the HMAC of that very key over the client's address and this UUID.
\<close>

theorem ip_token_gates_signature:
  assumes "ip_response C S body pub keys now = Inr a"
  shows "\<exists>obj loc rest. from_slice S body = Inr (JObject obj) \<and>
     ans_json a = json_head (to_canonical pub) (nat_type loc (to_canonical pub)) @ rest @ ''}'' \<and>
     (rest = [] \<and> token_text obj = Inr None \<or>
      (\<exists>t uuid ts start key u matching. map_of obj ''token'' = Some (JString t) \<and> key \<in> set keys \<and>
         v1_part t = uuid @ CHR ''_'' # ts @ CHR ''_'' #
           hmac_sha1_b64 C (as_bytes (sk_key key)) (as_bytes (uuid @ CHR ''_'' # ts)) \<and>
         parse_i64 ts = Some start \<and> start - now \<le> 20 \<and> now - start \<le> 90 \<and>
         parse_uuid uuid = Some u \<and> length u = 16 \<and>
         rest = '','' @ QQ ''matching_ip'' @ '':'' @ bool_text matching @ '','' @
           QQ ''signature'' @ '':'' @ QQ (b64_encode C (hmac_sha256 C (as_bytes (sk_key key))
             [mapped_ipv6 pub, u]))))"
proof -
  from assms obtain obj loc token sig nt where o: "from_slice S body = Inr (JObject obj)"
    and tk: "token_text obj = Inr token"
    and s: "sign_answer C token keys (to_canonical pub) now = Inr (sig, nt)"
    and j: "ans_json a = json_head (to_canonical pub) (nat_type loc (to_canonical pub)) @ sig @ ''}''"
    by (rule ip_response_Inr)
  show ?thesis
  proof (cases token)
    case None
    with s have "sig = []" by (simp add: sign_answer_def)
    with o j tk None show ?thesis by blast
  next
    case (Some t)
    with tk have t: "map_of obj ''token'' = Some (JString t)"
      by (auto simp: token_text_def split: option.splits json_value.splits if_splits)
    from s Some obtain checked u where c: "check_ip_token C t keys (to_canonical pub) now = Inr checked"
      "parse_uuid (open_test_uuid checked) = Some u"
      "sig = '','' @ QQ ''matching_ip'' @ '':'' @ bool_text (matching_ip checked) @ '','' @
         QQ ''signature'' @ '':'' @
         QQ (b64_encode C (ip_signature C (as_bytes (sk_key (it_key checked))) (to_canonical pub) u))"
      by (metis sign_answer_Inr)
    from check_ip_token_key [OF c(1)] obtain ts start where k: "it_key checked \<in> set keys"
      "v1_part t = open_test_uuid checked @ CHR ''_'' # ts @ CHR ''_'' # hmac_sha1_b64 C
         (as_bytes (sk_key (it_key checked))) (as_bytes (open_test_uuid checked @ CHR ''_'' # ts))"
      "parse_i64 ts = Some start" "start - now \<le> 20" "now - start \<le> 90" by blast
    have "sig = '','' @ QQ ''matching_ip'' @ '':'' @ bool_text (matching_ip checked) @ '','' @
         QQ ''signature'' @ '':'' @ QQ (b64_encode C (hmac_sha256 C (as_bytes (sk_key (it_key checked)))
           [mapped_ipv6 pub, u]))"
      using c(3) by (simp add: ip_signature_eq mapped_ipv6_canonical)
    with o j t c(2) k parse_uuid_length [OF c(2)] show ?thesis by blast
  qed
qed

theorem ip_token_gates_signature_witness:
  "\<exists>a loc rest. ip_response demo_crypto demo_serde (as_bytes demo_ip_token) demo_addr [demo_key]
       1700000000 = Inr a \<and> rest \<noteq> [] \<and>
     ans_json a = json_head (to_canonical demo_addr) (nat_type loc (to_canonical demo_addr)) @ rest @ ''}''"
proof -
  obtain a where a: "ip_response demo_crypto demo_serde (as_bytes demo_ip_token) demo_addr [demo_key]
       1700000000 = Inr a" using demo_ip_response by blast
  have "token_text [(''token'', JString demo_ip_token)] \<noteq> Inr None"
    using demo_ip_token_ok(1) by (simp add: token_text_def)
  with ip_token_gates_signature [OF a] a demo_from_slice show ?thesis by fastforce
qed

text \<open>
  A request whose token is rejected, or names no well-formed open test UUID, gets no answer
  but 403 with the reason; this does not depend on any other member of the request except
  \<open>client_ip_local\<close>, which is looked at first.
\<close>

theorem ip_invalid_token_forbidden:
  assumes "body \<noteq> []" and "from_slice S body = Inr (JObject obj)"
    and "map_of obj ''client_ip_local'' = None"
    and "map_of obj ''token'' = Some (JString t)" and "trim t \<noteq> []"
    and "case check_ip_token C t keys (to_canonical pub) now of
           Inl rejected \<Rightarrow> msg = token_error rejected
         | Inr checked \<Rightarrow> parse_uuid (open_test_uuid checked) = None \<and>
             msg = ''invalid token: malformed open test UUID''"
  shows "ip_response C S body pub keys now = Inl (''403 Forbidden'', msg)"
  using assms
  by (auto simp: ip_response_def answer_object_def local_text_def local_ip_def token_text_def
      sign_answer_def forbidden_def Let_def split: sum.splits option.splits)

theorem ip_invalid_token_forbidden_witness:
  "ip_response demo_crypto demo_serde (as_bytes ''x'') demo_addr [demo_key] 1700000000 =
     Inl (''403 Forbidden'', ''invalid token: malformed'')"
proof -
  have x: "trim ''x'' \<noteq> []" using trim_ink [of "''x''"] by (simp add: ink_def)
  have "check_ip_token demo_crypto ''x'' [demo_key] (to_canonical demo_addr) 1700000000 = Inl ParseError"
    by (simp add: check_ip_token_def match_v1_def V2_MARK_def strip_prefix_def starts_with_def
        eval_nat_numeral)
  then show ?thesis
    by (intro ip_invalid_token_forbidden
          [where obj = "[(''token'', JString ''x'')]" and t = "''x''", OF _ _ _ _ x])
      (simp_all add: demo_serde_def)
qed

text \<open>
  C24: a token issued by a control server is answered with a signature by its key: when the
  client presents the token from the address it was issued for, within the time window, the
  answer names this address, says that it matches, and carries the HMAC over the address and
  the open test UUID that the control server can verify.
\<close>

theorem issued_token_signed_answer:
  assumes "crypto_laws C" and "length u = 16" and "\<bar>start\<bar> < 2 ^ 63"
    and "length (int_to_string start) \<le> 12"
    and "find (\<lambda>j. make_v1 C (sk_key j) (uuid_text u) start = make_v1 C (sk_key k) (uuid_text u) start)
           keys = Some k"
    and "start - now \<le> 20" and "now - start \<le> 90"
    and "to_canonical ip = to_canonical pub"
    and "body \<noteq> []" and "from_slice S body = Inr (JObject obj)"
    and "map_of obj ''client_ip_local'' = None"
    and "map_of obj ''token'' = Some (JString (make_test_token C (sk_key k) (uuid_text u) start ip))"
  shows "\<exists>a. ip_response C S body pub keys now = Inr a \<and>
     ans_json a = signed_json C pub (nat_type None (to_canonical pub)) k u True"
  by (rule ip_response_issued [OF assms])

theorem issued_token_signed_answer_witness:
  "\<exists>a. ip_response demo_crypto demo_serde (as_bytes demo_ip_token)
         (V6 (to_ipv6_mapped (Ipv4Addr 192 0 2 7))) [demo_key] 1700000000 = Inr a \<and>
     ans_json a = signed_json demo_crypto (V6 (to_ipv6_mapped (Ipv4Addr 192 0 2 7)))
       (nat_type None demo_addr) demo_key (replicate 16 7) True"
proof -
  have c: "to_canonical demo_addr = to_canonical (V6 (to_ipv6_mapped (Ipv4Addr 192 0 2 7)))"
    "to_canonical (V6 (to_ipv6_mapped (Ipv4Addr 192 0 2 7))) = demo_addr"
    by (simp_all add: demo_addr_def of_be16_def)
  show ?thesis
    using issued_token_signed_answer [OF demo_crypto_laws _ _ demo_start _ _ _ c(1)
        demo_ip_token_ok(2) demo_from_slice, of "replicate 16 7" demo_key "[demo_key]" 1700000000]
    unfolding c(2) by (simp add: demo_ip_token_def)
qed

text \<open>
  C27: every answered request gets one complete HTTP answer: what was sent is a status line, header
  lines and a body that a client reads back exactly, with \<open>Connection: close\<close> and the length of
  the body among the headers; and at most 64 KiB of the request body were read. (A bare LF in
  the echoed request header, which no HTTP header may contain, is excluded.)
\<close>

theorem ip_handle_answers:
  assumes "ip_handle C S head (hsts_arg sts) keys now t = (Ok summary, t')"
    and "list_all no_LF (request_lines head)"
  shows "\<exists>resp status hs body. t_sent t' = t_sent t @ as_bytes resp \<and>
     http_read resp = Some ((''HTTP/1.1 '' @ status) # hs, body) \<and>
     ''Connection: close'' \<in> set hs \<and> length_header body \<in> set hs \<and>
     t_unread t \<le> t_unread t' + MAX_DRAIN"
proof -
  from assms(1) obtain h parts t1 t2 where
    h: "scan_headers no_headers (request_lines head) = Ok h"
    and p: "ip_parts_of C S (request_method head) h keys now t = (Ok parts, t1)"
    and w: "t_write_all (as_bytes (ip_http_response (hsts_arg sts) (origin h) parts)) t1 = (Ok (), t2)"
    and f: "transport_flush t2 = (Ok (), t')"
    by (auto simp: ip_handle_def Let_def ok_act_def elim!: try_act_okE)
  have "no_LF (request_headers h)"
    using scan_headers_no_LF [OF h assms(2)] by (simp add: no_headers_def no_LF_def)
  note ok = ip_parts_of_ok [OF p this]
  have s: "t' = t2" using transport_flush_chan [OF f] by simp
  have sent: "t_sent t' = t_sent t @ as_bytes (ip_http_response (hsts_arg sts) (origin h) parts)"
    using raw.wr_sent [OF w] ok s by simp
  have "t_unread t \<le> t_unread t' + MAX_DRAIN" using raw.wr_frame [OF w] ok s by simp
  moreover have "(\<lambda>(sts, org, parts). parts_ok parts) (sts, origin h, parts)" using ok by simp
  from ip_http.read_back [OF this] obtain hs where
    "http_read (ip_http_response (hsts_arg sts) (origin h) parts) =
       Some ((''HTTP/1.1 '' @ fst parts) # hs, fst (snd (snd parts)))"
    "''Connection: close'' \<in> set hs" "length_header (fst (snd (snd parts))) \<in> set hs" by auto
  ultimately show ?thesis using sent by blast
qed

theorem ip_handle_answers_witness:
  "\<exists>resp status hs body t'.
     ip_handle demo_crypto demo_serde (''OPTIONS /ip HTTP/1.1'' @ CRLF @ CRLF) (hsts_arg True) []
       1700000000 (Plain (demo_duplex [])) = (Ok ''OPTIONS /ip -> 200'', t') \<and>
     t_sent t' = as_bytes resp \<and> http_read resp = Some ((''HTTP/1.1 '' @ status) # hs, body)"
proof -
  let ?h = "''OPTIONS /ip HTTP/1.1'' @ CRLF @ CRLF"
  have sp: "split_str CRLF ?h = [''OPTIONS /ip HTTP/1.1'', [], []]"
    by (rule split_str_head) simp
  then have m: "request_method ?h = ''OPTIONS''" "request_lines ?h = [[], []]"
    by (simp_all add: request_method_def request_lines_def first_or_empty_def del: append.simps)
  obtain t' where t': "ip_handle demo_crypto demo_serde ?h (hsts_arg True) [] 1700000000
      (Plain (demo_duplex [])) = (Ok ''OPTIONS /ip -> 200'', t')"
    unfolding ip_handle_def m Let_def
    by (simp add: try_act_def ip_parts_of_def ok_act_def t_write_all_def on_chan_def
        d_write_all_def demo_duplex_def ip_summary_def)
  have "list_all no_LF (request_lines ?h)" unfolding m by (simp add: no_LF_def)
  moreover have "t_sent (Plain (demo_duplex [])) = []" by (simp add: t_sent_def demo_duplex_def)
  ultimately show ?thesis
    using ip_handle_answers [OF t'] t' by (metis append_Nil)
qed

text \<open>
  The NAT classification. Equal addresses mean no NAT, different addresses always NAT, and
  an unknown local address neither; the address family in the result is that of the public
  address.
\<close>

theorem nat_type_classifies:
  "(\<exists>r. nat_type loc pub = ''no_nat_'' @ r) = (loc = Some pub) \<and>
   (\<exists>r. nat_type loc pub = ''nat_'' @ r) = (\<exists>l. loc = Some l \<and> l \<noteq> pub) \<and>
   (\<exists>r. nat_type loc pub = ''is_'' @ r) = (loc = None) \<and>
   (\<exists>r. nat_type loc pub = r @ ip_version pub)"
  by (cases loc) (auto simp: nat_type_def)

end
