(* ===== verification/Rmbt_Upgrade.thy ===== *)
theory Rmbt_Upgrade
  imports Rmbt_Ip_Check
begin

text \<open>
  The HTTP phase of a connection (\<open>src/src/stream/websocket_upgrade.rs\<close>): the request head is
  read byte by byte, then it is an address check, a version request, an upgrade to WebSocket
  or to RMBT, or it is refused.

  \<open>tungstenite::WebSocket::from_raw_socket\<close> is the parameter \<open>from_raw_socket\<close>: it makes of a
  transport the WebSocket whose messages are going to be read.
\<close>

section \<open>Definitions\<close>

definition WS_GUID :: bytes where
  "WS_GUID = as_bytes ''258EAFA5-E914-47DA-95CA-C5AB0DC85B11''"

datatype upgrade = Rmbt stream | IpCheck string | Version string

definition HEAD_END :: bytes where
  "HEAD_END = [0x0D, 0x0A, 0x0D, 0x0A]"

definition bytes_end_with :: "bytes \<Rightarrow> bytes \<Rightarrow> bool" where
  "bytes_end_with p bs \<longleftrightarrow> length p \<le> length bs \<and> drop (length bs - length p) bs = p"

lemma t_read_exact_progress: "t_read_exact 1 t = (Ok b, t') \<Longrightarrow> t_unread t' < t_unread t"
  by (rule raw.rx_progress [of 1]) simp_all

function read_head :: "bytes \<Rightarrow> (transport, bytes) act" where
  "read_head buf t =
     (case t_read_exact 1 t of
        (Ok tmp, t') \<Rightarrow>
          (let buf' = buf @ tmp
           in if bytes_end_with HEAD_END buf' then (Ok buf', t')
              else if length buf' > 8192
              then (Err (IoError InvalidData ''HTTP request too large''), t')
              else read_head buf' t')
      | (Err e, t') \<Rightarrow> (Err e, t')
      | (Panic p, t') \<Rightarrow> (Panic p, t'))"
  by pat_completeness auto

termination
  by (relation "measure (\<lambda>(_, t). t_unread t)") 
    (auto simp del: One_nat_def dest: t_read_exact_progress [OF sym])

declare read_head.simps [simp del]

definition request_target :: "string \<Rightarrow> string" where
  "request_target req =
     (case split_char (CHR '' '') req of _ # target # _ \<Rightarrow> target | _ \<Rightarrow> [])"

definition refuse_method :: "string \<Rightarrow> string" where
  "refuse_method sts =
     ''HTTP/1.1 405 Method Not Allowed'' @ CRLF @ ''Connection: close'' @ CRLF @ sts @
     ''Content-Length: 0'' @ CRLF @ CRLF"

definition upgrade_body :: "string \<Rightarrow> string" where
  "upgrade_body ver = ''RMBT measurement server - '' @ trim (GREETING ver)"

definition upgrade_required :: "string \<Rightarrow> string \<Rightarrow> string" where
  "upgrade_required ver sts =
     ''HTTP/1.1 426 Upgrade Required'' @ CRLF @ ''Connection: close'' @ CRLF @
     ''Upgrade: RMBT, websocket'' @ CRLF @ sts @ ''Content-Type: text/plain'' @ CRLF @
     ''Content-Length: '' @ nat_to_string (length (upgrade_body ver)) @ CRLF @ CRLF @
     upgrade_body ver"

definition switch_rmbt :: "string \<Rightarrow> string" where
  "switch_rmbt sts =
     ''HTTP/1.1 101 Switching Protocols'' @ CRLF @ ''Connection: Upgrade'' @ CRLF @
     ''Upgrade: RMBT'' @ CRLF @ sts @ CRLF"

definition switch_websocket :: "string \<Rightarrow> string \<Rightarrow> string" where
  "switch_websocket accept sts =
     ''HTTP/1.1 101 Switching Protocols'' @ CRLF @ ''Connection: Upgrade'' @ CRLF @
     ''Upgrade: websocket'' @ CRLF @ ''Sec-WebSocket-Accept: '' @ accept @ CRLF @ sts @ CRLF"

definition websocket_key :: "string \<Rightarrow> string option" where
  "websocket_key line =
     (let lower = to_ascii_lowercase line
      in if starts_with ''sec-websocket-key:'' lower
         then (case split_once '':'' lower of
                 Some (name, _) \<Rightarrow> Some (trim (drop (length name + 1) line))
               | None \<Rightarrow> None)
         else None)"

definition websocket_accept :: "crypto \<Rightarrow> string \<Rightarrow> string" where
  "websocket_accept C key = b64_encode C (sha1_raw C (as_bytes key @ WS_GUID))"

fun find_map :: "('a \<Rightarrow> 'b option) \<Rightarrow> 'a list \<Rightarrow> 'b option" where
  "find_map f [] = None"
| "find_map f (x # xs) = (case f x of Some y \<Rightarrow> Some y | None \<Rightarrow> find_map f xs)"

definition websocket_handshake ::
    "crypto \<Rightarrow> (transport \<Rightarrow> websocket) \<Rightarrow> string \<Rightarrow> string \<Rightarrow> (transport, stream) act" where
  "websocket_handshake C from_raw_socket request sts =
     (case find_map websocket_key (str_lines request) of
        None \<Rightarrow> err_act (IoError InvalidData ''missing Sec-WebSocket-Key'')
      | Some key \<Rightarrow>
          try_act (t_write_all (as_bytes (switch_websocket (websocket_accept C key) sts))) (\<lambda>_.
          try_act transport_flush (\<lambda>_ t.
          (Ok (WebSocket (from_raw_socket t)), t))))"

definition close_with :: "(string \<Rightarrow> upgrade) \<Rightarrow> string \<Rightarrow> (transport, upgrade) act" where
  "close_with f summary t = (Ok (f summary), transport_close t)"

text \<open>\<open>let _ = write_all; let _ = flush; Err(...)\<close>\<close>

definition refuse_with :: "string \<Rightarrow> string \<Rightarrow> (transport, 'a) act" where
  "refuse_with resp msg =
     try_act (ignore_act (t_write_all (as_bytes resp))) (\<lambda>_.
     try_act (ignore_act transport_flush) (\<lambda>_.
     err_act (IoError InvalidData msg)))"

definition detect_and_upgrade ::
    "crypto \<Rightarrow> serde \<Rightarrow> (transport \<Rightarrow> websocket) \<Rightarrow> string \<Rightarrow> string \<Rightarrow> bool \<Rightarrow> secret_key list \<Rightarrow> i64 \<Rightarrow>
     (transport, upgrade) act" where
  "detect_and_upgrade C S from_raw_socket ver branch add_hsts keys now =
     (let sts = (if add_hsts then HSTS_HEADER else []) in
      try_act (read_head []) (\<lambda>buf.
      let req = from_utf8_lossy buf; req_lower = to_ascii_lowercase req in
      if ip_matches (request_target req) then
        try_act (ip_handle C S req sts keys now) (close_with IpCheck)
      else if version_matches (request_target req) then
        try_act (version_handle ver branch req sts) (close_with Version)
      else if \<not> starts_with ''GET '' req then
        refuse_with (refuse_method sts) ''expected HTTP GET''
      else if contains ''upgrade: websocket'' req_lower then
        try_act (websocket_handshake C from_raw_socket req sts) (\<lambda>s. ok_act (Rmbt s))
      else if contains ''upgrade: rmbt'' req_lower then
        try_act (t_write_all (as_bytes (switch_rmbt sts))) (\<lambda>_ t. (Ok (Rmbt (Raw t)), t))
      else
        refuse_with (upgrade_required ver sts)
          ''no recognized Upgrade header (need 'websocket' or 'rmbt')''))"

section \<open>The request head\<close>

lemma t_read_exact_1:
  assumes "t_read_exact 1 t = (Ok b, t')"
  obtains x where "b = [x]" "d_in (chan t) = x # d_in (chan t')" "t_sent t' = t_sent t"
    "t_peer_addr t' = t_peer_addr t" "t_reliable t' = t_reliable t"
proof -
  have "d_read_exact 1 (chan t) = (Ok b, chan t')" and t': "t' = with_chan t (chan t')"
    using assms by (auto simp: t_read_exact_def on_chan_eq)
  then have "length b = 1" "d_in (chan t) = b @ d_in (chan t')" by (auto dest: d_read_exact_Ok)
  moreover obtain x where "b = [x]" using \<open>length b = 1\<close> by (cases b) auto
  ultimately show thesis
    using that raw.rx_frame [OF assms] raw.rx_reliable [OF assms] by simp
qed

lemma read_head_Ok:
  assumes "read_head buf t = (Ok req, t')" and "length buf \<le> 8192"
  shows "\<exists>more. req = buf @ more \<and> d_in (chan t) = more @ d_in (chan t') \<and>
     bytes_end_with HEAD_END req \<and> length req \<le> 8193 \<and>
     t_sent t' = t_sent t \<and> t_peer_addr t' = t_peer_addr t \<and> t_reliable t' = t_reliable t"
  using assms
proof (induction buf t rule: read_head.induct)
  case (1 buf t)
  obtain r t1 where r: "t_read_exact 1 t = (r, t1)" by fastforce
  show ?case
  proof (cases r)
    case (Ok b)
    with r have "t_read_exact 1 t = (Ok b, t1)" by simp
    then obtain x where b: "b = [x]" "d_in (chan t) = x # d_in (chan t1)" "t_sent t1 = t_sent t"
      "t_peer_addr t1 = t_peer_addr t" "t_reliable t1 = t_reliable t" by (rule t_read_exact_1)
    show ?thesis
    proof (cases "bytes_end_with HEAD_END (buf @ [x])")
      case True
      with "1.prems" r Ok b show ?thesis
        by (auto simp: read_head.simps [of buf t] simp del: One_nat_def)
    next
      case False
      then have l: "length (buf @ [x]) \<le> 8192" "read_head (buf @ [x]) t1 = (Ok req, t')"
        using "1.prems"(1) r Ok b
        by (auto simp: read_head.simps [of buf t] simp del: One_nat_def split: if_splits)
      from "1.IH" [OF r [symmetric] Ok, of "buf @ [x]"] False l b show ?thesis by auto
    qed
  qed (use "1.prems" r in \<open>auto simp: read_head.simps [of buf t] simp del: One_nat_def\<close>)
qed

lemma read_head_bounded:
  assumes "read_head buf t = (r, t')" and "length buf \<le> 8192"
  shows "length buf + t_unread t \<le> 8193 + t_unread t' \<and> (\<forall>p. r \<noteq> Panic p) \<and> t_sent t' = t_sent t"
  using assms
proof (induction buf t rule: read_head.induct)
  case (1 buf t)
  obtain r1 t1 where r: "t_read_exact 1 t = (r1, t1)" by fastforce
  show ?case
  proof (cases r1)
    case (Ok b)
    with r have "t_read_exact 1 t = (Ok b, t1)" by simp
    then obtain x where b: "b = [x]" "d_in (chan t) = x # d_in (chan t1)" "t_sent t1 = t_sent t"
      by (rule t_read_exact_1)
    have u: "t_unread t = Suc (t_unread t1)" using b by (simp add: t_unread_def)
    show ?thesis
    proof (cases "bytes_end_with HEAD_END (buf @ [x]) \<or> 8192 < length (buf @ [x])")
      case True
      with "1.prems" r Ok b u show ?thesis
        by (auto simp: read_head.simps [of buf t] Let_def simp del: One_nat_def split: if_splits)
    next
      case False
      with "1.prems"(1) r Ok b have "read_head (buf @ [x]) t1 = (r, t')"
        by (simp add: read_head.simps [of buf t] del: One_nat_def)
      with "1.IH" [OF r [symmetric] Ok, of "buf @ [x]"] False b u show ?thesis by auto
    qed
  next
    case (Err e)
    with "1.prems" r have "r = Err e" "t' = t1"
      by (auto simp: read_head.simps [of buf t] simp del: One_nat_def)
    moreover have "t_unread t \<le> Suc (t_unread t1)" using r Err
      by (auto simp: t_read_exact_def on_chan_eq d_read_exact_def t_unread_def split: if_splits)
    ultimately show ?thesis using "1.prems"(2) raw.rx_frame [OF r] by auto
  next
    case (Panic p)
    with r raw.rx_no_panic show ?thesis by metis
  qed
qed

text \<open>A head that is there is read.\<close>

lemma read_head_complete:
  "d_in (chan t) = xs @ rest \<Longrightarrow> xs \<noteq> [] \<Longrightarrow> bytes_end_with HEAD_END (buf @ xs) \<Longrightarrow>
     list_all (\<lambda>k. \<not> bytes_end_with HEAD_END (buf @ take k xs)) [1..<length xs] \<Longrightarrow>
     length (buf @ xs) \<le> 8193 \<Longrightarrow>
     read_head buf t = (Ok (buf @ xs), with_chan t ((chan t)\<lparr>d_in := rest\<rparr>))"
proof (induction xs arbitrary: buf t)
  case (Cons x xs)
  define t1 where "t1 = with_chan t ((chan t)\<lparr>d_in := xs @ rest\<rparr>)"
  have r: "t_read_exact 1 t = (Ok [x], t1)"
    using Cons.prems(1) by (simp add: t_read_exact_def on_chan_def d_read_exact_def t1_def)
  show ?case
  proof (cases "xs = []")
    case True
    with r Cons.prems show ?thesis
      by (simp add: read_head.simps [of buf t] t1_def del: One_nat_def)
  next
    case False
    have pre: "\<not> bytes_end_with HEAD_END (buf @ take k (x # xs))" if "1 \<le> k" "k \<le> length xs" for k
      using Cons.prems(4) that by (cases "k = length xs") (auto simp: list_all_iff)
    have "\<not> bytes_end_with HEAD_END (buf @ [x])" using pre [of 1] False by (simp add: Suc_le_eq)
    moreover have "\<not> 8192 < length (buf @ [x])" using Cons.prems(5) False by (cases xs) auto
    ultimately have "read_head buf t = read_head (buf @ [x]) t1"
      using r by (simp add: read_head.simps [of buf t] del: One_nat_def)
    also have "\<dots> = (Ok ((buf @ [x]) @ xs), with_chan t1 ((chan t1)\<lparr>d_in := rest\<rparr>))"
    proof (rule Cons.IH)
      show "list_all (\<lambda>k. \<not> bytes_end_with HEAD_END ((buf @ [x]) @ take k xs)) [1..<length xs]"
        unfolding list_all_iff
      proof (intro ballI)
        fix k assume "k \<in> set [1..<length xs]"
        then show "\<not> bytes_end_with HEAD_END ((buf @ [x]) @ take k xs)"
          using pre [of "Suc k"] by simp
      qed
    qed (use Cons.prems False in \<open>simp_all add: t1_def\<close>)
    finally show ?thesis by (simp add: t1_def)
  qed
qed simp

section \<open>Refusals as HTTP answers\<close>

interpretation refusal_http: http_answer
  "\<lambda>(unknown, sts). if unknown then upgrade_required ver (hsts_arg sts) else refuse_method (hsts_arg sts)"
  "\<lambda>(unknown, sts). if unknown then ''426 Upgrade Required'' else ''405 Method Not Allowed''"
  "\<lambda>(unknown, sts). ''Connection: close'' #
     (if unknown then [''Upgrade: RMBT, websocket''] else []) @ hsts_lines (hsts_arg sts) @
     (if unknown then [''Content-Type: text/plain''] else []) @
     [length_header (if unknown then upgrade_body ver else [])]"
  "\<lambda>(unknown, sts). if unknown then upgrade_body ver else []" "\<lambda>_. True"
  for ver
proof (unfold_locales, goal_cases)
  case (1 r)
  obtain unknown sts where r: "r = (unknown, sts)" by fastforce
  define h where "h = hsts_arg sts"
  have "hsts_ok h" by (simp add: hsts_ok_def h_def)
  moreover have "char_of (48 :: nat) = CHR ''0''" by code_simp
  then have "nat_to_string 0 = ''0''" by (simp add: nat_to_string.simps digit_char_def)
  ultimately show ?case
    unfolding r prod.case h_def [symmetric] using hsts_text [of h]
    by (cases unknown)
      (simp_all add: upgrade_required_def refuse_method_def http_text_def length_header_def)
next
  case (4 r)
  show ?case by (cases r) (simp, simp add: line_ok_def)
next
  case (2 r)
  show ?case by (cases r) simp
next
  case (3 r)
  show ?case by (cases r) simp
qed

section \<open>Upgrading\<close>

text \<open>What happens once the request head is read.\<close>

lemma detect_and_upgrade_routes:
  assumes "read_head [] t = (Ok buf, t1)" and "req = from_utf8_lossy buf"
  shows "detect_and_upgrade C S frs ver branch hst keys now t =
      (if ip_matches (request_target req) then
         try_act (ip_handle C S req (hsts_arg hst) keys now) (close_with IpCheck) t1
       else if version_matches (request_target req) then
         try_act (version_handle ver branch req (hsts_arg hst)) (close_with Version) t1
       else if \<not> starts_with ''GET '' req then
         refuse_with (refuse_method (hsts_arg hst)) ''expected HTTP GET'' t1
       else if contains ''upgrade: websocket'' (to_ascii_lowercase req) then
         try_act (websocket_handshake C frs req (hsts_arg hst)) (\<lambda>s. ok_act (Rmbt s)) t1
       else if contains ''upgrade: rmbt'' (to_ascii_lowercase req) then
         try_act (t_write_all (as_bytes (switch_rmbt (hsts_arg hst)))) (\<lambda>_ t. (Ok (Rmbt (Raw t)), t)) t1
       else refuse_with (upgrade_required ver (hsts_arg hst))
          ''no recognized Upgrade header (need 'websocket' or 'rmbt')'' t1)"
  using assms by (simp add: detect_and_upgrade_def Let_def try_act_def)

lemma detect_and_upgrade_Rmbt:
  assumes "detect_and_upgrade C S frs ver branch hst keys now t = (Ok (Rmbt st), t')"
  shows "\<exists>buf. let req = from_utf8_lossy buf; lower = to_ascii_lowercase req in
     d_in (chan t) = buf @ d_in (chan t') \<and> starts_with ''GET '' req \<and>
     \<not> ip_matches (request_target req) \<and> \<not> version_matches (request_target req) \<and>
     ((\<exists>key. contains ''upgrade: websocket'' lower \<and> st = WebSocket (frs t') \<and>
         find_map websocket_key (str_lines req) = Some key \<and>
         t_sent t' = t_sent t @
           as_bytes (switch_websocket (websocket_accept C key) (hsts_arg hst))) \<or>
      (contains ''upgrade: rmbt'' lower \<and> st = Raw t' \<and>
         t_sent t' = t_sent t @ as_bytes (switch_rmbt (hsts_arg hst)))) \<and>
     t_peer_addr t' = t_peer_addr t"
proof -
  from assms obtain buf t1 where h: "read_head [] t = (Ok buf, t1)"
    unfolding detect_and_upgrade_def Let_def by (elim try_act_okE)
  note k = read_head_Ok [OF h, simplified]
  define req where "req = from_utf8_lossy buf"
  have no: "try_act m (close_with f) x \<noteq> (Ok (Rmbt st), y)" if "\<And>z. f z \<noteq> Rmbt st" for m f x y
    using that by (auto simp: close_with_def elim!: try_act_okE)
  have no': "refuse_with a b x \<noteq> (Ok (c :: upgrade), y)" for a b c x y
    by (auto simp: refuse_with_def err_act_def elim!: try_act_okE)
  note d = detect_and_upgrade_routes [OF h req_def]
  have in_eq: "d_in (chan y) = d_in (chan x)" if "t_write_all b x = (Ok (), y)" for b x y
    using raw.wr_inp [OF that] by (simp add: t_input_def)
  have c: "\<not> ip_matches (request_target req)" "\<not> version_matches (request_target req)"
    "starts_with ''GET '' req"
    "contains ''upgrade: websocket'' (to_ascii_lowercase req) \<or>
     contains ''upgrade: rmbt'' (to_ascii_lowercase req)"
    using assms no no' unfolding d by (auto split: if_splits)
  show ?thesis
  proof (cases "contains ''upgrade: websocket'' (to_ascii_lowercase req)")
    case True
    with assms c obtain key t2 where
      "find_map websocket_key (str_lines req) = Some key" "st = WebSocket (frs t')"
      and w: "t_write_all (as_bytes (switch_websocket (websocket_accept C key) (hsts_arg hst))) t1 =
        (Ok (), t2)" and f: "transport_flush t2 = (Ok (), t')"
      unfolding d by (auto simp: websocket_handshake_def ok_act_def err_act_def
          elim!: try_act_okE split: option.splits)
    moreover have "t' = t2" using transport_flush_chan [OF f] by simp
    ultimately show ?thesis
      using True c k raw.wr_sent [OF w] in_eq [OF w] raw.wr_frame [OF w]
      by (intro exI [of _ buf]) (auto simp: req_def [symmetric] Let_def)
  next
    case False
    with assms c have "t_write_all (as_bytes (switch_rmbt (hsts_arg hst))) t1 = (Ok (), t')"
      "st = Raw t'" unfolding d by (auto elim!: try_act_okE)
    then show ?thesis
      using False c k raw.wr_sent in_eq raw.wr_frame
      by (intro exI [of _ buf]) (auto simp: req_def [symmetric] Let_def)
  qed
qed

subsection \<open>A concrete request\<close>

definition demo_ws :: "transport \<Rightarrow> websocket" where
  "demo_ws t = \<lparr>ws_base = t, ws_in = [], ws_end = WsOther ''closed'', ws_out = [], ws_room = None\<rparr>"

definition demo_upgrade :: string where
  "demo_upgrade = ''GET / HTTP/1.1'' @ CRLF @ ''Upgrade: RMBT'' @ CRLF @ CRLF"

lemma demo_head:
  "read_head [] (Plain (demo_duplex (demo_upgrade @ r))) =
     (Ok (as_bytes demo_upgrade), Plain (demo_duplex r))"
proof -
  let ?t = "Plain (demo_duplex (demo_upgrade @ r))"
  have "read_head [] ?t =
      (Ok ([] @ as_bytes demo_upgrade), with_chan ?t ((chan ?t)\<lparr>d_in := as_bytes r\<rparr>))"
  proof (rule read_head_complete)
    show "list_all (\<lambda>k. \<not> bytes_end_with HEAD_END ([] @ take k (as_bytes demo_upgrade)))
        [1..<length (as_bytes demo_upgrade)]"
      by (simp add: demo_upgrade_def as_bytes_def CRLF_def HEAD_END_def bytes_end_with_def upt_rec)
    show "d_in (chan ?t) = as_bytes demo_upgrade @ as_bytes r" by (simp add: demo_duplex_def)
  qed (simp_all add: demo_upgrade_def as_bytes_def CRLF_def HEAD_END_def bytes_end_with_def)
  then show ?thesis by (simp add: demo_duplex_def)
qed

lemma demo_upgrade_facts:
  "from_utf8_lossy (as_bytes demo_upgrade) = demo_upgrade"
  "request_target demo_upgrade = ''/''" "starts_with ''GET '' demo_upgrade"
  "contains ''upgrade: rmbt'' (to_ascii_lowercase demo_upgrade)"
  "\<not> contains ''upgrade: websocket'' (to_ascii_lowercase demo_upgrade)"
proof -
  have "ascii demo_upgrade" by (simp add: demo_upgrade_def CRLF_def)
  then show "from_utf8_lossy (as_bytes demo_upgrade) = demo_upgrade" by (rule from_utf8_lossy_ascii)
qed (simp_all add: demo_upgrade_def CRLF_def request_target_def to_ascii_lowercase_def
    ascii_lower_def contains_def strip_prefix_def starts_with_def char_of_def bit_0)

lemma demo_upgraded:
  "\<exists>t'. detect_and_upgrade C S frs ver branch False keys now
      (Plain (demo_duplex (demo_upgrade @ r))) = (Ok (Rmbt (Raw t')), t') \<and>
     d_in (chan t') = as_bytes r \<and> t_reliable t' \<and>
     t_peer_addr t' = Some (socket_addr_new (V4 (Ipv4Addr 192 0 2 7)) 40000)"
proof -
  have "\<not> ip_matches ''/''" "\<not> version_matches ''/''"
    by (simp_all add: ip_matches_def version_matches_def starts_with_def)
  then show ?thesis
    by (simp add: detect_and_upgrade_def Let_def try_act_def demo_head demo_upgrade_facts
        t_write_all_def on_chan_def d_write_all_def)
      (simp add: demo_duplex_def t_reliable_def t_peer_addr_def)
qed

section \<open>Properties\<close>

text \<open>The number of bytes up to and including the first empty line.\<close>

definition head_length :: "bytes \<Rightarrow> nat \<Rightarrow> bool" where
  "head_length bs n \<longleftrightarrow>
     n \<le> length bs \<and> bytes_end_with HEAD_END (take n bs) \<and>
     list_all (\<lambda>k. \<not> bytes_end_with HEAD_END (take k bs)) [0..<n]"

lemma head_length_reads:
  assumes "head_length (d_in (chan t)) n" and "n \<le> 8193"
  shows "read_head [] t = (Ok (take n (d_in (chan t))), with_chan t ((chan t)\<lparr>d_in := drop n (d_in (chan t))\<rparr>))"
proof -
  define xs where "xs = take n (d_in (chan t))"
  have d: "d_in (chan t) = xs @ drop n (d_in (chan t))" by (simp add: xs_def)
  have xs: "length xs = n" "bytes_end_with HEAD_END ([] @ xs)" using assms(1) by (simp_all add: head_length_def xs_def)
  then have "xs \<noteq> []" by (auto simp: bytes_end_with_def HEAD_END_def)
  moreover have "list_all (\<lambda>k. \<not> bytes_end_with HEAD_END ([] @ take k xs)) [1..<length xs]"
    using assms(1) xs(1) by (auto simp: head_length_def list_all_iff xs_def min_def)
  ultimately have "read_head [] t = (Ok ([] @ xs), with_chan t ((chan t)\<lparr>d_in := drop n (d_in (chan t))\<rparr>))"
    using read_head_complete [OF d _ xs(2)] xs(1) assms(2) by simp
  then show ?thesis by (simp add: xs_def)
qed

lemma head_length_exists:
  assumes "n \<le> length bs" and "bytes_end_with HEAD_END (take n bs)"
  obtains k where "k \<le> n" "head_length bs k"
proof -
  define k where "k = (LEAST k. bytes_end_with HEAD_END (take k bs))"
  have "bytes_end_with HEAD_END (take k bs)" "k \<le> n"
    unfolding k_def using assms(2) by (rule LeastI, rule Least_le)
  moreover have "\<not> bytes_end_with HEAD_END (take j bs)" if "j < k" for j
    using that unfolding k_def by (rule not_less_Least)
  ultimately show thesis using that assms(1) by (auto simp: head_length_def list_all_iff)
qed

text \<open>
  C26: the request head is read exactly. If the client's data have an empty line within the first
  8193 bytes, what is read is the data up to the first one, and what follows it, for instance the
  request body or the first RMBT command, is left unread. Otherwise the read fails, and no more
  than 8193 bytes are taken. Nothing is sent.
\<close>

theorem read_head_exact:
  "case read_head [] t of
     (Ok req, t') \<Rightarrow>
       length req \<le> 8193 \<and> head_length (d_in (chan t)) (length req) \<and>
       req = take (length req) (d_in (chan t)) \<and> d_in (chan t') = drop (length req) (d_in (chan t)) \<and>
       t_sent t' = t_sent t
   | (r, t') \<Rightarrow>
       (\<exists>e. r = Err e) \<and> list_all (\<lambda>n. \<not> head_length (d_in (chan t)) n) [0..<8194] \<and>
       t_unread t \<le> 8193 + t_unread t' \<and> t_sent t' = t_sent t"
proof -
  obtain r t' where h: "read_head [] t = (r, t')" by fastforce
  note b = read_head_bounded [OF h]
  show ?thesis
  proof (cases r)
    case (Ok req)
    with h read_head_Ok [of "[]" t req t'] have q: "d_in (chan t) = req @ d_in (chan t')"
      "bytes_end_with HEAD_END req" "length req \<le> 8193" "t_sent t' = t_sent t" by auto
    then obtain k where k: "k \<le> length req" "head_length (d_in (chan t)) k"
      using head_length_exists [of "length req" "d_in (chan t)"] by auto
    with head_length_reads [OF k(2)] q(3) h Ok have "req = take k (d_in (chan t))" by simp
    with k have "k = length req" by (simp add: head_length_def)
    with k(2) q h Ok show ?thesis by auto
  next
    case (Err e)
    have "\<not> head_length (d_in (chan t)) n" if "n < 8194" for n
      using head_length_reads [of t n] that h Err by auto
    with b h Err show ?thesis by (auto simp: list_all_iff)
  qed (use b in simp)
qed

text \<open>
  C25: a connection becomes an RMBT session only on request: the head is a \<open>GET\<close> that asks for
  an upgrade, is not addressed to \<open>/ip\<close> or \<open>/version\<close>, and the client has got exactly one
  answer, 101, for a WebSocket with the accept key of RFC 6455. The stream continues with what
  follows the head.
\<close>

theorem upgrade_only_on_request:
  assumes "detect_and_upgrade C S frs ver branch hst keys now t = (Ok (Rmbt st), t')"
  shows "\<exists>buf. let req = from_utf8_lossy buf; lower = to_ascii_lowercase req in
     d_in (chan t) = buf @ d_in (chan t') \<and> starts_with ''GET '' req \<and>
     \<not> ip_matches (request_target req) \<and> \<not> version_matches (request_target req) \<and>
     ((\<exists>key. contains ''upgrade: websocket'' lower \<and> st = WebSocket (frs t') \<and>
         find_map websocket_key (str_lines req) = Some key \<and>
         t_sent t' = t_sent t @
           as_bytes (switch_websocket (websocket_accept C key) (hsts_arg hst))) \<or>
      (contains ''upgrade: rmbt'' lower \<and> st = Raw t' \<and>
         t_sent t' = t_sent t @ as_bytes (switch_rmbt (hsts_arg hst))))"
  using detect_and_upgrade_Rmbt [OF assms] unfolding Let_def by blast

theorem upgrade_only_on_request_witness:
  "\<exists>buf t'. detect_and_upgrade demo_crypto demo_serde demo_ws [] [] False [] 0
      (Plain (demo_duplex demo_upgrade)) = (Ok (Rmbt (Raw t')), t') \<and>
     as_bytes demo_upgrade = buf @ d_in (chan t') \<and> starts_with ''GET '' (from_utf8_lossy buf)"
proof -
  obtain t' where t': "detect_and_upgrade demo_crypto demo_serde demo_ws [] [] False [] 0
      (Plain (demo_duplex demo_upgrade)) = (Ok (Rmbt (Raw t')), t')"
    using demo_upgraded [of demo_crypto demo_serde demo_ws "[]" "[]" "[]" 0 "[]"] by auto
  have "d_in (chan (Plain (demo_duplex demo_upgrade))) = as_bytes demo_upgrade"
    by (simp add: demo_duplex_def)
  with upgrade_only_on_request [OF t'] t' show ?thesis unfolding Let_def by auto
qed

end
