(* ===== verification/Rmbt_Events.thy ===== *)
theory Rmbt_Events
  imports Complex_Main Rust_Net Rust_Utf8
begin

text \<open>
  Structured events (\<open>src/src/events.rs\<close>): the accounting of one connection
  (\<open>ConnStats\<close>), the JSON builder, and the syslog frames of the events.

  The counters have their Rust widths and wrap around, as a release build does. An
  \<open>f64\<close> is the rational number it denotes: every value here is a non-negative number far
  from the limits of the format, so each operation is the exact result rounded to 53
  significant bits, ties to even (\<open>f64_round\<close>). The timestamp of a frame is text produced by
  the crate \<open>chrono\<close>: it is the argument \<open>ts\<close> of \<open>emit\<close>.
\<close>

section \<open>Accounting\<close>

record conn_stats =
  download_bytes :: u64
  download_ns :: u128
  upload_bytes :: u64
  upload_ns :: u128
  ping_count :: u32
  ping_min_ns :: u128
  ping_max_ns :: u128
  commands :: u32

definition stats_new :: conn_stats where
  "stats_new =
     \<lparr>download_bytes = 0, download_ns = 0, upload_bytes = 0, upload_ns = 0, ping_count = 0,
      ping_min_ns = - 1, ping_max_ns = 0, commands = 0\<rparr>"

definition add_download :: "u64 \<Rightarrow> u128 \<Rightarrow> conn_stats \<Rightarrow> conn_stats" where
  "add_download n ns s =
     s\<lparr>download_bytes := download_bytes s + n, download_ns := download_ns s + ns\<rparr>"

definition add_upload :: "u64 \<Rightarrow> u128 \<Rightarrow> conn_stats \<Rightarrow> conn_stats" where
  "add_upload n ns s = s\<lparr>upload_bytes := upload_bytes s + n, upload_ns := upload_ns s + ns\<rparr>"

definition add_ping :: "u128 \<Rightarrow> conn_stats \<Rightarrow> conn_stats" where
  "add_ping ns s =
     s\<lparr>ping_count := ping_count s + 1,
       ping_min_ns := (if ns < ping_min_ns s then ns else ping_min_ns s),
       ping_max_ns := (if ns > ping_max_ns s then ns else ping_max_ns s)\<rparr>"

definition count_command :: "conn_stats \<Rightarrow> conn_stats" where
  "count_command s = s\<lparr>commands := commands s + 1\<rparr>"

section \<open>Floating point\<close>

definition round_half_even :: "rat \<Rightarrow> int" where
  "round_half_even q =
     (let f = \<lfloor>q\<rfloor>; r = q - of_int f
      in if r < 1 / 2 then f else if r > 1 / 2 then f + 1 else if even f then f else f + 1)"

text \<open>
  The exponent is searched in the range -1074 to 971 of the format; \<open>e\<close> is it plus 1074.
\<close>

definition f64_round :: "rat \<Rightarrow> rat" where
  "f64_round q =
     (case find (\<lambda>e. 2 ^ 52 \<le> q * 2 ^ 1074 / 2 ^ e \<and> q * 2 ^ 1074 / 2 ^ e < 2 ^ 53) [0..<2046] of
        None \<Rightarrow> 0
      | Some e \<Rightarrow> of_int (round_half_even (q * 2 ^ 1074 / 2 ^ e)) * 2 ^ e / 2 ^ 1074)"

definition f64_of_nat :: "nat \<Rightarrow> rat" where
  "f64_of_nat n = f64_round (of_nat n)"

definition f64_mul :: "rat \<Rightarrow> rat \<Rightarrow> rat" where
  "f64_mul a b = f64_round (a * b)"

definition f64_add :: "rat \<Rightarrow> rat \<Rightarrow> rat" where
  "f64_add a b = f64_round (a + b)"

definition f64_div :: "rat \<Rightarrow> rat \<Rightarrow> rat" where
  "f64_div a b = f64_round (a / b)"

definition ns_to_ms :: "u128 \<Rightarrow> rat" where
  "ns_to_ms ns = f64_div (f64_of_nat (unat ns)) 1000000"

definition mbps :: "u64 \<Rightarrow> u128 \<Rightarrow> rat" where
  "mbps n ns =
     (if ns = 0 then 0
      else f64_div (f64_div (f64_mul (f64_of_nat (unat n)) 8)
                            (f64_div (f64_of_nat (unat ns)) 1000000000)) 1000000)"

text \<open>\<open>Duration::as_secs_f64() * 1000.0\<close> for a duration in nanoseconds.\<close>

definition duration_ms :: "nat \<Rightarrow> rat" where
  "duration_ms ns =
     f64_mul (f64_add (f64_of_nat (ns div 1000000000))
                      (f64_div (f64_of_nat (ns mod 1000000000)) 1000000000)) 1000"

text \<open>\<open>format!("{v:.3}")\<close>\<close>

definition fmt3 :: "rat \<Rightarrow> string" where
  "fmt3 v =
     (let n = nat (round_half_even (v * 1000)); m = n mod 1000
      in nat_to_string (n div 1000) @ ''.'' @
         [digit_char (m div 100), digit_char (m div 10 mod 10), digit_char (m mod 10)])"

section \<open>The JSON builder\<close>

definition escape_char :: "char \<Rightarrow> string" where
  "escape_char c =
     (if c = CHR 0x22 then [CHR 0x5C, CHR 0x22]
      else if c = CHR 0x5C then [CHR 0x5C, CHR 0x5C]
      else if c = CHR 0x0A then [CHR 0x5C, CHR ''n'']
      else if c = CHR 0x0D then [CHR 0x5C, CHR ''r'']
      else if c = CHR 0x09 then [CHR 0x5C, CHR ''t'']
      else if (of_char c :: nat) < 0x20
      then [CHR 0x5C, CHR ''u'', CHR ''0'', CHR ''0'',
            hex_char (of_char c div 16), hex_char (of_char c mod 16)]
      else [c])"

definition json_escape :: "string \<Rightarrow> string" where
  "json_escape s = concat (map escape_char s)"

type_synonym json = string

definition DQ :: string where
  "DQ = [CHR 0x22]"

definition json_new :: json where
  "json_new = ''{''"

definition json_sep :: "json \<Rightarrow> json" where
  "json_sep j = (if ends_with ''{'' j then j else j @ '','')"

definition json_key :: "string \<Rightarrow> json \<Rightarrow> json" where
  "json_key k j = j @ DQ @ json_escape k @ DQ @ '':''"

definition json_str :: "string \<Rightarrow> string \<Rightarrow> json \<Rightarrow> json" where
  "json_str k v j = json_key k (json_sep j) @ DQ @ json_escape v @ DQ"

definition json_int :: "string \<Rightarrow> i64 \<Rightarrow> json \<Rightarrow> json" where
  "json_int k v j = json_key k (json_sep j) @ int_to_string v"

definition json_bool :: "string \<Rightarrow> bool \<Rightarrow> json \<Rightarrow> json" where
  "json_bool k v j = json_key k (json_sep j) @ (if v then ''true'' else ''false'')"

definition json_float :: "string \<Rightarrow> rat \<Rightarrow> json \<Rightarrow> json" where
  "json_float k v j = json_key k (json_sep j) @ fmt3 v"

definition json_done :: "json \<Rightarrow> string" where
  "json_done j = j @ ''}''"

section \<open>The event sink\<close>

record event_sink =
  hostname :: string
  procid :: u32

definition hostname_of :: "string option \<Rightarrow> string option \<Rightarrow> string" where
  "hostname_of HOSTNAME COMPUTERNAME =
     (case (case HOSTNAME of Some h \<Rightarrow> Some h | None \<Rightarrow> COMPUTERNAME) of
        Some h \<Rightarrow> if h = [] then ''-'' else h
      | None \<Rightarrow> ''-'')"

text \<open>
  \<open>EventSink::new\<close>: \<open>bind\<close> and \<open>connect\<close> are the results of the two socket calls.
\<close>

definition sink_bind_addr :: "socket_addr \<Rightarrow> socket_addr" where
  "sink_bind_addr target =
     (if is_ipv4 (sa_ip target) then socket_addr_new (V4 UNSPECIFIED_V4) 0
      else socket_addr_new (V6 UNSPECIFIED_V6) 0)"

definition sink_new ::
    "(socket_addr \<Rightarrow> 'e + unit) \<Rightarrow> (socket_addr \<Rightarrow> 'e + unit) \<Rightarrow> string \<Rightarrow> u32 \<Rightarrow> socket_addr \<Rightarrow>
     'e + event_sink" where
  "sink_new bind connect host pid target =
     (case bind (sink_bind_addr target) of
        Inl e \<Rightarrow> Inl e
      | Inr _ \<Rightarrow>
          (case connect target of
             Inl e \<Rightarrow> Inl e
           | Inr _ \<Rightarrow> Inr \<lparr>hostname = host, procid = pid\<rparr>))"

definition APP_NAME :: string where "APP_NAME = ''rmbtd''"
definition FACILITY :: nat where "FACILITY = 16"
definition SEV_ERR :: nat where "SEV_ERR = 3"
definition SEV_NOTICE :: nat where "SEV_NOTICE = 5"
definition SEV_INFO :: nat where "SEV_INFO = 6"

definition emit :: "event_sink \<Rightarrow> nat \<Rightarrow> string \<Rightarrow> string \<Rightarrow> string \<Rightarrow> string" where
  "emit k severity msgid body ts =
     ''<'' @ nat_to_string (FACILITY * 8 + severity) @ ''>1 '' @ ts @ '' '' @ hostname k @ '' '' @
     APP_NAME @ '' '' @ nat_to_string (unat (procid k)) @ '' '' @ msgid @ '' - '' @ body"

text \<open>\<open>as i64\<close> on an unsigned 64-bit value.\<close>

definition as_i64 :: "u64 \<Rightarrow> i64" where
  "as_i64 w = sint w"

definition usize_as_i64 :: "usize \<Rightarrow> i64" where
  "usize_as_i64 n = sint (of_nat n :: u64)"

definition startup_event ::
    "event_sink \<Rightarrow> string \<Rightarrow> usize \<Rightarrow> usize \<Rightarrow> usize \<Rightarrow> string \<Rightarrow> string" where
  "startup_event k version workers tcp tls =
     emit k SEV_INFO ''lifecycle''
       (json_done
         (json_int ''tls_listeners'' (usize_as_i64 tls)
         (json_int ''tcp_listeners'' (usize_as_i64 tcp)
         (json_int ''workers'' (usize_as_i64 workers)
         (json_str ''version'' version
         (json_str ''event'' ''startup'' json_new))))))"

definition connect_event :: "event_sink \<Rightarrow> usize \<Rightarrow> string \<Rightarrow> bool \<Rightarrow> string \<Rightarrow> string" where
  "connect_event k conn_id client tls =
     emit k SEV_INFO ''connect''
       (json_done
         (json_bool ''tls'' tls
         (json_str ''client'' client
         (json_int ''conn'' (usize_as_i64 conn_id)
         (json_str ''event'' ''connect'' json_new)))))"

definition auth_event ::
    "event_sink \<Rightarrow> usize \<Rightarrow> string \<Rightarrow> string \<Rightarrow> string \<Rightarrow> string \<Rightarrow> string option \<Rightarrow>
     string option \<Rightarrow> string \<Rightarrow> string" where
  "auth_event k conn_id client uuid token_type result label reason =
     (let sev = (if result = ''rejected'' then SEV_NOTICE else SEV_INFO);
          j = json_str ''result'' result
             (json_str ''token'' token_type
             (json_str ''uuid'' uuid
             (json_str ''client'' client
             (json_int ''conn'' (usize_as_i64 conn_id)
             (json_str ''event'' ''auth'' json_new)))));
          j = (case label of Some l \<Rightarrow> json_str ''secret'' l j | None \<Rightarrow> j);
          j = (case reason of Some r \<Rightarrow> json_str ''reason'' r j | None \<Rightarrow> j)
      in emit k sev ''auth'' (json_done j))"

definition close_event ::
    "event_sink \<Rightarrow> usize \<Rightarrow> string \<Rightarrow> string \<Rightarrow> string \<Rightarrow> bool \<Rightarrow> nat \<Rightarrow> conn_stats \<Rightarrow> string \<Rightarrow>
     string \<Rightarrow> string" where
  "close_event k conn_id uuid token_type secret tls duration st end_reason =
     (let j = json_int ''commands'' (uint (commands st))
             (json_float ''duration_ms'' (duration_ms duration)
             (json_str ''end'' end_reason
             (json_bool ''tls'' tls
             (json_str ''secret'' secret
             (json_str ''token'' token_type
             (json_str ''uuid'' uuid
             (json_int ''conn'' (usize_as_i64 conn_id)
             (json_str ''event'' ''close'' json_new))))))));
          j = (if download_bytes st > 0 then
                 json_float ''dl_mbps'' (mbps (download_bytes st) (download_ns st))
                (json_float ''dl_ms'' (ns_to_ms (download_ns st))
                (json_int ''dl_bytes'' (as_i64 (download_bytes st)) j))
               else j);
          j = (if upload_bytes st > 0 then
                 json_float ''ul_mbps'' (mbps (upload_bytes st) (upload_ns st))
                (json_float ''ul_ms'' (ns_to_ms (upload_ns st))
                (json_int ''ul_bytes'' (as_i64 (upload_bytes st)) j))
               else j);
          j = (if ping_count st > 0 then
                 json_float ''ping_max_ms'' (ns_to_ms (ping_max_ns st))
                (json_float ''ping_min_ms'' (ns_to_ms (ping_min_ns st))
                (json_int ''ping_count'' (uint (ping_count st)) j))
               else j)
      in emit k SEV_INFO ''close'' (json_done j))"

definition error_event :: "event_sink \<Rightarrow> string \<Rightarrow> string \<Rightarrow> string \<Rightarrow> string" where
  "error_event k context0 message =
     emit k SEV_ERR ''error''
       (json_done
         (json_str ''message'' message
         (json_str ''context'' context0
         (json_str ''event'' ''error'' json_new))))"

end
