(* ===== verification/Rmbt_Session.thy ===== *)
theory Rmbt_Session
  imports Rmbt_Stream Rmbt_Token Rmbt_Events
begin

text \<open>
  The state of one connection while the protocol runs on it, shared by the greeting and the
  commands (\<open>src/src/protocol\<close>) and by \<open>handle_connection\<close>.

  Besides the stream it holds what the handlers get by \<open>&mut\<close> (\<open>ConnStats\<close>, the negotiated
  chunk size) and what they use of the world: the monotonic clock as the sequence of the
  readings \<open>Instant::now\<close> will return, in nanoseconds (\<open>se_clock\<close>, \<open>se_ticks\<close> counts the
  readings taken); the wall clock (\<open>se_wall\<close>); the seconds slept; the syslog frames emitted
  and the timestamps \<open>chrono\<close> will give them (\<open>se_stamp\<close>). No property of the clocks is
  assumed here; \<open>Instant::elapsed\<close> saturates at 0.
\<close>

section \<open>The state\<close>

record session =
  se_stream :: stream
  se_chunk :: usize
  se_stats :: conn_stats
  se_clock :: "nat \<Rightarrow> nat"
  se_ticks :: nat
  se_wall :: "nat \<Rightarrow> i64"
  se_slept :: nat
  se_stamp :: "nat \<Rightarrow> string"
  se_frames :: "string list"

abbreviation se_unread :: "session \<Rightarrow> nat" where
  "se_unread s \<equiv> stream_unread (se_stream s)"

abbreviation se_sent :: "session \<Rightarrow> bytes" where
  "se_sent s \<equiv> stream_sent (se_stream s)"

definition on_stream :: "(stream, 'a) act \<Rightarrow> (session, 'a) act" where
  "on_stream f s = (case f (se_stream s) of (r, st) \<Rightarrow> (r, s\<lparr>se_stream := st\<rparr>))"

abbreviation se_read_line :: "(session, string) act" where
  "se_read_line \<equiv> on_stream read_line"

abbreviation se_write_line :: "string \<Rightarrow> (session, unit) act" where
  "se_write_line l \<equiv> on_stream (write_line l)"

abbreviation se_write_all :: "bytes \<Rightarrow> (session, unit) act" where
  "se_write_all b \<equiv> on_stream (write_all b)"

abbreviation se_read_exact :: "nat \<Rightarrow> (session, bytes) act" where
  "se_read_exact n \<equiv> on_stream (read_exact n)"

section \<open>Clock, sleep, events\<close>

definition instant_now :: "(session, nat) act" where
  "instant_now s = (Ok (se_clock s (se_ticks s)), s\<lparr>se_ticks := Suc (se_ticks s)\<rparr>)"

definition elapsed :: "nat \<Rightarrow> (session, nat) act" where
  "elapsed start s = (Ok (se_clock s (se_ticks s) - start), s\<lparr>se_ticks := Suc (se_ticks s)\<rparr>)"

definition thread_sleep :: "nat \<Rightarrow> (session, unit) act" where
  "thread_sleep secs s = (Ok (), s\<lparr>se_slept := se_slept s + secs\<rparr>)"

definition on_stats :: "(conn_stats \<Rightarrow> conn_stats) \<Rightarrow> (session, unit) act" where
  "on_stats f s = (Ok (), s\<lparr>se_stats := f (se_stats s)\<rparr>)"

text \<open>\<open>if let Some(s) = sink\<close>: one frame, given the timestamp of the moment.\<close>

definition emit_to :: "event_sink option \<Rightarrow> (event_sink \<Rightarrow> string \<Rightarrow> string) \<Rightarrow> (session, unit) act" where
  "emit_to sink ev s =
     (case sink of
        None \<Rightarrow> (Ok (), s)
      | Some k \<Rightarrow> (Ok (), s\<lparr>se_frames := se_frames s @ [ev k (se_stamp s (length (se_frames s)))]\<rparr>))"

definition frames_with ::
    "event_sink option \<Rightarrow> (event_sink \<Rightarrow> string \<Rightarrow> string) \<Rightarrow> session \<Rightarrow> string list" where
  "frames_with sink ev s =
     se_frames s @
     (case sink of None \<Rightarrow> [] | Some k \<Rightarrow> [ev k (se_stamp s (length (se_frames s)))])"

lemma emit_to_eq [io_simps]: "emit_to sink ev s = (Ok (), s\<lparr>se_frames := frames_with sink ev s\<rparr>)"
  by (simp add: emit_to_def frames_with_def split: option.split)

text \<open>A value computed from the state, such as \<open>stream.peer_addr()\<close>.\<close>

definition observe :: "('s \<Rightarrow> 'a) \<Rightarrow> ('s, 'a) act" where
  "observe f s = (Ok (f s), s)"

definition panic_act :: "string \<Rightarrow> ('s, 'a) act" where
  "panic_act msg s = (Panic msg, s)"

section \<open>The session as a stream\<close>

text \<open>
  \<open>same_world s s'\<close>: nothing but the stream differs. Reads and writes lifted to the session
  have it, and are again a \<open>byte_stream\<close>.
\<close>

definition same_world :: "session \<Rightarrow> session \<Rightarrow> bool" where
  "same_world s s' \<longleftrightarrow> s' = s\<lparr>se_stream := se_stream s'\<rparr>"

lemma on_stream_eq:
  "on_stream f s = (r, s') \<longleftrightarrow> (\<exists>st. f (se_stream s) = (r, st) \<and> s' = s\<lparr>se_stream := st\<rparr>)"
  by (auto simp: on_stream_def split: prod.splits)

lemma same_world_fields [dest]:
  assumes "same_world s s'"
  shows "se_chunk s' = se_chunk s" "se_stats s' = se_stats s" "se_clock s' = se_clock s"
    "se_ticks s' = se_ticks s" "se_wall s' = se_wall s" "se_slept s' = se_slept s"
    "se_stamp s' = se_stamp s" "se_frames s' = se_frames s"
  using assms unfolding same_world_def
  by (metis session.ext_inject session.surjective session.update_convs(1))+

lemma frames_with_same_world: "same_world s s' \<Longrightarrow> frames_with sink ev s' = frames_with sink ev s"
  by (cases sink) (simp_all add: frames_with_def same_world_fields)

lemma on_stream_same_world: "on_stream f s = (r, s') \<Longrightarrow> same_world s s'"
  by (auto simp: on_stream_eq same_world_def)

lemma same_world_trans: "same_world s s' \<Longrightarrow> same_world s' s'' \<Longrightarrow> same_world s s''"
  unfolding same_world_def by (metis session.update_convs(1) session.surjective)

lemma same_world_refl [simp]: "same_world s s"
  by (simp add: same_world_def)

interpretation se: byte_stream se_read_line se_write_all se_read_exact se_unread se_sent
  "\<lambda>s. peer_addr (se_stream s)" ws_clean "\<lambda>s. stream_input (se_stream s)"
  "\<lambda>s. stream_reliable (se_stream s)"
proof (unfold_locales, goal_cases)
  case (1 s l s')
  then show ?case by (auto simp: on_stream_eq dest: st.rd_progress)
next
  case (2 s r s')
  then show ?case by (auto simp: on_stream_eq dest: st.rd_unread)
next
  case (3 s r s')
  then show ?case by (auto simp: on_stream_eq dest: st.rd_frame)
next
  case (4 s p s')
  then show ?case by (auto simp: on_stream_eq st.rd_no_panic)
next
  case (5 d s s')
  then show ?case by (auto simp: on_stream_eq dest: st.wr_sent)
next
  case (6 d s q s')
  then show ?case by (auto simp: on_stream_eq dest: st.wr_frame)
next
  case (7 d s q s')
  then show ?case by (auto simp: on_stream_eq dest: st.wr_prefix)
next
  case (8 d s q s')
  then show ?case by (auto simp: on_stream_eq dest: st.wr_bound)
next
  case (9 d s p s')
  then show ?case by (auto simp: on_stream_eq st.wr_no_panic)
next
  case (10 n s b s')
  then show ?case by (auto simp: on_stream_eq dest: st.rx_length)
next
  case (11 n s b s')
  then show ?case by (auto simp: on_stream_eq dest: st.rx_progress)
next
  case (12 n s v s')
  then show ?case by (auto simp: on_stream_eq dest: st.rx_unread)
next
  case (13 n s v s')
  then show ?case by (auto simp: on_stream_eq dest: st.rx_frame)
next
  case (14 n s p s')
  then show ?case by (auto simp: on_stream_eq st.rx_no_panic)
next
  case (15 s r s' t)
  then show ?case by (auto simp: on_stream_eq dest: st.rd_inp)
next
  case (16 d s q s')
  then show ?case by (auto simp: on_stream_eq dest: st.wr_inp)
next
  case (17 s d)
  from st.wr_reliable [OF this, of d] show ?case by (auto simp: on_stream_def)
next
  case (18 s r s')
  then show ?case by (auto simp: on_stream_eq dest: st.rd_reliable)
next
  case (19 n s v s')
  then show ?case by (auto simp: on_stream_eq dest: st.rx_reliable)
qed

lemma write_line_eq: "se_write_line l = se_write_all (as_bytes l)"
  by (simp add: write_line_def)

text \<open>An ASCII line arrives unchanged on every kind of stream.\<close>

lemma ws_clean_ascii: "ascii l \<Longrightarrow> ws_clean (as_bytes l)"
  by (simp add: ws_clean_def valid_utf8_ascii ascii_bytes)

lemma write_line_sent:
  "se_write_line l s = (Ok (), s') \<Longrightarrow> ascii l \<Longrightarrow> se_sent s' = se_sent s @ as_bytes l"
  unfolding write_line_eq by (rule se.wr_sent) (simp_all add: ws_clean_ascii)

lemma write_line_reliable:
  assumes "stream_reliable (se_stream s)"
  obtains s' where "se_write_line l s = (Ok (), s')" "stream_reliable (se_stream s')"
  using se.wr_reliable [OF assms, of "as_bytes l"] by (auto simp: write_line_eq)

lemma write_line_bound:
  "se_write_line l s = (r, s') \<Longrightarrow> ascii l \<Longrightarrow> prefix (se_sent s') (se_sent s @ as_bytes l)"
  unfolding write_line_eq by (rule se.wr_bound) (simp_all add: ws_clean_ascii)

lemma write_line_world:
  "se_write_line l s = (r, s') \<Longrightarrow>
     same_world s s' \<and> se_unread s' = se_unread s \<and>
     peer_addr (se_stream s') = peer_addr (se_stream s) \<and> (\<forall>p. r \<noteq> Panic p)"
  using se.wr_frame se.wr_no_panic by (metis on_stream_same_world write_line_eq)

section \<open>Operations that may not return\<close>

text \<open>
  A handler with a loop that the clock has to end has type \<open>'a io\<close>: \<open>None\<close> means that it
  never returns.
\<close>

type_synonym 'a io = "session \<Rightarrow> ('a res \<times> session) option"

definition io_of :: "(session, 'a) act \<Rightarrow> 'a io" where
  "io_of m s = Some (m s)"

definition try_io :: "'a io \<Rightarrow> ('a \<Rightarrow> 'b io) \<Rightarrow> 'b io" where
  "try_io m f s =
     (case m s of
        None \<Rightarrow> None
      | Some (Ok a, s') \<Rightarrow> f a s'
      | Some (Err e, s') \<Rightarrow> Some (Err e, s')
      | Some (Panic p, s') \<Rightarrow> Some (Panic p, s'))"

section \<open>What every step of a session does\<close>

text \<open>
  \<open>advances\<close>: input is only consumed, output only appended, the clock only read; the peer and
  the environment stay the same. It is a preorder, so it passes through \<open>try_act\<close>.
  \<open>relates R m\<close> says that \<open>m\<close> relates its states by \<open>R\<close>, \<open>safe I m\<close> that \<open>m\<close> keeps the
  invariant \<open>I\<close> and does not panic where it holds.
\<close>

definition advances :: "session \<Rightarrow> session \<Rightarrow> bool" where
  "advances s s' \<longleftrightarrow>
     se_unread s' \<le> se_unread s \<and> prefix (se_sent s) (se_sent s') \<and>
     peer_addr (se_stream s') = peer_addr (se_stream s) \<and> se_ticks s \<le> se_ticks s' \<and>
     se_clock s' = se_clock s \<and> se_wall s' = se_wall s \<and> se_stamp s' = se_stamp s \<and>
     se_slept s \<le> se_slept s' \<and> prefix (se_frames s) (se_frames s')"

definition relates :: "('s \<Rightarrow> 's \<Rightarrow> bool) \<Rightarrow> ('s, 'a) act \<Rightarrow> bool" where
  "relates R m \<longleftrightarrow> (\<forall>s. R s (snd (m s)))"

definition safe :: "('s \<Rightarrow> bool) \<Rightarrow> ('s, 'a) act \<Rightarrow> bool" where
  "safe I m \<longleftrightarrow> (\<forall>s. I s \<longrightarrow> I (snd (m s)) \<and> (\<forall>p. fst (m s) \<noteq> Panic p))"

lemma relatesD: "relates R m \<Longrightarrow> m s = (r, s') \<Longrightarrow> R s s'"
  by (metis relates_def snd_conv)

lemma relates_apply: "relates R m \<Longrightarrow> R s (snd (m s))"
  by (simp add: relates_def)

lemma safeD: "safe I m \<Longrightarrow> I s \<Longrightarrow> m s = (r, s') \<Longrightarrow> I s' \<and> (\<forall>p. r \<noteq> Panic p)"
  by (metis safe_def fst_conv snd_conv)

lemma relates_try [intro!]:
  assumes "transp R" and "relates R m" and "\<And>a. relates R (f a)"
  shows "relates R (try_act m f)"
  unfolding relates_def
proof
  fix s
  obtain r s' where m: "m s = (r, s')" by fastforce
  then have "R s s'" by (rule relatesD [OF assms(2)])
  moreover have "R s' (snd (f a s'))" for a using assms(3) by (simp add: relates_def)
  ultimately show "R s (snd (try_act m f s))"
    using assms(1) m by (auto simp: try_act_def split: res.splits dest: transpD)
qed

lemma safe_try [intro!]:
  assumes "safe I m" and "\<And>a. safe I (f a)"
  shows "safe I (try_act m f)"
  unfolding safe_def
proof (intro allI impI)
  fix s assume "I s"
  obtain r s' where m: "m s = (r, s')" by fastforce
  have "I s'" and "\<forall>p. r \<noteq> Panic p" using safeD [OF assms(1) \<open>I s\<close> m] by auto
  then show "I (snd (try_act m f s)) \<and> (\<forall>p. fst (try_act m f s) \<noteq> Panic p)"
    using m assms(2) by (cases r) (auto simp: try_act_def safe_def)
qed

lemma relates_if [intro!]: "relates R a \<Longrightarrow> relates R b \<Longrightarrow> relates R (if c then a else b)"
  by simp

lemma safe_if [intro!]: "safe I a \<Longrightarrow> safe I b \<Longrightarrow> safe I (if c then a else b)"
  by simp

lemma advances_refl [simp]: "advances s s"
  by (simp add: advances_def)

lemma transp_advances [simp]: "transp advances"
  by (rule transpI) (auto simp: advances_def intro: prefix_order.trans)

lemma advances_trans [trans]: "advances s s' \<Longrightarrow> advances s' s'' \<Longrightarrow> advances s s''"
  by (rule transpD [OF transp_advances])

lemma same_world_advances:
  "same_world s s' \<Longrightarrow> se_unread s' \<le> se_unread s \<Longrightarrow> prefix (se_sent s) (se_sent s') \<Longrightarrow>
     peer_addr (se_stream s') = peer_addr (se_stream s) \<Longrightarrow> advances s s'"
  by (auto simp: advances_def)

lemma read_line_advances [intro]: "relates advances se_read_line"
  unfolding relates_def
  by (metis eq_snd_iff on_stream_same_world prefix_order.refl same_world_advances se.rd_frame
      se.rd_unread)

lemma write_all_advances [intro]: "relates advances (se_write_all d)"
  unfolding relates_def
  by (metis eq_snd_iff on_stream_same_world same_world_advances se.wr_prefix se.wr_frame
      se.wr_unread)

lemma write_line_advances [intro]: "relates advances (se_write_line l)"
  unfolding write_line_eq by (rule write_all_advances)

lemma read_exact_advances [intro]: "relates advances (se_read_exact n)"
  unfolding relates_def
  by (metis eq_snd_iff on_stream_same_world prefix_order.refl same_world_advances se.rx_frame
      se.rx_unread)

lemma world_advances [intro]:
  "relates advances instant_now" "relates advances (elapsed t)"
  "relates advances (thread_sleep n)" "relates advances (on_stats f)"
  "relates advances (emit_to k ev)" "relates advances (ok_act a)"
  "relates advances (err_act e)" "relates advances (panic_act m)"
  "relates advances (observe f')"
  by (auto simp: relates_def advances_def instant_now_def elapsed_def thread_sleep_def
      on_stats_def emit_to_def ok_act_def err_act_def panic_act_def observe_def
      split: option.splits)

text \<open>An invariant of the rest of the state is kept by input and output.\<close>

lemma stream_safe [intro]:
  assumes "\<And>s s'. I s \<Longrightarrow> same_world s s' \<Longrightarrow> I s'"
  shows "safe I se_read_line" "safe I (se_write_all d)" "safe I (se_write_line l)"
    "safe I (se_read_exact n)"
  unfolding safe_def write_line_eq
  by (metis assms eq_fst_iff eq_snd_iff on_stream_same_world se.rd_no_panic,
      metis assms eq_fst_iff eq_snd_iff on_stream_same_world se.wr_no_panic,
      metis assms eq_fst_iff eq_snd_iff on_stream_same_world se.wr_no_panic,
      metis assms eq_fst_iff eq_snd_iff on_stream_same_world se.rx_no_panic)

end
