(* ===== verification/Rmbt_Greeting.thy ===== *)
theory Rmbt_Greeting
  imports Rmbt_Session
begin

text \<open>
  The greeting and authentication phase (\<open>src/src/protocol/greeting.rs\<close>). The version text of
  the greeting is fixed at build time (\<open>build.rs\<close>) and the parameter \<open>version\<close>; the cryptography
  is the parameter \<open>C\<close>, as in \<open>Rmbt_Token\<close>.
\<close>

section \<open>Definitions\<close>

record greeting =
  g_uuid :: string
  g_token_type :: string
  g_label :: string

fun reject_reason :: "token_result \<Rightarrow> string" where
  "reject_reason InvalidHmac = ''invalid_hmac''"
| "reject_reason InvalidIp = ''invalid_ip''"
| "reject_reason (TooEarly _) = ''too_early''"
| "reject_reason (TooLate _) = ''too_late''"
| "reject_reason ParseError = ''parse_error''"
| "reject_reason V2Required = ''v2_required''"
| "reject_reason (Accepted _ _) = ''accepted''"

text \<open>The loop that skips blank lines: it ends because every line read is input consumed.\<close>

function skip_blank_lines :: "(session, string) act" where
  "skip_blank_lines s =
     (case se_read_line s of
        (Ok l, s') \<Rightarrow> if trim l \<noteq> [] then (Ok l, s') else skip_blank_lines s'
      | (Err e, s') \<Rightarrow> (Err e, s')
      | (Panic p, s') \<Rightarrow> (Panic p, s'))"
  by pat_completeness auto

termination
  by (relation "measure se_unread") (auto dest: se.rd_progress [OF sym])

declare skip_blank_lines.simps [simp del]

definition ERR_LINE :: string where
  "ERR_LINE = ''ERR'' @ [LF]"

definition OK_LINE :: string where
  "OK_LINE = ''OK'' @ [LF]"

definition BYE_LINE :: string where
  "BYE_LINE = ''BYE'' @ [LF]"

definition TOKEN_PROMPT :: string where
  "TOKEN_PROMPT = ''ACCEPT TOKEN QUIT'' @ [LF]"

definition chunksize_line :: string where
  "chunksize_line =
     ''CHUNKSIZE '' @ nat_to_string CHUNK_SIZE @ '' '' @ nat_to_string MIN_CHUNK_SIZE @ '' '' @
     nat_to_string MAX_CHUNK_SIZE @ [LF]"

definition token_uuid :: "string \<Rightarrow> string" where
  "token_uuid t = (case split_char (CHR ''_'') t of u # _ \<Rightarrow> u | [] \<Rightarrow> ''?'')"

definition token_type_of :: "string \<Rightarrow> string" where
  "token_type_of t = (if contains V2_MARK t then ''v2'' else ''v1'')"

text \<open>The match on \<open>validate_token\<close>: the label of the accepted key, or the rejection.\<close>

definition authenticate ::
    "crypto \<Rightarrow> usize \<Rightarrow> config \<Rightarrow> secret_key list \<Rightarrow> event_sink option \<Rightarrow> string \<Rightarrow> string \<Rightarrow>
     (session, string) act" where
  "authenticate C conn_id cfg keys sink client token_value =
     (let uuid = token_uuid token_value; token_type = token_type_of token_value
      in if check_token cfg then
           try_act (observe (\<lambda>s. map_option sa_ip (peer_addr (se_stream s)))) (\<lambda>source_ip.
           try_act (observe (\<lambda>s. validate_token C token_value keys source_ip (v2_only cfg)
                                   (se_wall s))) (\<lambda>result.
           case result of
             Accepted secs label \<Rightarrow>
               try_act (emit_to sink (\<lambda>k. auth_event k conn_id client uuid token_type
                          ''accepted'' (Some label) None)) (\<lambda>_.
               try_act (if secs > 0 then thread_sleep secs else ok_act ()) (\<lambda>_.
               ok_act label))
           | rejected \<Rightarrow>
               try_act (emit_to sink (\<lambda>k. auth_event k conn_id client uuid token_type
                          ''rejected'' None (Some (reject_reason rejected)))) (\<lambda>_.
               try_act (se_write_line ERR_LINE) (\<lambda>_.
               err_act (IoError PermissionDenied ''token rejected'')))))
         else
           try_act (emit_to sink (\<lambda>k. auth_event k conn_id client uuid token_type
                      ''not_checked'' None None)) (\<lambda>_.
           ok_act []))"

definition token_of_line :: "string \<Rightarrow> (session, string) act" where
  "token_of_line line =
     (case strip_prefix ''TOKEN '' line of
        Some rest \<Rightarrow> ok_act (trim rest)
      | None \<Rightarrow>
          if starts_with ''QUIT'' (trim_start line) then
            try_act (se_write_line BYE_LINE) (\<lambda>_.
            err_act (IoError ConnectionAborted ''client sent QUIT before TOKEN''))
          else
            try_act (se_write_line ERR_LINE) (\<lambda>_.
            err_act (IoError InvalidData ''expected TOKEN line'')))"

definition run_greeting ::
    "crypto \<Rightarrow> string \<Rightarrow> usize \<Rightarrow> config \<Rightarrow> secret_key list \<Rightarrow> event_sink option \<Rightarrow> string \<Rightarrow>
     (session, greeting) act" where
  "run_greeting C version conn_id cfg keys sink client =
     try_act (se_write_line (GREETING version)) (\<lambda>_.
     try_act (se_write_line TOKEN_PROMPT) (\<lambda>_.
     try_act skip_blank_lines (\<lambda>line.
     try_act (token_of_line line) (\<lambda>token_value.
     try_act (authenticate C conn_id cfg keys sink client token_value) (\<lambda>label.
     try_act (se_write_line OK_LINE) (\<lambda>_.
     try_act (se_write_line chunksize_line) (\<lambda>_.
     ok_act \<lparr>g_uuid = token_uuid token_value, g_token_type = token_type_of token_value,
             g_label = label\<rparr>)))))))"

lemmas greeting_lines = ERR_LINE_def OK_LINE_def BYE_LINE_def TOKEN_PROMPT_def LF_def

section \<open>The phase as a whole\<close>

lemma skip_blank_lines_advances [intro]: "relates advances skip_blank_lines"
  unfolding relates_def
proof
  fix s show "advances s (snd (skip_blank_lines s))"
  proof (induction s rule: skip_blank_lines.induct)
    case (1 s)
    obtain r s' where r: "se_read_line s = (r, s')" by fastforce
    have "advances s s'" by (rule relatesD [OF read_line_advances r])
    with 1 r show ?case
      by (cases r) (auto simp: skip_blank_lines.simps [of s] intro: advances_trans)
  qed
qed

lemma skip_blank_lines_same:
  "skip_blank_lines s = (r, s') \<Longrightarrow>
     same_world s s' \<and> se_sent s' = se_sent s \<and> (\<forall>p. r \<noteq> Panic p) \<and>
     (\<forall>l. r = Ok l \<longrightarrow> trim l \<noteq> [] \<and> se_unread s' < se_unread s)"
proof (induction s arbitrary: r s' rule: skip_blank_lines.induct)
  case (1 s)
  obtain r1 s1 where r1: "se_read_line s = (r1, s1)" by fastforce
  then have w: "same_world s s1" "se_sent s1 = se_sent s"
    by (auto dest: on_stream_same_world se.rd_frame)
  show ?case
  proof (cases "\<exists>l. r1 = Ok l \<and> trim l = []")
    case True
    then obtain l where l: "r1 = Ok l" "trim l = []" by auto
    with r1 "1.prems" have "skip_blank_lines s1 = (r, s')"
      by (simp add: skip_blank_lines.simps [of s])
    from "1.IH" [OF r1 [symmetric] l(1) _ this] l(2) w se.rd_progress [OF r1 [unfolded l]]
    show ?thesis by (auto intro: same_world_trans)
  next
    case False
    with r1 "1.prems" w se.rd_no_panic [of s] se.rd_progress [of s] show ?thesis
      by (cases r1) (auto simp: skip_blank_lines.simps [of s] split: if_splits)
  qed
qed

lemma token_of_line_advances [intro]: "relates advances (token_of_line l)"
  unfolding token_of_line_def by (auto split: option.split)

lemma authenticate_advances [intro]:
  "relates advances (authenticate C n cfg keys sink client t)"
  unfolding authenticate_def Let_def by (auto split: token_result.split)

lemma run_greeting_advances [intro]:
  "relates advances (run_greeting C version n cfg keys sink client)"
  unfolding run_greeting_def by (intro relates_try) auto

section \<open>The outcome of authentication\<close>

definition source_ip_of :: "session \<Rightarrow> ip_addr option" where
  "source_ip_of s = map_option sa_ip (peer_addr (se_stream s))"

lemma try_act_apply:
  "try_act (emit_to sink ev) f s = f () (s\<lparr>se_frames := frames_with sink ev s\<rparr>)"
  "try_act (observe g) h s = h (g s) s"
  "try_act (ok_act a) h s = h a s"
  "try_act (thread_sleep n) f s = f () (s\<lparr>se_slept := se_slept s + n\<rparr>)"
  by (simp_all add: try_act_def emit_to_eq observe_def ok_act_def thread_sleep_def)

lemma write_then_err:
  assumes "try_act (se_write_line l) (\<lambda>_. err_act e) s = (r, s')" and "ascii l"
  shows "\<exists>e. r = Err e" and "prefix (se_sent s') (se_sent s @ as_bytes l)" and "same_world s s'"
proof -
  obtain r1 s1 where w: "se_write_line l s = (r1, s1)" by fastforce
  have "s' = s1" and "\<exists>e. r = Err e"
    using assms w write_line_world [OF w]
    by (cases r1; auto simp: try_act_def err_act_def)+
  then show "\<exists>e. r = Err e" and "prefix (se_sent s') (se_sent s @ as_bytes l)"
    and "same_world s s'"
    using write_line_bound [OF w assms(2)] write_line_world [OF w] by auto
qed

lemma ascii_lines [simp]: "ascii ERR_LINE" "ascii OK_LINE" "ascii BYE_LINE" "ascii TOKEN_PROMPT"
  by (simp_all add: greeting_lines)

lemma authenticate_cases:
  assumes "authenticate C n cfg keys sink client t s = (r, s')"
  obtains
    (accepted) secs label where "check_token cfg"
      "validate_token C t keys (source_ip_of s) (v2_only cfg) (se_wall s) = Accepted secs label"
      "r = Ok label"
      "s' = s\<lparr>se_frames := frames_with sink (\<lambda>k. auth_event k n client (token_uuid t)
                (token_type_of t) ''accepted'' (Some label) None) s,
              se_slept := se_slept s + secs\<rparr>"
  | (rejected) result e where "check_token cfg" "\<not> is_accepted result"
      "validate_token C t keys (source_ip_of s) (v2_only cfg) (se_wall s) = result"
      "r = Err e" "se_slept s' = se_slept s"
      "prefix (se_sent s') (se_sent s @ as_bytes ERR_LINE)"
      "se_frames s' = frames_with sink (\<lambda>k. auth_event k n client (token_uuid t)
                (token_type_of t) ''rejected'' None (Some (reject_reason result))) s"
  | (not_checked) "\<not> check_token cfg" "r = Ok []"
      "s' = s\<lparr>se_frames := frames_with sink (\<lambda>k. auth_event k n client (token_uuid t)
                (token_type_of t) ''not_checked'' None None) s\<rparr>"
proof (cases "check_token cfg")
  case False
  with assms show thesis
    by (intro not_checked) (simp_all add: authenticate_def Let_def try_act_apply ok_act_def)
next
  case True
  define result where
    "result = validate_token C t keys (source_ip_of s) (v2_only cfg) (se_wall s)"
  show thesis
  proof (cases "is_accepted result")
    case acc: True
    then obtain secs label where l: "result = Accepted secs label"
      by (auto simp: is_accepted_iff)
    show thesis
      by (rule accepted [OF True l [unfolded result_def]])
        (use assms True l in \<open>auto simp: authenticate_def Let_def try_act_apply ok_act_def
           result_def source_ip_of_def split: if_splits\<close>)
  next
    case False
    define s1 where "s1 = s\<lparr>se_frames := frames_with sink (\<lambda>k. auth_event k n client
      (token_uuid t) (token_type_of t) ''rejected'' None (Some (reject_reason result))) s\<rparr>"
    have "try_act (se_write_line ERR_LINE) (\<lambda>_. err_act (IoError PermissionDenied
        ''token rejected'')) s1 = (r, s')"
      using assms True False unfolding s1_def
      by (cases result) (simp_all add: authenticate_def Let_def try_act_apply result_def [symmetric]
          source_ip_of_def [symmetric] del: reject_reason.simps)
    note w = write_then_err [OF this ascii_lines(1)]
    from w(1) obtain e where "r = Err e" by blast
    from w(2,3) show thesis
      by (intro rejected [OF True False result_def [symmetric] \<open>r = Err e\<close>])
        (auto simp: s1_def dest: same_world_fields)
  qed
qed

section \<open>What the client presented\<close>

text \<open>The token of the first line that is not blank, if it is a \<open>TOKEN\<close> line.\<close>

definition presented_token :: "session \<Rightarrow> string option" where
  "presented_token s =
     (case skip_blank_lines s of
        (Ok l, _) \<Rightarrow> map_option trim (strip_prefix ''TOKEN '' l)
      | _ \<Rightarrow> None)"

lemma skip_blank_lines_input:
  "skip_blank_lines s = (r, s') \<Longrightarrow> stream_input (se_stream s) = stream_input (se_stream t) \<Longrightarrow>
     \<exists>t'. skip_blank_lines t = (r, t')"
proof (induction s arbitrary: t r s' rule: skip_blank_lines.induct)
  case (1 s)
  obtain r1 s1 where r1: "se_read_line s = (r1, s1)" by fastforce
  from se.rd_inp [OF this "1.prems"(2)] obtain t1 where
    t1: "se_read_line t = (r1, t1)" "stream_input (se_stream t1) = stream_input (se_stream s1)"
    by blast
  show ?case
  proof (cases "\<exists>l. r1 = Ok l \<and> trim l = []")
    case True
    then obtain l where l: "r1 = Ok l" "trim l = []" by auto
    with r1 "1.prems" have "skip_blank_lines s1 = (r, s')"
      by (simp add: skip_blank_lines.simps [of s])
    from "1.IH" [OF r1 [symmetric] l(1) _ this t1(2) [symmetric]] l t1(1) show ?thesis
      by (simp add: skip_blank_lines.simps [of t])
  next
    case False
    with r1 t1(1) "1.prems" show ?thesis
      by (cases r1)
        (auto simp: skip_blank_lines.simps [of s] skip_blank_lines.simps [of t] split: if_splits)
  qed
qed

lemma presented_token_input:
  assumes "stream_input (se_stream s) = stream_input (se_stream t)"
  shows "presented_token s = presented_token t"
proof -
  obtain r s' where r: "skip_blank_lines s = (r, s')" by fastforce
  with skip_blank_lines_input [OF r assms] show ?thesis
    by (auto simp: presented_token_def split: res.split)
qed

text \<open>A state reached by writes only: the client's input and the world are the same.\<close>

definition only_wrote :: "session \<Rightarrow> session \<Rightarrow> bool" where
  "only_wrote s s' \<longleftrightarrow>
     same_world s s' \<and> stream_input (se_stream s') = stream_input (se_stream s) \<and>
     peer_addr (se_stream s') = peer_addr (se_stream s)"

lemma write_line_only_wrote: "se_write_line l s = (r, s') \<Longrightarrow> only_wrote s s'"
  using write_line_world [of l s r s'] se.wr_inp [of "as_bytes l" s r s']
  by (simp add: only_wrote_def write_line_eq)

lemma only_wrote_trans: "only_wrote s s' \<Longrightarrow> only_wrote s' s'' \<Longrightarrow> only_wrote s s''"
  by (auto simp: only_wrote_def intro: same_world_trans)

abbreviation banner :: "string \<Rightarrow> bytes" where
  "banner version \<equiv> as_bytes (GREETING version @ TOKEN_PROMPT)"

text \<open>The part before the token is known, and the part after it was accepted.\<close>

definition greeting_intro :: "string \<Rightarrow> (session, string) act" where
  "greeting_intro version =
     try_act (se_write_line (GREETING version)) (\<lambda>_.
     try_act (se_write_line TOKEN_PROMPT) (\<lambda>_.
     try_act skip_blank_lines token_of_line))"

definition greeting_outro :: "string \<Rightarrow> string \<Rightarrow> (session, greeting) act" where
  "greeting_outro t label =
     try_act (se_write_line OK_LINE) (\<lambda>_.
     try_act (se_write_line chunksize_line) (\<lambda>_.
     ok_act \<lparr>g_uuid = token_uuid t, g_token_type = token_type_of t, g_label = label\<rparr>))"

lemma try_act_assoc: "try_act (try_act m f) g = try_act m (\<lambda>a. try_act (f a) g)"
  by (rule ext) (auto simp: try_act_def split: prod.splits res.splits)

lemma run_greeting_split:
  "run_greeting C version n cfg keys sink client =
     try_act (greeting_intro version) (\<lambda>t.
     try_act (authenticate C n cfg keys sink client t) (greeting_outro t))"
  by (simp add: run_greeting_def greeting_intro_def greeting_outro_def [abs_def] try_act_assoc)

lemma token_of_line_cases:
  assumes "token_of_line l s = (r, s')"
  obtains (token) t where "map_option trim (strip_prefix ''TOKEN '' l) = Some t" "r = Ok t" "s' = s"
  | (other) e where "strip_prefix ''TOKEN '' l = None" "r = Err e"
      "prefix (se_sent s') (se_sent s @ as_bytes ERR_LINE) \<or>
       prefix (se_sent s') (se_sent s @ as_bytes BYE_LINE)" "same_world s s'"
proof (cases "strip_prefix ''TOKEN '' l")
  case (Some rest)
  with assms that(1) show thesis by (simp add: token_of_line_def ok_act_def)
next
  case None
  have "(\<exists>e. r = Err e) \<and> same_world s s' \<and>
      (prefix (se_sent s') (se_sent s @ as_bytes ERR_LINE) \<or>
       prefix (se_sent s') (se_sent s @ as_bytes BYE_LINE))"
  proof (cases "starts_with ''QUIT'' (trim_start l)")
    case True
    with None assms have "try_act (se_write_line BYE_LINE)
        (\<lambda>_. err_act (IoError ConnectionAborted ''client sent QUIT before TOKEN'')) s = (r, s')"
      by (simp add: token_of_line_def)
    from write_then_err [OF this] show ?thesis by simp
  next
    case False
    with None assms have "try_act (se_write_line ERR_LINE)
        (\<lambda>_. err_act (IoError InvalidData ''expected TOKEN line'')) s = (r, s')"
      by (simp add: token_of_line_def)
    from write_then_err [OF this] show ?thesis by simp
  qed
  with that(2) None show thesis by blast
qed

text \<open>Writing two lines, whatever happens: the output is cut somewhere in them.\<close>

lemma write_two_lines:
  assumes "try_act (se_write_line a) (\<lambda>_. try_act (se_write_line b) f) s = (r, s')"
    and "ascii a" and "ascii b"
  obtains (cut) e where "r = Err e" "prefix (se_sent s') (se_sent s @ as_bytes (a @ b))"
      "only_wrote s s'"
  | (sent) s2 where "f () s2 = (r, s')" "se_sent s2 = se_sent s @ as_bytes (a @ b)"
      "only_wrote s s2"
proof -
  obtain r1 s1 where w1: "se_write_line a s = (r1, s1)" by fastforce
  obtain r2 s2 where w2: "se_write_line b s1 = (r2, s2)" by fastforce
  note o = write_line_only_wrote [OF w1] write_line_only_wrote [OF w2]
  note np = write_line_world [OF w1] write_line_world [OF w2]
  show thesis
  proof (cases r1)
    case (Err e)
    with assms(1) w1 have "r = Err e" "s' = s1" by (simp_all add: try_act_def)
    with write_line_bound [OF w1 assms(2)] o(1) show thesis
      by (intro cut) (auto intro: prefix_order.trans simp flip: append_assoc)
  next
    case (Ok u)
    have s1: "se_sent s1 = se_sent s @ as_bytes a" using write_line_sent w1 Ok assms(2) by simp
    show thesis
    proof (cases r2)
      case (Err e)
      with assms(1) w1 w2 Ok have "r = Err e" "s' = s2" by (simp_all add: try_act_def)
      with write_line_bound [OF w2 assms(3)] s1 only_wrote_trans [OF o] show thesis
        by (intro cut) auto
    next
      case ok2: (Ok u2)
      have "se_sent s2 = se_sent s1 @ as_bytes b" using write_line_sent w2 ok2 assms(3) by simp
      with assms(1) w1 w2 Ok ok2 s1 only_wrote_trans [OF o] show thesis
        by (intro sent) (auto simp: try_act_def)
    next
      case (Panic p)
      with np show thesis by simp
    qed
  next
    case (Panic p)
    with np show thesis by simp
  qed
qed

lemma greeting_intro_cases:
  assumes "greeting_intro version s = (r, s')" and "ascii version"
  obtains (token) t where "r = Ok t" "presented_token s = Some t" "same_world s s'"
      "se_sent s' = se_sent s @ banner version" "source_ip_of s' = source_ip_of s"
  | (refused) e where "r = Err e" "presented_token s = None" "same_world s s'"
      "prefix (se_sent s') (se_sent s @ banner version @ as_bytes ERR_LINE) \<or>
       prefix (se_sent s') (se_sent s @ banner version @ as_bytes BYE_LINE)"
  | (cut) e where "r = Err e" "same_world s s'"
      "prefix (se_sent s') (se_sent s @ banner version)"
proof -
  have g: "ascii (GREETING version)" using assms(2) by (simp add: GREETING_def)
  from assms(1) [unfolded greeting_intro_def] g ascii_lines(4) show thesis
  proof (cases rule: write_two_lines)
    case (cut e)
    then show thesis by (intro that(3)) (auto simp: only_wrote_def)
  next
    case (sent s2)
    obtain r3 s3 where k: "skip_blank_lines s2 = (r3, s3)" by fastforce
    note k' = skip_blank_lines_same [OF k]
    have w: "same_world s s3" "se_sent s3 = se_sent s @ banner version"
      using sent k' by (auto simp: only_wrote_def intro: same_world_trans)
    have "advances s2 s3" using k by (rule relatesD [OF skip_blank_lines_advances])
    then have ip: "source_ip_of s3 = source_ip_of s"
      using sent by (simp add: advances_def source_ip_of_def only_wrote_def)
    have p: "presented_token s = presented_token s2"
      using sent by (intro presented_token_input) (simp add: only_wrote_def)
    show thesis
    proof (cases r3)
      case (Ok l)
      with sent k have "token_of_line l s3 = (r, s')" by (simp add: try_act_def)
      then show thesis
      proof (cases rule: token_of_line_cases)
        case (token t)
        with p k Ok w ip that(1) show thesis by (simp add: presented_token_def)
      next
        case (other e)
        with p k Ok w show thesis
          by (intro that(2) [of e])
            (auto simp: presented_token_def intro: same_world_trans)
      qed
    next
      case (Err e)
      with sent k w show thesis by (intro that(3) [of e]) (auto simp: try_act_def)
    next
      case (Panic p)
      with k' show thesis by simp
    qed
  qed
qed

lemma ascii_chunksize_line [simp]: "ascii chunksize_line"
  by (simp add: chunksize_line_def LF_def ascii_ink nat_to_string_ink)

lemma skip_blank_lines_reliable:
  "skip_blank_lines s = (r, s') \<Longrightarrow> stream_reliable (se_stream s') = stream_reliable (se_stream s)"
proof (induction s arbitrary: r s' rule: skip_blank_lines.induct)
  case (1 s)
  obtain r1 s1 where r1: "se_read_line s = (r1, s1)" by fastforce
  with "1.prems" "1.IH" [OF r1 [symmetric]] se.rd_reliable [OF r1] show ?case
    by (cases r1) (auto simp: skip_blank_lines.simps [of s] split: if_splits)
qed

lemma run_greeting_Ok:
  assumes "run_greeting C version n cfg keys sink client s = (Ok g, s')"
    and "check_token cfg" and "ascii version"
  shows "\<exists>t secs.
     presented_token s = Some t \<and>
     validate_token C t keys (source_ip_of s) (v2_only cfg) (se_wall s) =
       Accepted secs (g_label g) \<and>
     int secs \<le> MAX_ACCEPT_EARLY \<and> se_slept s' = se_slept s + secs \<and>
     g_uuid g = token_uuid t \<and> g_token_type g = token_type_of t \<and>
     se_sent s' = se_sent s @ banner version @ as_bytes (OK_LINE @ chunksize_line) \<and>
     se_frames s' = frames_with sink (\<lambda>k. auth_event k n client (token_uuid t)
       (token_type_of t) ''accepted'' (Some (g_label g)) None) s"
proof -
  from assms(1) obtain t l s1 s2 where
    i: "greeting_intro version s = (Ok t, s1)" and
    a: "authenticate C n cfg keys sink client t s1 = (Ok l, s2)" and
    o: "greeting_outro t l s2 = (Ok g, s')"
    unfolding run_greeting_split by (elim try_act_okE)
  from i assms(3) have t: "presented_token s = Some t" "same_world s s1"
    "se_sent s1 = se_sent s @ banner version" "source_ip_of s1 = source_ip_of s"
    by (cases rule: greeting_intro_cases; simp)+
  have f: "frames_with sink ev s1 = frames_with sink ev s" for ev
    by (rule frames_with_same_world [OF t(2)])
  from a assms(2) obtain secs where
    v: "validate_token C t keys (source_ip_of s) (v2_only cfg) (se_wall s) = Accepted secs l"
    and s2: "s2 = s1\<lparr>se_frames := frames_with sink (\<lambda>k. auth_event k n client (token_uuid t)
                (token_type_of t) ''accepted'' (Some l) None) s,
              se_slept := se_slept s + secs\<rparr>"
    using t f same_world_fields [OF t(2)] by (cases rule: authenticate_cases) auto
  from o [unfolded greeting_outro_def] ascii_lines(2) ascii_chunksize_line show ?thesis
  proof (cases rule: write_two_lines)
    case (sent s3)
    then have "s' = s3" "g = \<lparr>g_uuid = token_uuid t, g_token_type = token_type_of t, g_label = l\<rparr>"
      by (simp_all add: ok_act_def)
    with sent s2 v t validate_token_sleep [OF v] show ?thesis
      by (auto simp: only_wrote_def dest: same_world_fields)
  qed simp
qed

lemma greeting_intro_reliable:
  assumes "presented_token s = Some t" and "stream_reliable (se_stream s)"
  shows "\<exists>s'. greeting_intro version s = (Ok t, s') \<and> stream_reliable (se_stream s') \<and>
     same_world s s' \<and> source_ip_of s' = source_ip_of s"
proof -
  obtain s1 where s1: "se_write_line (GREETING version) s = (Ok (), s1)"
    "stream_reliable (se_stream s1)" using assms(2) by (rule write_line_reliable)
  obtain s2 where s2: "se_write_line TOKEN_PROMPT s1 = (Ok (), s2)"
    "stream_reliable (se_stream s2)" using s1(2) by (rule write_line_reliable)
  have o: "only_wrote s s2"
    using s1 s2 by (blast intro: only_wrote_trans write_line_only_wrote)
  then have "presented_token s2 = Some t"
    using assms(1) presented_token_input [of s2 s] by (simp add: only_wrote_def)
  then obtain l s3 where l: "skip_blank_lines s2 = (Ok l, s3)" "token_of_line l s3 = (Ok t, s3)"
    by (auto simp: presented_token_def token_of_line_def ok_act_def split: prod.splits res.splits)
  have "greeting_intro version s = (Ok t, s3)"
    using s1 s2 l by (simp add: greeting_intro_def try_act_def)
  moreover have "stream_reliable (se_stream s3) = stream_reliable (se_stream s2)"
    using l(1) by (rule skip_blank_lines_reliable)
  moreover have "same_world s s3"
    using o skip_blank_lines_same [OF l(1)] by (auto simp: only_wrote_def intro: same_world_trans)
  moreover have "advances s2 s3" using l(1) by (rule relatesD [OF skip_blank_lines_advances])
  ultimately show ?thesis
    using o s2 by (simp add: advances_def source_ip_of_def only_wrote_def)
qed

lemma greeting_reaches_ok:
  assumes "presented_token s = Some t" and "stream_reliable (se_stream s)"
    and "check_token cfg \<Longrightarrow>
      is_accepted (validate_token C t keys (source_ip_of s) (v2_only cfg) (se_wall s))"
  shows "\<exists>g s'. run_greeting C version n cfg keys sink client s = (Ok g, s') \<and>
     g_uuid g = token_uuid t \<and> g_token_type g = token_type_of t"
proof -
  from greeting_intro_reliable [OF assms(1,2)] obtain s1 where
    i: "greeting_intro version s = (Ok t, s1)" "stream_reliable (se_stream s1)"
       "same_world s s1" "source_ip_of s1 = source_ip_of s" by blast
  obtain r2 s2 where a: "authenticate C n cfg keys sink client t s1 = (r2, s2)" by fastforce
  then obtain l where "r2 = Ok l" "se_stream s2 = se_stream s1"
    by (cases rule: authenticate_cases)
      (use assms(3) i same_world_fields [OF i(3)] in auto)
  then obtain s3 where s3: "se_write_line OK_LINE s2 = (Ok (), s3)"
    "stream_reliable (se_stream s3)" using write_line_reliable i(2) by metis
  then obtain s4 where s4: "se_write_line chunksize_line s3 = (Ok (), s4)"
    using write_line_reliable by metis
  have "run_greeting C version n cfg keys sink client s =
      (Ok \<lparr>g_uuid = token_uuid t, g_token_type = token_type_of t, g_label = l\<rparr>, s4)"
    using i(1) a \<open>r2 = Ok l\<close> s3 s4
    by (simp add: run_greeting_split greeting_outro_def try_act_def ok_act_def)
  then show ?thesis by simp
qed

lemma not_ink_line_ends: "\<not> ink LF" "\<not> ink CR"
  by (simp_all add: ink_def LF_def CR_def)

text \<open>A \<open>TOKEN\<close> line at the front of a raw stream is what the client presented.\<close>

lemma presented_token_raw:
  assumes "se_stream s = Raw t" and "d_in (chan t) = as_bytes (''TOKEN '' @ tok @ [LF]) @ rest"
    and "\<And>c. c \<in> set tok \<Longrightarrow> ink c" and "tok \<noteq> []" and "length tok \<le> 1000"
  shows "presented_token s = Some tok"
proof -
  have n: "LF \<notin> set tok" "CR \<notin> set tok" using assms(3) not_ink_line_ends by blast+
  have "read_line (Raw t) = (Ok (''TOKEN '' @ tok), Raw (with_chan t ((chan t)\<lparr>d_in := rest\<rparr>)))"
  proof (rule read_line_Raw)
    show "valid_utf8 (as_bytes (''TOKEN '' @ tok))"
      using assms(3) by (intro valid_utf8_ascii ballI ascii_bytes [of "''TOKEN '' @ tok"])
        (simp_all add: ascii_ink)
    show "''TOKEN '' @ tok = [] \<or> last (''TOKEN '' @ tok) \<noteq> CR"
      using n assms(4) by (metis last_appendR last_in_set)
  qed (use assms(2,5) n in \<open>auto simp: LF_def MAX_LINE_LENGTH_def\<close>)
  then have "se_read_line s = (Ok (''TOKEN '' @ tok), s\<lparr>se_stream := Raw (with_chan t ((chan t)\<lparr>d_in := rest\<rparr>))\<rparr>)"
    by (simp add: on_stream_def assms(1))
  moreover have "trim (''TOKEN '' @ tok) = ''TOKEN '' @ tok"
    using assms(3,4) by (intro trim_ink) (simp_all add: ink_def)
  moreover have "trim tok = tok" using assms(3,4) by (intro trim_ink) simp_all
  moreover have "strip_prefix ''TOKEN '' (''TOKEN '' @ tok) = Some tok"
    by (rule strip_prefix_append)
  ultimately show ?thesis
    by (simp add: presented_token_def skip_blank_lines.simps [of s])
qed

subsection \<open>A concrete client\<close>

definition demo_session :: "string \<Rightarrow> session" where
  "demo_session inp =
     \<lparr>se_stream = Raw (Plain (demo_duplex inp)), se_chunk = CHUNK_SIZE, se_stats = stats_new,
      se_clock = (\<lambda>i. 1000 * i), se_ticks = 0, se_wall = (\<lambda>_. 1700000000), se_slept = 0,
      se_stamp = (\<lambda>_. ''2024-01-01T00:00:00.000000Z''), se_frames = []\<rparr>"

definition demo_token :: string where
  "demo_token = make_test_token demo_crypto (sk_key demo_key) demo_uuid 1700000007
     (V4 (Ipv4Addr 192 0 2 7))"

lemma demo_enc_ink: "c \<in> set (demo_enc bs) \<Longrightarrow> ink c"
proof (induction bs)
  case (Cons b bs)
  have "unat b div 16 < 16" using unat_u8_less [of b] by simp
  with Cons show ?case by (auto simp: demo_enc_def of_char_of ink_def Let_def)
qed (simp add: demo_enc_def)

lemma length_demo_enc: "length (demo_enc bs) = 2 * length bs"
  by (induction bs) (simp_all add: demo_enc_def)

lemma demo_token_ink: "c \<in> set demo_token \<Longrightarrow> ink c"
proof -
  have "ink c" if "c \<in> set demo_uuid" for c
    using that by (auto simp: demo_uuid_def ink_def)
  moreover have "b64_encode demo_crypto = demo_enc" by (simp add: demo_crypto_def)
  ultimately show "c \<in> set demo_token \<Longrightarrow> ink c"
    by (auto simp: demo_token_def make_test_token_def make_v1_def hmac_sha1_b64_def Let_def
        dest: demo_enc_ink int_to_string_ink) (simp_all add: ink_def)
qed

lemma length_demo_token: "length demo_token \<le> 1000"
proof -
  have "b64_encode demo_crypto = demo_enc" "hmac_sha1_raw demo_crypto = (@)"
    by (simp_all add: demo_crypto_def fun_eq_iff)
  moreover have "length (int_to_string 1700000007) = 10"
    by (simp add: int_to_string_def nat_to_string.simps)
  ultimately show ?thesis
    by (simp add: demo_token_def make_test_token_def make_v1_def hmac_sha1_b64_def Let_def
        length_demo_enc demo_uuid_ok demo_crypto_laws demo_key_def)
qed

lemma demo_token_not_Nil: "demo_token \<noteq> []"
  by (simp add: demo_token_def make_test_token_def)

lemma demo_presented: "presented_token (demo_session (''TOKEN '' @ demo_token @ [LF])) = Some demo_token"
proof (rule presented_token_raw [where rest = "[]" and
      t = "Plain (demo_duplex (''TOKEN '' @ demo_token @ [LF]))"])
  show "demo_token \<noteq> []" by (rule demo_token_not_Nil)
qed (simp_all add: demo_session_def demo_duplex_def demo_token_ink length_demo_token)

lemma demo_accepted:
  "validate_token demo_crypto demo_token [demo_key]
     (source_ip_of (demo_session inp)) False (se_wall (demo_session inp)) = Accepted 7 ''production''"
proof -
  have "source_ip_of (demo_session inp) = Some (V4 (Ipv4Addr 192 0 2 7))"
    by (simp add: source_ip_of_def demo_session_def demo_duplex_def t_peer_addr_def)
  moreover have "ip_hash_ok demo_crypto (make_v2_bytes demo_crypto (sk_key demo_key) 1700000007
      (V4 (Ipv4Addr 192 0 2 7))) demo_key (mapped_ipv6 (V4 (Ipv4Addr 192 0 2 7)))"
    by (simp add: ip_hash_ok_def make_v2_bytes_parts [OF demo_crypto_laws])
  moreover have "time_window 1700000007 1700000000 (sk_label demo_key) = Accepted 7 ''production''"
    by (simp add: time_window_Accepted demo_key_def MAX_ACCEPT_EARLY_def MAX_ACCEPT_LATE_def)
  moreover have "se_wall (demo_session inp) = (\<lambda>_. 1700000000)" by (simp add: demo_session_def)
  ultimately show ?thesis
    using validate_token_issued [of demo_crypto demo_uuid demo_key 1700000007
        "V4 (Ipv4Addr 192 0 2 7)" "[demo_key]"]
      demo_crypto_laws demo_uuid_ok time_hash_ok_make [OF demo_crypto_laws]
      reconstruct_time_unique [of 1700000007 1700000000]
    by (simp add: demo_token_def)
qed

lemma demo_greeting:
  obtains g s' where "run_greeting demo_crypto ''1.3.5'' 1 config_default [demo_key] None ''client''
      (demo_session (''TOKEN '' @ demo_token @ [LF])) = (Ok g, s')"
proof -
  have "stream_reliable (se_stream (demo_session inp))" for inp
    by (simp add: demo_session_def demo_duplex_def t_reliable_def)
  moreover have "v2_only config_default = False" by (simp add: config_default_def)
  ultimately show thesis
    using greeting_reaches_ok [OF demo_presented, of config_default demo_crypto "[demo_key]"] that
    by (metis demo_accepted is_accepted.simps(1))
qed

lemma no_keys_no_token: "\<not> is_accepted (validate_token C t [] src v2o wall)"
  by (auto simp: validate_token_def validate_v1_def validate_v2_def match_v1_def
      authenticate_v2_def Let_def split: option.splits list.splits)

section \<open>Properties\<close>

text \<open>
  C1: the authentication gate. When tokens are checked, the greeting succeeds only if the token
  the client presented is accepted for the client's own address; the client is then told \<open>OK\<close>
  and the chunk sizes, the greeting carries the uuid, version and key label of that token, the
  thread has slept for the seconds the token was early (20 at most), and one \<open>accepted\<close>
  event was sent.
\<close>

theorem greeting_success:
  assumes "run_greeting C version n cfg keys sink client s = (Ok g, s')"
    and "check_token cfg" and "ascii version"
  shows "\<exists>t secs.
     presented_token s = Some t \<and>
     validate_token C t keys (source_ip_of s) (v2_only cfg) (se_wall s) =
       Accepted secs (g_label g) \<and>
     int secs \<le> MAX_ACCEPT_EARLY \<and> se_slept s' = se_slept s + secs \<and>
     g_uuid g = token_uuid t \<and> g_token_type g = token_type_of t \<and>
     se_sent s' = se_sent s @ banner version @ as_bytes (OK_LINE @ chunksize_line) \<and>
     se_frames s' = frames_with sink (\<lambda>k. auth_event k n client (token_uuid t)
       (token_type_of t) ''accepted'' (Some (g_label g)) None) s"
  by (rule run_greeting_Ok [OF assms])

theorem greeting_success_witness:
  "\<exists>g s'. run_greeting demo_crypto ''1.3.5'' 1 config_default [demo_key] None ''client''
            (demo_session (''TOKEN '' @ demo_token @ [LF])) = (Ok g, s') \<and>
     g_label g = ''production'' \<and> se_slept s' = 7 \<and>
     se_sent s' = banner ''1.3.5'' @ as_bytes (OK_LINE @ chunksize_line)"
proof -
  obtain g s' where r: "run_greeting demo_crypto ''1.3.5'' 1 config_default [demo_key] None
      ''client'' (demo_session (''TOKEN '' @ demo_token @ [LF])) = (Ok g, s')"
    by (rule demo_greeting)
  have "se_slept (demo_session inp) = 0" "se_sent (demo_session inp) = []" for inp
    by (simp_all add: demo_session_def demo_duplex_def t_sent_def)
  moreover have "check_token config_default" "\<not> v2_only config_default" "ascii ''1.3.5''"
    by (simp_all add: config_default_def)
  ultimately show ?thesis
    using greeting_success [OF r] r demo_presented by (auto simp: demo_accepted)
qed

text \<open>
  C18: refusal. When tokens are checked and the greeting does not succeed, it ends in an error
  and no panic; unless the presented token is accepted, the client has got no more than the
  banner followed by \<open>ERR\<close> or \<open>BYE\<close>, never the \<open>OK\<close> that opens the command phase.
\<close>

theorem greeting_refusal:
  assumes "run_greeting C version n cfg keys sink client s = (r, s')"
    and "check_token cfg" and "ascii version"
    and "\<And>t. presented_token s = Some t \<Longrightarrow>
      \<not> is_accepted (validate_token C t keys (source_ip_of s) (v2_only cfg) (se_wall s))"
  shows "(\<exists>e. r = Err e) \<and> se_slept s' = se_slept s \<and>
     (prefix (se_sent s') (se_sent s @ banner version @ as_bytes ERR_LINE) \<or>
      prefix (se_sent s') (se_sent s @ banner version @ as_bytes BYE_LINE))"
proof -
  obtain r1 s1 where i: "greeting_intro version s = (r1, s1)" by fastforce
  from i assms(3) show ?thesis
  proof (cases rule: greeting_intro_cases)
    case (token t)
    obtain r2 s2 where a: "authenticate C n cfg keys sink client t s1 = (r2, s2)" by fastforce
    note w = same_world_fields [OF token(3)]
    from a show ?thesis
    proof (cases rule: authenticate_cases)
      case (rejected result e)
      moreover from this have "r = Err e" "s' = s2"
        using assms(1) i a token by (simp_all add: run_greeting_split try_act_def)
      ultimately show ?thesis using token w by simp
    qed (use assms token w in simp_all)
  next
    case (refused e)
    then have "r = Err e" "s' = s1" using assms(1) i by (simp_all add: run_greeting_split try_act_def)
    with refused show ?thesis by (auto dest: same_world_fields)
  next
    case (cut e)
    then have "r = Err e" "s' = s1" using assms(1) i by (simp_all add: run_greeting_split try_act_def)
    moreover from cut(3) have "prefix (se_sent s1) ((se_sent s @ banner version) @ as_bytes ERR_LINE)"
      by (rule prefix_prefix)
    ultimately show ?thesis using same_world_fields [OF cut(2)] by simp
  qed
qed

theorem greeting_refusal_witness:
  "\<exists>e. fst (run_greeting demo_crypto ''1.3.5'' 1 config_default [] None ''client''
             (demo_session (''TOKEN '' @ demo_token @ [LF]))) = Err e"
proof -
  have "check_token config_default" "ascii ''1.3.5''" by (simp_all add: config_default_def)
  then show ?thesis
    using greeting_refusal [OF prod.collapse [symmetric]] no_keys_no_token by blast
qed

text \<open>
  C19: completeness of the gate. A client whose token is accepted, on a stream that can be
  written to, always gets through the greeting.
\<close>

theorem greeting_completes:
  assumes "presented_token s = Some t" and "stream_reliable (se_stream s)"
    and "check_token cfg \<Longrightarrow>
      is_accepted (validate_token C t keys (source_ip_of s) (v2_only cfg) (se_wall s))"
  shows "\<exists>g s'. run_greeting C version n cfg keys sink client s = (Ok g, s') \<and>
     g_uuid g = token_uuid t \<and> g_token_type g = token_type_of t"
  by (rule greeting_reaches_ok [OF assms])

theorem greeting_completes_witness:
  "\<exists>g s'. run_greeting demo_crypto ''1.3.5'' 1 config_default [demo_key] None ''client''
            (demo_session (''TOKEN '' @ demo_token @ [LF])) = (Ok g, s') \<and>
     g_uuid g = token_uuid demo_token \<and> g_token_type g = token_type_of demo_token"
  by (rule greeting_completes)
    (simp_all add: demo_presented demo_accepted config_default_def del: append.simps,
     simp_all add: demo_session_def demo_duplex_def t_reliable_def)

end
