(* ===== verification/Rmbt_Commands.thy ===== *)
theory Rmbt_Commands
  imports Rmbt_Greeting
begin

text \<open>
  The command phase (\<open>src/src/protocol/commands.rs\<close>): the download commands \<open>GETTIME\<close> and
  \<open>GETCHUNKS\<close>, the upload commands \<open>PUT\<close> and \<open>PUTNORESULT\<close>, \<open>PING\<close>, and the dispatch loop.
  Durations are nanoseconds as natural numbers (a \<open>Duration\<close> is below \<open>2 ^ 94\<close> of them, so
  \<open>u128\<close> and \<open>i128\<close> hold it exactly); byte counters are 64-bit words.

  The locale \<open>command_handler\<close> is what the dispatch loop relies on; it is interpreted for each
  of the handlers and for the dispatcher.
\<close>

section \<open>Shared parts of the handlers\<close>

definition ACCEPT_LINE :: string where
  "ACCEPT_LINE = ''ACCEPT GETCHUNKS GETTIME PUT PUTNORESULT PING QUIT'' @ [LF]"

definition parse_chunk_size :: "string \<Rightarrow> usize \<Rightarrow> usize option" where
  "parse_chunk_size s mx =
     (case parse_usize s of
        None \<Rightarrow> None
      | Some n \<Rightarrow> if n < MIN_CHUNK_SIZE \<or> n > mx then None else Some n)"

definition set_chunk :: "usize \<Rightarrow> (session, unit) act" where
  "set_chunk n s = (Ok (), s\<lparr>se_chunk := n\<rparr>)"

text \<open>The optional chunk size argument: \<open>False\<close> when it was refused with \<open>ERR\<close>.\<close>

definition chunk_arg :: "string \<Rightarrow> usize \<Rightarrow> (session, bool) act" where
  "chunk_arg arg mx =
     (if arg \<noteq> [] then
        (case parse_chunk_size arg mx of
           Some cs \<Rightarrow> try_act (set_chunk cs) (\<lambda>_. ok_act True)
         | None \<Rightarrow> try_act (se_write_line ERR_LINE) (\<lambda>_. ok_act False))
      else ok_act True)"

text \<open>\<open>RANDOM_CHUNK[..*chunk_size].to_vec()\<close> and \<open>*buf.last_mut().unwrap() = v\<close>\<close>

definition random_buf :: "(bytes \<Rightarrow> bytes) \<Rightarrow> (session, bytes) act" where
  "random_buf fill s =
     (if se_chunk s \<le> length (RANDOM_CHUNK fill)
      then (Ok (take (se_chunk s) (RANDOM_CHUNK fill)), s)
      else (Panic ''range end index out of range'', s))"

definition mark_last :: "u8 \<Rightarrow> bytes \<Rightarrow> (session, bytes) act" where
  "mark_last v buf =
     (if buf = [] then panic_act ''called unwrap on a None value''
      else ok_act (butlast buf @ [v]))"

definition time_line :: "nat \<Rightarrow> string" where
  "time_line ns = ''TIME '' @ nat_to_string ns @ [LF]"

text \<open>The end of a download: the client's \<open>OK\<close>, then the total time.\<close>

definition await_ok :: "(session, unit) act \<Rightarrow> (session, unit) act" where
  "await_ok k =
     try_act se_read_line (\<lambda>ack. if trim ack \<noteq> ''OK'' then se_write_line ERR_LINE else k)"

definition report_time :: "nat \<Rightarrow> (session, unit) act" where
  "report_time start = try_act (elapsed start) (\<lambda>ns. se_write_line (time_line ns))"

section \<open>GETTIME\<close>

definition gettime_step :: "nat \<Rightarrow> nat \<Rightarrow> bytes \<Rightarrow> (session, bool \<times> bytes \<times> u64) act" where
  "gettime_step start max_ns buf =
     try_act (elapsed start) (\<lambda>elapsed_ns.
     let terminal = (elapsed_ns \<ge> max_ns) in
     try_act (mark_last (if terminal then 0xFF else 0x00) buf) (\<lambda>buf.
     try_act (se_write_all buf) (\<lambda>_.
     try_act (observe se_chunk) (\<lambda>cs. ok_act (terminal, buf, of_nat cs)))))"

partial_function (option) gettime_loop ::
    "nat \<Rightarrow> nat \<Rightarrow> bytes \<Rightarrow> u64 \<Rightarrow> session \<Rightarrow> (u64 res \<times> session) option" where
  "gettime_loop start max_ns buf bytes_sent s =
     (case gettime_step start max_ns buf s of
        (Ok (terminal, buf', n), s') \<Rightarrow>
          if terminal then Some (Ok (bytes_sent + n), s')
          else gettime_loop start max_ns buf' (bytes_sent + n) s'
      | (Err e, s') \<Rightarrow> Some (Err e, s')
      | (Panic p, s') \<Rightarrow> Some (Panic p, s'))"

definition handle_gettime ::
    "(bytes \<Rightarrow> bytes) \<Rightarrow> string \<Rightarrow> string \<Rightarrow> usize \<Rightarrow> unit io" where
  "handle_gettime fill arg_secs arg_chunk max_chunk_size =
     try_io (io_of (chunk_arg arg_chunk max_chunk_size)) (\<lambda>go.
     if \<not> go then io_of (ok_act ())
     else
       (case parse_u32 arg_secs of
          Some seconds \<Rightarrow>
            if seconds > 0 \<and> seconds \<le> MAX_SECONDS then
              try_io (io_of instant_now) (\<lambda>start.
              try_io (io_of (random_buf fill)) (\<lambda>buf.
              try_io (gettime_loop start (seconds * 1000000000) buf 0) (\<lambda>bytes_sent.
              io_of (try_act (elapsed start) (\<lambda>ns.
                     try_act (on_stats (add_download bytes_sent (of_nat ns))) (\<lambda>_.
                     await_ok (report_time start)))))))
            else io_of (se_write_line ERR_LINE)
        | None \<Rightarrow> io_of (se_write_line ERR_LINE)))"

section \<open>GETCHUNKS\<close>

function getchunks_loop :: "nat \<Rightarrow> nat \<Rightarrow> bytes \<Rightarrow> (session, unit) act" where
  "getchunks_loop i count buf =
     (if i \<le> count then
        try_act (mark_last (if i = count then 0xFF else 0x00) buf) (\<lambda>buf'.
        try_act (se_write_all buf') (\<lambda>_.
        getchunks_loop (Suc i) count buf'))
      else ok_act ())"
  by pat_completeness auto

termination
  by (relation "measure (\<lambda>(i, count, _). Suc count - i)") auto

declare getchunks_loop.simps [simp del]

definition handle_getchunks ::
    "(bytes \<Rightarrow> bytes) \<Rightarrow> string \<Rightarrow> string \<Rightarrow> usize \<Rightarrow> (session, unit) act" where
  "handle_getchunks fill arg_count arg_chunk max_chunk_size =
     try_act (chunk_arg arg_chunk max_chunk_size) (\<lambda>go.
     if \<not> go then ok_act ()
     else
       (case parse_u32 arg_count of
          Some count \<Rightarrow>
            if count > 0 \<and> count \<le> MAX_CHUNKS then
              try_act instant_now (\<lambda>start.
              try_act (random_buf fill) (\<lambda>buf.
              try_act (getchunks_loop 1 count buf) (\<lambda>_.
              try_act (observe se_chunk) (\<lambda>cs.
              try_act (elapsed start) (\<lambda>ns.
              try_act (on_stats (add_download (of_nat count * of_nat cs) (of_nat ns))) (\<lambda>_.
              await_ok (report_time start)))))))
            else se_write_line ERR_LINE
        | None \<Rightarrow> se_write_line ERR_LINE))"

section \<open>PUT and PUTNORESULT\<close>

definition bytes_line :: "int \<Rightarrow> u64 \<Rightarrow> string" where
  "bytes_line ns total_bytes =
     ''TIME '' @ int_to_string ns @ '' BYTES '' @ 
     nat_to_string (unat total_bytes) @ [LF]"

definition put_report :: "bool \<Rightarrow> nat \<Rightarrow> u64 \<Rightarrow> int \<Rightarrow> (session, int) act" where
  "put_report send_intermediate start total_bytes last_report_ns =
     (if send_intermediate then
        try_act (elapsed start) (\<lambda>ns.
        let elapsed_ns = int ns in
        if last_report_ns < 0 \<or> elapsed_ns - last_report_ns \<ge> 1000000 then
          try_act (se_write_line (bytes_line elapsed_ns total_bytes)) (\<lambda>_. ok_act elapsed_ns)
        else ok_act last_report_ns)
      else ok_act last_report_ns)"

definition put_step :: "bool \<Rightarrow> nat \<Rightarrow> u64 \<Rightarrow> int \<Rightarrow> (session, u64 \<times> int \<times> bool) act" where
  "put_step send_intermediate start total_bytes last_report_ns =
     try_act (observe se_chunk) (\<lambda>cs.
     try_act (se_read_exact cs) (\<lambda>buf.
     if cs = 0 then panic_act ''index out of bounds''
     else
       (let total_bytes = total_bytes + of_nat cs; last_byte = buf ! (cs - 1) in
        try_act (put_report send_intermediate start total_bytes last_report_ns) (\<lambda>last_report_ns.
        ok_act (total_bytes, last_report_ns, last_byte = 0xFF)))))"

lemma put_report_unread: "put_report b st t l s = (r, s') \<Longrightarrow> se_unread s' \<le> se_unread s"
proof -
  have "relates advances (put_report b st t l)"
    unfolding put_report_def Let_def by auto
  then show "put_report b st t l s = (r, s') \<Longrightarrow> se_unread s' \<le> se_unread s"
    by (auto simp: advances_def dest: relatesD)
qed

lemma put_step_progress: "put_step b st t l s = (Ok v, s') \<Longrightarrow> se_unread s' < se_unread s"
  unfolding put_step_def
  by (elim try_act_okE)
    (auto simp: observe_def panic_act_def ok_act_def Let_def split: if_splits elim!: try_act_okE
      dest!: put_report_unread se.rx_progress)

function put_loop :: "bool \<Rightarrow> nat \<Rightarrow> u64 \<Rightarrow> int \<Rightarrow> (session, u64) act" where
  "put_loop send_intermediate start total_bytes last_report_ns s =
     (case put_step send_intermediate start total_bytes last_report_ns s of
        (Ok (total_bytes', last', finished), s') \<Rightarrow>
          if finished then (Ok total_bytes', s')
          else put_loop send_intermediate start total_bytes' last' s'
      | (Err e, s') \<Rightarrow> (Err e, s')
      | (Panic p, s') \<Rightarrow> (Panic p, s'))"
  by pat_completeness auto

termination
  by (relation "measure (\<lambda>(_, _, _, _, s). se_unread s)") (auto dest: put_step_progress [OF sym])

declare put_loop.simps [simp del]

text \<open>\<open>i128::MIN\<close> stands for \<open>never reported yet\<close>.\<close>

definition I128_MIN :: int where
  "I128_MIN = - (2 ^ 127)"

definition handle_put :: "string \<Rightarrow> usize \<Rightarrow> bool \<Rightarrow> (session, unit) act" where
  "handle_put arg_chunk max_chunk_size send_intermediate =
     try_act (chunk_arg arg_chunk max_chunk_size) (\<lambda>go.
     if \<not> go then ok_act ()
     else
       try_act (se_write_line OK_LINE) (\<lambda>_.
       try_act instant_now (\<lambda>start.
       try_act (put_loop send_intermediate start 0 I128_MIN) (\<lambda>total_bytes.
       try_act (elapsed start) (\<lambda>total_ns.
       try_act (on_stats (add_upload total_bytes (of_nat total_ns))) (\<lambda>_.
       se_write_line (time_line total_ns)))))))"

section \<open>PING\<close>

definition PONG_LINE :: string where
  "PONG_LINE = ''PONG'' @ [LF]"

definition handle_ping :: "(session, unit) act" where
  "handle_ping =
     try_act instant_now (\<lambda>start.
     try_act (se_write_line PONG_LINE) (\<lambda>_.
     await_ok
       (try_act (elapsed start) (\<lambda>ns.
        try_act (on_stats (add_ping (of_nat ns))) (\<lambda>_.
        se_write_line (time_line ns))))))"

section \<open>Dispatch\<close>

definition nth_or_empty :: "string list \<Rightarrow> nat \<Rightarrow> string" where
  "nth_or_empty ps i = (if i < length ps then ps ! i else [])"

definition command_parts :: "string \<Rightarrow> string \<times> string \<times> string" where
  "command_parts line =
     (let parts = splitn 3 (CHR '' '') (trim line)
      in (nth_or_empty parts 0, trim (nth_or_empty parts 1), trim (nth_or_empty parts 2)))"

definition counted :: "unit io \<Rightarrow> bool io" where
  "counted h = try_io (io_of (on_stats count_command)) (\<lambda>_. try_io h (\<lambda>_. io_of (ok_act False)))"

text \<open>One command; \<open>True\<close> is the \<open>return Ok(())\<close> of \<open>QUIT\<close>.\<close>

definition run_command :: "(bytes \<Rightarrow> bytes) \<Rightarrow> string \<Rightarrow> bool io" where
  "run_command fill line =
     (let (cmd, arg1, arg2) = command_parts line; mx = MAX_CHUNK_SIZE
      in if cmd = ''GETTIME'' then counted (handle_gettime fill arg1 arg2 mx)
         else if cmd = ''GETCHUNKS'' then counted (io_of (handle_getchunks fill arg1 arg2 mx))
         else if cmd = ''PUT'' then counted (io_of (handle_put arg1 mx True))
         else if cmd = ''PUTNORESULT'' then counted (io_of (handle_put arg1 mx False))
         else if cmd = ''PING'' then counted (io_of handle_ping)
         else if cmd = ''QUIT''
         then io_of (try_act (se_write_line BYE_LINE) (\<lambda>_. ok_act True))
         else io_of (try_act (se_write_line ERR_LINE) (\<lambda>_. ok_act False)))"

definition accept_command :: "(session, string) act" where
  "accept_command = try_act (se_write_line ACCEPT_LINE) (\<lambda>_. se_read_line)"

section \<open>What the loop relies on\<close>

text \<open>
  The invariant of the command phase: the chunk size lies in the advertised range, and
  \<open>RANDOM_CHUNK\<close> has its full length (\<open>fastrand\<close> fills a slice in place).
\<close>

definition chunk_ok :: "(bytes \<Rightarrow> bytes) \<Rightarrow> session \<Rightarrow> bool" where
  "chunk_ok fill s \<longleftrightarrow>
     MIN_CHUNK_SIZE \<le> se_chunk s \<and> se_chunk s \<le> MAX_CHUNK_SIZE \<and>
     length (RANDOM_CHUNK fill) = MAX_CHUNK_SIZE"

text \<open>The clock passes every point of time.\<close>

definition clock_runs :: "session \<Rightarrow> bool" where
  "clock_runs s \<longleftrightarrow> (\<forall>t m. \<exists>i \<ge> m. t \<le> se_clock s i)"

text \<open>A handler sends no event and does not sleep.\<close>

definition quiet :: "session \<Rightarrow> session \<Rightarrow> bool" where
  "quiet s s' \<longleftrightarrow> advances s s' \<and> se_frames s' = se_frames s \<and> se_slept s' = se_slept s"

lemma transp_quiet [simp]: "transp quiet"
  by (rule transpI) (auto simp: quiet_def intro: advances_trans)

lemma quiet_refl [simp]: "quiet s s"
  by (simp add: quiet_def)

lemma quiet_trans: "quiet s s' \<Longrightarrow> quiet s' s'' \<Longrightarrow> quiet s s''"
  by (rule transpD [OF transp_quiet])

lemma quiet_stream:
  assumes "relates advances (on_stream f)"
  shows "relates quiet (on_stream f)"
  unfolding relates_def
proof
  fix s
  have "same_world s (snd (on_stream f s))"
    by (rule on_stream_same_world [OF prod.collapse [symmetric]])
  moreover have "advances s (snd (on_stream f s))" using assms by (rule relates_apply)
  ultimately show "quiet s (snd (on_stream f s))" by (auto simp: quiet_def dest: same_world_fields)
qed

lemma quiet_acts [intro]:
  "relates quiet se_read_line" "relates quiet (se_write_all d)" "relates quiet (se_write_line l)"
  "relates quiet (se_read_exact n)" "relates quiet instant_now" "relates quiet (elapsed t)"
  "relates quiet (on_stats f)" "relates quiet (ok_act a)" "relates quiet (panic_act m)"
  "relates quiet (observe g)" "relates quiet (set_chunk n)"
  by (auto intro!: quiet_stream)
    (auto simp: relates_def quiet_def advances_def instant_now_def elapsed_def on_stats_def
      ok_act_def panic_act_def observe_def set_chunk_def)

lemma quiet_parts [intro]:
  "relates quiet (chunk_arg a m)" "relates quiet (random_buf fill)" "relates quiet (mark_last v b)"
  "relates quiet (report_time t)" "relates quiet (put_report x t n l)"
  by (auto simp: chunk_arg_def mark_last_def report_time_def put_report_def Let_def
      split: option.split) (auto simp: random_buf_def relates_def)

lemma quiet_await_ok [intro]: "relates quiet k \<Longrightarrow> relates quiet (await_ok k)"
  by (auto simp: await_ok_def)

lemma quiet_steps [intro]:
  "relates quiet (gettime_step t m b)" "relates quiet (put_step x t n l)"
  by (auto simp: gettime_step_def put_step_def Let_def)

lemma quiet_getchunks_loop [intro]: "relates quiet (getchunks_loop i n b)"
  by (induction i n b rule: getchunks_loop.induct) (subst getchunks_loop.simps, auto)

lemma quiet_put_loop [intro]: "relates quiet (put_loop x t n l)"
  unfolding relates_def
proof
  fix s show "quiet s (snd (put_loop x t n l s))"
  proof (induction x t n l s rule: put_loop.induct)
    case (1 x t n l s)
    obtain r s' where r: "put_step x t n l s = (r, s')" by fastforce
    have "quiet s s'" by (rule relatesD [OF quiet_steps(2) r])
    with 1 r show ?case
      by (cases r) (auto simp: put_loop.simps [of x t n l s] intro: quiet_trans)
  qed
qed

lemma quiet_handlers:
  "relates quiet (handle_getchunks fill a b m)" "relates quiet (handle_put b m x)"
  "relates quiet handle_ping"
  by (auto simp: handle_getchunks_def handle_put_def handle_ping_def split: option.split)

subsection \<open>Handlers that may not return\<close>

definition io_relates :: "(session \<Rightarrow> session \<Rightarrow> bool) \<Rightarrow> 'a io \<Rightarrow> bool" where
  "io_relates R h \<longleftrightarrow> (\<forall>s r s'. h s = Some (r, s') \<longrightarrow> R s s')"

definition io_safe :: "(session \<Rightarrow> bool) \<Rightarrow> 'a io \<Rightarrow> bool" where
  "io_safe I h \<longleftrightarrow> (\<forall>s r s'. I s \<longrightarrow> h s = Some (r, s') \<longrightarrow> I s' \<and> (\<forall>p. r \<noteq> Panic p))"

lemma io_relates_of [intro!]: "relates R m \<Longrightarrow> io_relates R (io_of m)"
  by (auto simp: io_relates_def io_of_def dest: relatesD)

lemma io_safe_of [intro!]: "safe I m \<Longrightarrow> io_safe I (io_of m)"
  by (auto simp: io_safe_def io_of_def dest: safeD)

lemma io_relates_if [intro!]:
  "io_relates R a \<Longrightarrow> io_relates R b \<Longrightarrow> io_relates R (if c then a else b)"
  by simp

lemma io_safe_if [intro!]: "io_safe I a \<Longrightarrow> io_safe I b \<Longrightarrow> io_safe I (if c then a else b)"
  by simp

lemma try_io_cases:
  assumes "try_io m f s = Some (r, s')"
  obtains (Ok) a s1 where "m s = Some (Ok a, s1)" "f a s1 = Some (r, s')"
  | (Err) e where "m s = Some (Err e, s')" "r = Err e"
  | (Panic) p where "m s = Some (Panic p, s')" "r = Panic p"
  using assms by (auto simp: try_io_def split: option.splits res.splits)

lemma io_relates_try [intro!]:
  assumes "transp R" and "io_relates R m" and "\<And>a. io_relates R (f a)"
  shows "io_relates R (try_io m f)"
  unfolding io_relates_def
proof (intro allI impI)
  fix s r s' assume "try_io m f s = Some (r, s')"
  then show "R s s'"
    using assms unfolding io_relates_def
    by (cases rule: try_io_cases) (blast dest: transpD)+
qed

text \<open>The rule for sequencing that lets the second part rely on a fact \<open>Q\<close> about the value.\<close>

lemma io_safe_try_post:
  assumes "io_safe I m" and "\<And>s a s'. I s \<Longrightarrow> m s = Some (Ok a, s') \<Longrightarrow> Q a"
    and "\<And>a. Q a \<Longrightarrow> io_safe I (f a)"
  shows "io_safe I (try_io m f)"
  unfolding io_safe_def
proof (intro allI impI)
  fix s r s' assume "I s" and "try_io m f s = Some (r, s')"
  from this(2) show "I s' \<and> (\<forall>p. r \<noteq> Panic p)"
  proof (cases rule: try_io_cases)
    case (Ok a s1)
    then have "I s1" "Q a" using assms(1,2) \<open>I s\<close> by (auto simp: io_safe_def)
    with Ok(2) assms(3) [of a] show ?thesis by (auto simp: io_safe_def)
  qed (use assms(1) \<open>I s\<close> in \<open>auto simp: io_safe_def\<close>)
qed

lemma io_safe_try [intro!]:
  "io_safe I m \<Longrightarrow> (\<And>a. io_safe I (f a)) \<Longrightarrow> io_safe I (try_io m f)"
  by (rule io_safe_try_post [where Q = "\<lambda>_. True"]) auto

lemma safe_try_post:
  assumes "safe I m" and "\<And>s a s'. I s \<Longrightarrow> m s = (Ok a, s') \<Longrightarrow> Q a"
    and "\<And>a. Q a \<Longrightarrow> safe I (f a)"
  shows "safe I (try_act m f)"
  unfolding safe_def
proof (intro allI impI)
  fix s assume "I s"
  obtain r s' where m: "m s = (r, s')" by fastforce
  have "I s'" and "\<forall>p. r \<noteq> Panic p" using safeD [OF assms(1) \<open>I s\<close> m] by auto
  then show "I (snd (try_act m f s)) \<and> (\<forall>p. fst (try_act m f s) \<noteq> Panic p)"
    using m assms(2) [OF \<open>I s\<close>, of _ s'] assms(3)
    by (cases r) (auto simp: try_act_def safe_def)
qed

lemma gettime_loop_quiet:
  assumes "gettime_loop t m b n s = Some y"
  shows "quiet s (snd y)"
proof (rule gettime_loop.raw_induct [where P = "\<lambda>t m b n s y. quiet s (snd y)", OF _ assms],
    goal_cases)
  case (1 loop t m b n s y)
  obtain x s1 where x: "gettime_step t m b s = (x, s1)" by fastforce
  have q: "quiet s s1" by (rule relatesD [OF quiet_steps(1) x])
  show ?case
  proof (cases x)
    case (Ok v)
    obtain fin b' k where "v = (fin, b', k)" by (cases v) auto
    with 1(2) 1(1) [of t m b' "n + k" s1] Ok x q show ?thesis
      by (auto split: if_splits intro: quiet_trans)
  qed (use 1 x q in auto)
qed

lemma gettime_loop_relates [intro]: "io_relates quiet (gettime_loop t m b n)"
  by (auto simp: io_relates_def dest: gettime_loop_quiet)

lemma gettime_relates: "io_relates quiet (handle_gettime fill a b m)"
  by (auto simp: handle_gettime_def split: option.split)

lemma counted_relates [intro]: "io_relates quiet h \<Longrightarrow> io_relates quiet (counted h)"
  by (auto simp: counted_def)

lemma run_command_relates: "io_relates quiet (run_command fill l)"
proof -
  obtain c a b where p: "command_parts l = (c, a, b)" by (cases "command_parts l")
  show ?thesis
    unfolding run_command_def p Let_def prod.case
    by (intro io_relates_if counted_relates io_relates_of relates_try gettime_relates
        quiet_handlers quiet_acts transp_quiet)
qed

subsection \<open>The chunk size and panics\<close>

lemma chunk_ok_world: "chunk_ok fill s \<Longrightarrow> same_world s s' \<Longrightarrow> chunk_ok fill s'"
  by (simp add: chunk_ok_def same_world_fields)

lemmas chunk_safe_stream [intro] = stream_safe [of "chunk_ok fill" for fill, OF chunk_ok_world]

lemma chunk_safe_acts [intro]:
  "safe (chunk_ok fill) instant_now" "safe (chunk_ok fill) (elapsed t)"
  "safe (chunk_ok fill) (on_stats f)" "safe (chunk_ok fill) (ok_act a)"
  "safe (chunk_ok fill) (observe g)"
  by (auto simp: safe_def chunk_ok_def instant_now_def elapsed_def on_stats_def ok_act_def
      observe_def)

lemma parse_chunk_size_bounds:
  "parse_chunk_size a m = Some n \<Longrightarrow> MIN_CHUNK_SIZE \<le> n \<and> n \<le> m"
  by (auto simp: parse_chunk_size_def split: option.splits if_splits)

lemma chunk_safe_parts [intro]:
  "safe (chunk_ok fill) (chunk_arg a MAX_CHUNK_SIZE)" "safe (chunk_ok fill) (random_buf fill)"
  "safe (chunk_ok fill) (report_time t)" "safe (chunk_ok fill) (put_report x t n l)"
proof -
  have "safe (chunk_ok fill) (set_chunk n)" if "parse_chunk_size a MAX_CHUNK_SIZE = Some n" for n
    using parse_chunk_size_bounds [OF that] by (auto simp: safe_def set_chunk_def chunk_ok_def)
  then show "safe (chunk_ok fill) (chunk_arg a MAX_CHUNK_SIZE)"
    by (auto simp: chunk_arg_def split: option.split)
  show "safe (chunk_ok fill) (random_buf fill)"
    by (auto simp: safe_def random_buf_def chunk_ok_def)
  show "safe (chunk_ok fill) (report_time t)" "safe (chunk_ok fill) (put_report x t n l)"
    by (auto simp: report_time_def put_report_def Let_def)
qed

lemma chunk_safe_await_ok [intro]: "safe (chunk_ok fill) k \<Longrightarrow> safe (chunk_ok fill) (await_ok k)"
  by (auto simp: await_ok_def)

lemma chunk_safe_mark_last: "b \<noteq> [] \<Longrightarrow> safe (chunk_ok fill) (mark_last v b)"
  by (auto simp: mark_last_def)

lemma mark_last_Ok: "mark_last v b s = (Ok b', s') \<Longrightarrow> b \<noteq> [] \<and> b' = butlast b @ [v] \<and> s' = s"
  by (auto simp: mark_last_def ok_act_def panic_act_def split: if_splits)

lemma random_buf_Ok:
  "random_buf fill s = (Ok b, s') \<Longrightarrow>
     s' = s \<and> b = take (se_chunk s) (RANDOM_CHUNK fill) \<and> length b = se_chunk s"
  by (auto simp: random_buf_def split: if_splits)

lemma random_buf_nonempty: "chunk_ok fill s \<Longrightarrow> random_buf fill s = (Ok b, s') \<Longrightarrow> b \<noteq> []"
  by (auto simp: chunk_ok_def chunk_constants dest!: random_buf_Ok)

lemma chunk_safe_getchunks_loop: "b \<noteq> [] \<Longrightarrow> safe (chunk_ok fill) (getchunks_loop i n b)"
proof (induction i n b rule: getchunks_loop.induct)
  case (1 i n b)
  have "safe (chunk_ok fill) (try_act (mark_last (if i = n then 0xFF else 0x00) b) (\<lambda>buf'.
      try_act (se_write_all buf') (\<lambda>_. getchunks_loop (Suc i) n buf')))" if "i \<le> n"
    by (rule safe_try_post [where Q = "\<lambda>b'. b' \<noteq> []"])
      (use 1 that in \<open>auto simp: chunk_safe_mark_last dest: mark_last_Ok\<close>)
  then show ?case by (subst getchunks_loop.simps) auto
qed

lemma chunk_safe_put_step [intro]: "safe (chunk_ok fill) (put_step x t n l)"
proof -
  have "chunk_ok fill s \<Longrightarrow> observe se_chunk s = (Ok cs, s') \<Longrightarrow> cs \<noteq> 0" for s s' cs
    by (auto simp: chunk_ok_def observe_def chunk_constants)
  then show ?thesis unfolding put_step_def
    by (intro safe_try_post [where Q = "\<lambda>cs. cs \<noteq> 0"]) (auto simp: Let_def)
qed

lemma chunk_safe_put_loop [intro]: "safe (chunk_ok fill) (put_loop x t n l)"
proof -
  have "chunk_ok fill s \<Longrightarrow> put_loop x t n l s = (r, s') \<Longrightarrow>
      chunk_ok fill s' \<and> (\<forall>p. r \<noteq> Panic p)" for s r s'
  proof (induction x t n l s arbitrary: r s' rule: put_loop.induct)
    case (1 x t n l s)
    obtain y s1 where y: "put_step x t n l s = (y, s1)" by fastforce
    have "chunk_ok fill s1 \<and> (\<forall>p. y \<noteq> Panic p)"
      using "1.prems"(1) y by (rule safeD [OF chunk_safe_put_step])
    with "1.prems"(2) "1.IH" [OF y [symmetric] _ refl refl] y show ?case
      by (cases y) (auto simp: put_loop.simps [of x t n l s] split: if_splits prod.splits)
  qed
  then show ?thesis by (metis safe_def prod.collapse)
qed

lemma chunk_safe_handlers:
  "safe (chunk_ok fill) (handle_getchunks fill a b MAX_CHUNK_SIZE)"
  "safe (chunk_ok fill) (handle_put b MAX_CHUNK_SIZE x)" "safe (chunk_ok fill) handle_ping"
proof -
  have "safe (chunk_ok fill) (try_act (random_buf fill) (\<lambda>buf. try_act (getchunks_loop 1 c buf) k))"
    if "\<And>u. safe (chunk_ok fill) (k u)" for c k
    by (rule safe_try_post [where Q = "\<lambda>b. b \<noteq> []"])
      (use that in \<open>auto intro: chunk_safe_getchunks_loop dest: random_buf_nonempty\<close>)
  note send = this
  have go: "safe (chunk_ok fill) (try_act instant_now (\<lambda>start. try_act (random_buf fill) (\<lambda>buf.
      try_act (getchunks_loop 1 c buf) (k start))))"
    if "\<And>st u. safe (chunk_ok fill) (k st u)" for c k
    by (rule safe_try [OF chunk_safe_acts(1)], rule send, rule that)
  show "safe (chunk_ok fill) (handle_getchunks fill a b MAX_CHUNK_SIZE)"
    unfolding handle_getchunks_def
    by (rule safe_try [OF chunk_safe_parts(1)])
      (auto split: option.split simp del: One_nat_def del: safe_try intro!: go,
       auto simp: await_ok_def report_time_def)
qed (auto simp: handle_put_def handle_ping_def)

subsection \<open>GETTIME\<close>

definition mark :: "bool \<Rightarrow> bytes \<Rightarrow> bytes" where
  "mark fin b = butlast b @ [if fin then 0xFF else 0x00]"

lemma mark_simps [simp]: "mark fin b \<noteq> []" "mark f (mark g b) = mark f b"
  "b \<noteq> [] \<Longrightarrow> length (mark f b) = length b"
  by (simp_all add: mark_def)

lemma gettime_step_Ok:
  assumes "gettime_step t m b s = (Ok (fin, b', k), s')"
  shows "fin = (m \<le> se_clock s (se_ticks s) - t)" and "b \<noteq> []" and "b' = mark fin b"
    and "k = of_nat (se_chunk s)" and "se_chunk s' = se_chunk s" and "se_stats s' = se_stats s"
    and "se_clock s' = se_clock s" and "se_ticks s' = Suc (se_ticks s)"
    and "ws_clean b' \<Longrightarrow> se_sent s' = se_sent s @ b'"
proof -
  define s1 where "s1 = s\<lparr>se_ticks := Suc (se_ticks s)\<rparr>"
  define f where "f = (m \<le> se_clock s (se_ticks s) - t)"
  from assms have fin: "fin = f" and b: "b \<noteq> []" and b': "b' = mark f b"
    and w: "se_write_all (mark f b) s1 = (Ok (), s')" and k: "k = of_nat (se_chunk s')"
    by (auto simp: gettime_step_def elapsed_def mark_last_def mark_def observe_def ok_act_def
        panic_act_def Let_def f_def s1_def elim!: try_act_okE split: if_splits)
  note same_world_fields [OF on_stream_same_world [OF w]]
  then show "se_chunk s' = se_chunk s" "se_stats s' = se_stats s" "se_clock s' = se_clock s"
    "se_ticks s' = Suc (se_ticks s)" "k = of_nat (se_chunk s)"
    by (simp_all add: s1_def k)
  show "fin = (m \<le> se_clock s (se_ticks s) - t)" "b \<noteq> []" "b' = mark fin b"
    using fin b b' by (simp_all add: f_def)
  show "ws_clean b' \<Longrightarrow> se_sent s' = se_sent s @ b'"
    using se.wr_sent [OF w] b' by (simp add: s1_def)
qed

lemma gettime_step_safe:
  assumes "chunk_ok fill s" and "b \<noteq> []" and "gettime_step t m b s = (r, s')"
  shows "chunk_ok fill s' \<and> (\<forall>p. r \<noteq> Panic p)"
proof -
  have "safe (chunk_ok fill) (gettime_step t m b)"
    unfolding gettime_step_def Let_def using assms(2) by (auto intro: chunk_safe_mark_last)
  from safeD [OF this assms(1,3)] show ?thesis .
qed

lemma gettime_loop_safe:
  assumes "gettime_loop t m b n s = Some y" and "b \<noteq> []" and "chunk_ok fill s"
  shows "chunk_ok fill (snd y) \<and> (\<forall>p. fst y \<noteq> Panic p)"
proof -
  have "b \<noteq> [] \<longrightarrow> chunk_ok fill s \<longrightarrow> chunk_ok fill (snd y) \<and> (\<forall>p. fst y \<noteq> Panic p)"
  proof (rule gettime_loop.raw_induct [where P = "\<lambda>t m b n s y. b \<noteq> [] \<longrightarrow> chunk_ok fill s \<longrightarrow>
        chunk_ok fill (snd y) \<and> (\<forall>p. fst y \<noteq> Panic p)", OF _ assms(1)], goal_cases)
    case (1 loop t m b n s y)
    obtain x s1 where x: "gettime_step t m b s = (x, s1)" by fastforce
    show ?case
    proof (intro impI)
      assume b: "b \<noteq> []" and I: "chunk_ok fill s"
      note ok = gettime_step_safe [OF I b x]
      show "chunk_ok fill (snd y) \<and> (\<forall>p. fst y \<noteq> Panic p)"
      proof (cases x)
        case (Ok v)
        obtain fin b' k where v: "v = (fin, b', k)" by (cases v) auto
        then have "b' \<noteq> []" using gettime_step_Ok(3) x Ok by (metis mark_simps(1))
        with 1(2) 1(1) [of t m b' "n + k" s1] Ok v x ok show ?thesis by (auto split: if_splits)
      qed (use 1 x ok in auto)
    qed
  qed
  with assms(2,3) show ?thesis by simp
qed

text \<open>The loop ends, at the latest when the clock has passed the limit.\<close>

lemma gettime_loop_returns:
  assumes "t + m \<le> se_clock s i" and "se_ticks s \<le> i"
  shows "\<exists>y. gettime_loop t m b n s = Some y"
  using assms
proof (induction "i - se_ticks s" arbitrary: b n s)
  case (0 s)
  obtain x s1 where x: "gettime_step t m b s = (x, s1)" by fastforce
  show ?case
  proof (cases x)
    case (Ok v)
    obtain fin b' k where v: "v = (fin, b', k)" by (cases v) auto
    have "i = se_ticks s" using 0 by simp
    then have "fin" using gettime_step_Ok(1) [of t m b s fin b' k s1] x Ok v 0 by simp
    with x Ok v show ?thesis by (simp add: gettime_loop.simps [of t m b n s])
  qed (use x in \<open>simp_all add: gettime_loop.simps [of t m b n s]\<close>)
next
  case (Suc j s)
  obtain x s1 where x: "gettime_step t m b s = (x, s1)" by fastforce
  show ?case
  proof (cases x)
    case (Ok v)
    obtain fin b' k where v: "v = (fin, b', k)" by (cases v) auto
    with x Ok have "gettime_step t m b s = (Ok (fin, b', k), s1)" by simp
    from gettime_step_Ok(7,8) [OF this] Suc.hyps(2) Suc.prems have
      "j = i - se_ticks s1" "t + m \<le> se_clock s1 i" "se_ticks s1 \<le> i" by auto
    from Suc.hyps(1) [OF this, of b' "n + k"] x Ok v show ?thesis
      by (auto simp: gettime_loop.simps [of t m b n s])
  qed (use x in \<open>simp_all add: gettime_loop.simps [of t m b n s]\<close>)
qed

lemma gettime_safe: "io_safe (chunk_ok fill) (handle_gettime fill a b MAX_CHUNK_SIZE)"
proof -
  have loop: "io_safe (chunk_ok fill) (gettime_loop t m buf n)" if "buf \<noteq> []" for t m buf n
    using gettime_loop_safe that by (fastforce simp: io_safe_def)
  have send: "io_safe (chunk_ok fill) (try_io (io_of (random_buf fill)) (\<lambda>buf.
      try_io (gettime_loop t m buf n) k))" if "\<And>x. io_safe (chunk_ok fill) (k x)" for t m n k
    by (rule io_safe_try_post [where Q = "\<lambda>b. b \<noteq> []"])
      (use that in \<open>auto simp: io_of_def intro: loop dest: random_buf_nonempty\<close>)
  have go: "io_safe (chunk_ok fill) (try_io (io_of instant_now) (\<lambda>start.
      try_io (io_of (random_buf fill)) (\<lambda>buf. try_io (gettime_loop start m buf n) (k start))))"
    if "\<And>st x. io_safe (chunk_ok fill) (k st x)" for m n k
    by (rule io_safe_try, rule io_safe_of, rule chunk_safe_acts, rule send, rule that)
  show ?thesis
    unfolding handle_gettime_def
    by (rule io_safe_try, rule io_safe_of, rule chunk_safe_parts)
      (auto split: option.split del: io_safe_try safe_try intro!: go,
       auto simp: await_ok_def report_time_def)
qed

subsection \<open>Termination\<close>

definition io_returns :: "'a io \<Rightarrow> bool" where
  "io_returns h \<longleftrightarrow> (\<forall>s. clock_runs s \<longrightarrow> h s \<noteq> None)"

lemma io_returns_of [intro!]: "io_returns (io_of m)"
  by (simp add: io_returns_def io_of_def)

lemma io_returns_if [intro!]: "io_returns a \<Longrightarrow> io_returns b \<Longrightarrow> io_returns (if c then a else b)"
  by simp

lemma quiet_clock_runs: "quiet s s' \<Longrightarrow> clock_runs s' \<longleftrightarrow> clock_runs s"
  by (simp add: quiet_def advances_def clock_runs_def)

lemma io_returns_try [intro!]:
  assumes "io_returns m" and "io_relates quiet m" and "\<And>a. io_returns (f a)"
  shows "io_returns (try_io m f)"
  unfolding io_returns_def
proof (intro allI impI)
  fix s assume c: "clock_runs s"
  then obtain r s' where m: "m s = Some (r, s')" using assms(1) by (auto simp: io_returns_def)
  then have "quiet s s'" using assms(2) by (simp add: io_relates_def)
  then have "clock_runs s'" using c by (simp add: quiet_clock_runs)
  with m assms(3) show "try_io m f s \<noteq> None"
    by (auto simp: try_io_def io_returns_def split: res.split)
qed

lemma gettime_loop_io_returns [intro]: "io_returns (gettime_loop t m b n)"
  using gettime_loop_returns unfolding io_returns_def clock_runs_def by (metis option.distinct(1))

lemma gettime_returns: "io_returns (handle_gettime fill a b m)"
  by (auto simp: handle_gettime_def split: option.split)

section \<open>The interface of a command handler\<close>

locale command_handler =
  fixes h :: "'a io" and fill :: "bytes \<Rightarrow> bytes"
  assumes quiet: "io_relates quiet h"
    and safe: "io_safe (chunk_ok fill) h"
    and returns: "io_returns h"
begin

text \<open>A round of the loop, \<open>ACCEPT\<close>, a line, then the handler, consumes input.\<close>

lemma round_progress:
  assumes "accept_command s = (Ok l, s1)" and "h s1 = Some (r, s2)"
  shows "se_unread s2 < se_unread s"
proof -
  have "se_unread s1 < se_unread s"
    using se.wr_rd_progress assms(1) unfolding accept_command_def write_line_eq by blast
  moreover have "quiet s1 s2" using assms(2) quiet by (simp add: io_relates_def)
  ultimately show ?thesis by (simp add: quiet_def advances_def)
qed

lemma counted_handler: "command_handler (counted (try_io h (\<lambda>_. io_of (ok_act ())))) fill"
  by unfold_locales (use quiet safe returns in \<open>auto simp: counted_def\<close>)

end

interpretation gettime: command_handler "handle_gettime fill a b MAX_CHUNK_SIZE" fill
  for fill a b
  by unfold_locales (rule gettime_relates gettime_safe gettime_returns)+

interpretation getchunks: command_handler "io_of (handle_getchunks fill a b MAX_CHUNK_SIZE)" fill
  for fill a b
  by unfold_locales (auto intro: quiet_handlers chunk_safe_handlers)

interpretation put: command_handler "io_of (handle_put b MAX_CHUNK_SIZE x)" fill
  for fill b x
  by unfold_locales (auto intro: quiet_handlers chunk_safe_handlers)

interpretation ping: command_handler "io_of handle_ping" fill
  for fill
  by unfold_locales (auto intro: quiet_handlers chunk_safe_handlers)

lemma counted_unit: "try_io h (\<lambda>_. io_of (ok_act ())) = (h :: unit io)"
  by (rule ext) (auto simp: try_io_def io_of_def ok_act_def split: option.split res.split)

lemma answer_handler:
  "command_handler (io_of (try_act (se_write_line l) (\<lambda>_. ok_act v))) fill"
  by unfold_locales auto

lemma if_handler:
  "command_handler a fill \<Longrightarrow> command_handler b fill \<Longrightarrow>
     command_handler (if c then a else b) fill"
  by simp

interpretation command: command_handler "run_command fill l" fill
  for fill l
proof -
  obtain c a b where p: "command_parts l = (c, a, b)" by (cases "command_parts l")
  show "command_handler (run_command fill l) fill"
    unfolding run_command_def p Let_def prod.case
    by (intro if_handler answer_handler gettime.counted_handler [unfolded counted_unit]
        getchunks.counted_handler [unfolded counted_unit]
        put.counted_handler [unfolded counted_unit] ping.counted_handler [unfolded counted_unit])
qed

section \<open>The dispatch loop\<close>

function command_loop :: "(bytes \<Rightarrow> bytes) \<Rightarrow> unit io" where
  "command_loop fill s =
     (case accept_command s of
        (Ok line, s1) \<Rightarrow>
          (case run_command fill line s1 of
             None \<Rightarrow> None
           | Some (Ok quit, s2) \<Rightarrow> if quit then Some (Ok (), s2) else command_loop fill s2
           | Some (Err e, s2) \<Rightarrow> Some (Err e, s2)
           | Some (Panic p, s2) \<Rightarrow> Some (Panic p, s2))
      | (Err e, s1) \<Rightarrow> Some (Err e, s1)
      | (Panic p, s1) \<Rightarrow> Some (Panic p, s1))"
  by pat_completeness auto

termination
proof (relation "measure (\<lambda>(_, s). se_unread s)", goal_cases)
  case (2 fill s r s1 line q r2 s2 quit)
  then show ?case using command.round_progress [of s line s1 fill line r2 s2] by simp
qed simp

declare command_loop.simps [simp del]

definition run_commands :: "(bytes \<Rightarrow> bytes) \<Rightarrow> unit io" where
  "run_commands fill = try_io (io_of (set_chunk CHUNK_SIZE)) (\<lambda>_. command_loop fill)"

lemma accept_command_acts:
  "relates quiet accept_command" "safe (chunk_ok fill) accept_command"
  by (auto simp: accept_command_def)

lemma command_loop_outcome:
  "clock_runs s \<Longrightarrow> chunk_ok fill s \<Longrightarrow>
     \<exists>r s'. command_loop fill s = Some (r, s') \<and> quiet s s' \<and> chunk_ok fill s' \<and>
       (\<forall>p. r \<noteq> Panic p)"
proof (induction fill s rule: command_loop.induct)
  case (1 fill s)
  obtain r1 s1 where a: "accept_command s = (r1, s1)" by fastforce
  note q1 = relatesD [OF accept_command_acts(1) a]
  note i1 = safeD [OF accept_command_acts(2) "1.prems"(2) a]
  show ?case
  proof (cases r1)
    case (Ok line)
    have c1: "clock_runs s1" using "1.prems"(1) q1 by (simp add: quiet_clock_runs)
    obtain r2 s2 where b: "run_command fill line s1 = Some (r2, s2)"
      using command.returns [of fill line] c1 by (auto simp: io_returns_def)
    have "quiet s1 s2" using command.quiet [of fill line] b by (auto simp: io_relates_def)
    then have q2: "quiet s s2" "clock_runs s2"
      using c1 quiet_trans [OF q1] by (simp_all add: quiet_clock_runs)
    have i2: "chunk_ok fill s2 \<and> (\<forall>p. r2 \<noteq> Panic p)"
      using command.safe [of fill line] i1 b by (auto simp: io_safe_def)
    show ?thesis
    proof (cases "r2 = Ok False")
      case True
      with "1.IH" [OF a [symmetric] Ok, of "(r2, s2)" r2 s2 False] b q2 i2 Ok a show ?thesis
        by (auto simp: command_loop.simps [of fill s] intro: quiet_trans)
    next
      case False
      with a b Ok q2 i2 show ?thesis
        by (cases r2) (auto simp: command_loop.simps [of fill s])
    qed
  qed (use a q1 i1 in \<open>auto simp: command_loop.simps [of fill s]\<close>)
qed

lemma command_loop_quiet: "command_loop fill s = Some (r, s') \<Longrightarrow> quiet s s'"
proof (induction fill s arbitrary: r s' rule: command_loop.induct)
  case (1 fill s)
  obtain r1 s1 where a: "accept_command s = (r1, s1)" by fastforce
  note q1 = relatesD [OF accept_command_acts(1) a]
  show ?case
  proof (cases r1)
    case (Ok line)
    with "1.prems" a obtain r2 s2 where b: "run_command fill line s1 = Some (r2, s2)"
      by (auto simp: command_loop.simps [of fill s] split: option.splits)
    have "quiet s1 s2" using command.quiet [of fill line] b by (auto simp: io_relates_def)
    with q1 have q2: "quiet s s2" by (rule quiet_trans)
    show ?thesis
    proof (cases "r2 = Ok False")
      case True
      with "1.prems" a b Ok have "command_loop fill s2 = Some (r, s')"
        by (simp add: command_loop.simps [of fill s])
      with "1.IH" [OF a [symmetric] Ok b refl True, of r s'] True q2 show ?thesis
        by (auto intro: quiet_trans)
    next
      case False
      with "1.prems" a b Ok q2 show ?thesis
        by (cases r2) (auto simp: command_loop.simps [of fill s])
    qed
  qed (use "1.prems" a q1 in \<open>auto simp: command_loop.simps [of fill s]\<close>)
qed

lemma run_commands_quiet: "run_commands fill s = Some (r, s') \<Longrightarrow> quiet s s'"
  using command_loop_quiet [of fill "s\<lparr>se_chunk := CHUNK_SIZE\<rparr>" r s']
  by (simp add: run_commands_def try_io_def io_of_def set_chunk_def quiet_def advances_def)

lemma run_commands_outcome:
  assumes "clock_runs s" and "length (RANDOM_CHUNK fill) = MAX_CHUNK_SIZE"
  shows "\<exists>r s'. run_commands fill s = Some (r, s') \<and> quiet s s' \<and> chunk_ok fill s' \<and>
     (\<forall>p. r \<noteq> Panic p)"
proof -
  define s0 where "s0 = s\<lparr>se_chunk := CHUNK_SIZE\<rparr>"
  have "clock_runs s0" "chunk_ok fill s0"
    using assms by (simp_all add: s0_def clock_runs_def chunk_ok_def chunk_constants)
  from command_loop_outcome [OF this] show ?thesis
    by (auto simp: run_commands_def try_io_def io_of_def set_chunk_def s0_def quiet_def
        advances_def)
qed

section \<open>Downloads\<close>

lemma mark_chunk_clean: "CHUNK_SIZE \<le> length b \<Longrightarrow> ws_clean (mark f b)"
  by (auto simp: ws_clean_def mark_def chunk_constants)

text \<open>The bytes of a download: all chunks but the last end in 0x00, the last one in 0xFF.\<close>

definition download :: "nat \<Rightarrow> bytes \<Rightarrow> bytes" where
  "download n b = concat (replicate (n - 1) (mark False b)) @ mark True b"

lemma length_download: "0 < n \<Longrightarrow> b \<noteq> [] \<Longrightarrow> length (download n b) = n * length b"
  by (cases n) (simp_all add: download_def length_concat sum_list_replicate)

lemma download_Suc: "download (Suc (Suc n)) b = mark False b @ download (Suc n) b"
  by (simp add: download_def)

lemma download_mark: "download n (mark f b) = download n b"
  by (simp add: download_def)

text \<open>\<open>sends d s s'\<close>: the stream delivered \<open>d\<close>, and nothing else of the session changed.\<close>

definition sends :: "bytes \<Rightarrow> session \<Rightarrow> session \<Rightarrow> bool" where
  "sends d s s' \<longleftrightarrow> only_wrote s s' \<and> se_sent s' = se_sent s @ d"

lemma sendsD:
  "sends d s s' \<Longrightarrow>
     se_sent s' = se_sent s @ d \<and> se_chunk s' = se_chunk s \<and> se_stats s' = se_stats s \<and>
     se_clock s' = se_clock s \<and> se_ticks s' = se_ticks s \<and> se_frames s' = se_frames s \<and>
     se_slept s' = se_slept s \<and> stream_input (se_stream s') = stream_input (se_stream s)"
  by (simp add: sends_def only_wrote_def same_world_fields)

lemma sends_trans: "sends d s s' \<Longrightarrow> sends e s' s'' \<Longrightarrow> sends (d @ e) s s''"
  by (auto simp: sends_def intro: only_wrote_trans)

lemma sends_refl [simp]: "sends [] s s"
  by (simp add: sends_def only_wrote_def)

lemma write_all_sends: "se_write_all d s = (Ok (), s') \<Longrightarrow> ws_clean d \<Longrightarrow> sends d s s'"
  using se.wr_sent [of d s s'] se.wr_frame [of d s "Ok ()" s'] se.wr_inp [of d s "Ok ()" s']
    on_stream_same_world [of "write_all d" s "Ok ()" s']
  by (simp add: sends_def only_wrote_def)

lemma write_line_sends: "se_write_line l s = (Ok (), s') \<Longrightarrow> ascii l \<Longrightarrow> sends (as_bytes l) s s'"
  unfolding write_line_eq by (rule write_all_sends) (simp_all add: ws_clean_ascii)

lemma getchunks_loop_sends:
  assumes "getchunks_loop i n b s = (Ok (), s')" and "i \<le> n" and "CHUNK_SIZE \<le> length b"
  shows "sends (download (Suc n - i) b) s s'"
  using assms
proof (induction i n b arbitrary: s rule: getchunks_loop.induct)
  case (1 i n b)
  define b' where "b' = mark (i = n) b"
  have clean: "ws_clean b'" using "1.prems"(3) by (simp add: b'_def mark_chunk_clean)
  have ne: "b \<noteq> []" using "1.prems"(3) by (auto simp: chunk_constants)
  from "1.prems"(1,2) obtain s1 where w: "se_write_all b' s = (Ok (), s1)"
    and l: "getchunks_loop (Suc i) n b' s1 = (Ok (), s')"
    by (subst (asm) getchunks_loop.simps)
      (auto simp: mark_last_def mark_def b'_def ok_act_def panic_act_def elim!: try_act_okE
        split: if_splits)
  note w = write_all_sends [OF w clean]
  show ?case
  proof (cases "i = n")
    case True
    with l have "s' = s1" by (simp add: getchunks_loop.simps [of "Suc n"] ok_act_def)
    with w True show ?thesis by (simp add: b'_def download_def)
  next
    case False
    with "1.prems"(2) have "Suc i \<le> n" by simp
    have "CHUNK_SIZE \<le> length b'" using "1.prems"(3) ne by (simp add: b'_def)
    with "1.IH" [OF "1.prems"(2) l \<open>Suc i \<le> n\<close>] have "sends (download (n - i) b') s1 s'" by simp
    from sends_trans [OF w this] False \<open>Suc i \<le> n\<close> show ?thesis
      by (simp add: b'_def download_mark Suc_diff_le download_Suc [of "n - Suc i", symmetric])
        (metis Suc_diff_Suc Suc_le_eq download_Suc)
  qed
qed

lemma getchunks_loop_reliable:
  "stream_reliable (se_stream s) \<Longrightarrow> b \<noteq> [] \<Longrightarrow>
     \<exists>s'. getchunks_loop i n b s = (Ok (), s') \<and> stream_reliable (se_stream s')"
proof (induction i n b arbitrary: s rule: getchunks_loop.induct)
  case (1 i n b)
  define b' where "b' = butlast b @ [if i = n then 0xFF else 0x00]"
  obtain s1 where w: "se_write_all b' s = (Ok (), s1)" "stream_reliable (se_stream s1)"
    using se.wr_reliable [OF "1.prems"(1)] by blast
  show ?case
  proof (cases "i \<le> n")
    case True
    with "1.IH" [OF True w(2), of b'] w "1.prems"(2) show ?thesis
      by (simp add: getchunks_loop.simps [of i] mark_last_def ok_act_def try_act_def b'_def)
  next
    case False
    with "1.prems" show ?thesis by (simp add: getchunks_loop.simps [of i] ok_act_def)
  qed
qed

lemma chunk_arg_Some:
  assumes "(if a = [] then Some (se_chunk s) else parse_chunk_size a mx) = Some cs"
  shows "chunk_arg a mx s = (Ok True, s\<lparr>se_chunk := cs\<rparr>)"
  using assms by (auto simp: chunk_arg_def ok_act_def try_act_def set_chunk_def split: if_splits)

text \<open>What the client gets after its acknowledgement.\<close>

definition ack_answer :: "string \<Rightarrow> nat \<Rightarrow> bytes" where
  "ack_answer ack ns = as_bytes (if trim ack = ''OK'' then time_line ns else ERR_LINE)"

lemma ascii_answers [simp]: "ascii (time_line ns)" "ascii PONG_LINE" "ascii ACCEPT_LINE"
  by (simp_all add: time_line_def PONG_LINE_def ACCEPT_LINE_def LF_def ascii_ink nat_to_string_ink)

lemma se_read_line_cong:
  "se_stream s = se_stream t \<Longrightarrow> se_read_line s = (r, s') \<Longrightarrow>
     se_read_line t = (r, t\<lparr>se_stream := se_stream s'\<rparr>)"
  by (auto simp: on_stream_eq)

lemma reliable_line:
  assumes "stream_reliable (se_stream s)" and "ascii l"
  obtains s' where "se_write_line l s = (Ok (), s')" "sends (as_bytes l) s s'"
    "stream_reliable (se_stream s')"
  using write_line_reliable [OF assms(1)] write_line_sends [OF _ assms(2)] by metis

lemma await_ok_reliable:
  assumes "stream_reliable (se_stream s)" and "se_read_line s = (Ok ack, s1)"
    and "\<And>s1. stream_reliable (se_stream s1) \<Longrightarrow> se_sent s1 = se_sent s \<Longrightarrow> same_world s s1 \<Longrightarrow>
      trim ack = ''OK'' \<Longrightarrow> \<exists>s'. k s1 = (Ok (), s') \<and> P s'"
    and "\<And>s1 s'. same_world s s1 \<Longrightarrow> se_sent s1 = se_sent s \<Longrightarrow> trim ack \<noteq> ''OK'' \<Longrightarrow>
      sends (as_bytes ERR_LINE) s1 s' \<Longrightarrow> P s'"
  shows "\<exists>s'. await_ok k s = (Ok (), s') \<and> P s'"
proof -
  have r1: "stream_reliable (se_stream s1)" using se.rd_reliable [OF assms(2)] assms(1) by simp
  have w: "same_world s s1" "se_sent s1 = se_sent s"
    using on_stream_same_world [OF assms(2)] se.rd_frame [OF assms(2)] by auto
  show ?thesis
  proof (cases "trim ack = ''OK''")
    case True
    with assms(2) assms(3) [OF r1 w(2,1) True] show ?thesis by (simp add: await_ok_def try_act_def)
  next
    case False
    obtain s2 where "se_write_line ERR_LINE s1 = (Ok (), s2)" "sends (as_bytes ERR_LINE) s1 s2"
      using reliable_line [OF r1 ascii_lines(1)] by blast
    with False assms(2) assms(4) [OF w False] show ?thesis by (simp add: await_ok_def try_act_def)
  qed
qed

definition finish_download :: "nat \<Rightarrow> u64 \<Rightarrow> (session, unit) act" where
  "finish_download start n =
     try_act (elapsed start) (\<lambda>ns.
     try_act (on_stats (add_download n (of_nat ns))) (\<lambda>_.
     await_ok (report_time start)))"

lemma finish_download_reliable:
  assumes "stream_reliable (se_stream s)" and "se_read_line s = (Ok ack, s1)"
  shows "\<exists>s'. finish_download t n s = (Ok (), s') \<and>
     se_sent s' = se_sent s @ ack_answer ack (se_clock s (Suc (se_ticks s)) - t) \<and>
     se_stats s' = add_download n (of_nat (se_clock s (se_ticks s) - t)) (se_stats s) \<and>
     se_chunk s' = se_chunk s"
proof -
  define s2 where "s2 = s\<lparr>se_ticks := Suc (se_ticks s),
    se_stats := add_download n (of_nat (se_clock s (se_ticks s) - t)) (se_stats s)\<rparr>"
  have f: "finish_download t n s = await_ok (report_time t) s2"
    by (simp add: finish_download_def try_act_def elapsed_def on_stats_def s2_def)
  have rel: "stream_reliable (se_stream s2)" using assms(1) by (simp add: s2_def)
  have rd: "se_read_line s2 = (Ok ack, s2\<lparr>se_stream := se_stream s1\<rparr>)"
    by (rule se_read_line_cong [OF _ assms(2)]) (simp add: s2_def)
  show ?thesis unfolding f
  proof (rule await_ok_reliable [OF rel rd], goal_cases)
    case (1 s3)
    define s4 where "s4 = s3\<lparr>se_ticks := Suc (se_ticks s3)\<rparr>"
    have "stream_reliable (se_stream s4)" using 1(1) by (simp add: s4_def)
    then obtain s5 where s5: "se_write_line (time_line (se_clock s3 (se_ticks s3) - t)) s4 = (Ok (), s5)"
      "sends (as_bytes (time_line (se_clock s3 (se_ticks s3) - t))) s4 s5"
      using reliable_line ascii_answers(1) by blast
    have "report_time t s3 = (Ok (), s5)"
      using s5(1) by (simp add: report_time_def try_act_def elapsed_def s4_def)
    with 1 s5(2) same_world_fields [OF 1(3)] show ?case
      by (auto simp: s4_def s2_def ack_answer_def dest!: sendsD)
  next
    case (2 s3 s4)
    then show ?case using same_world_fields [OF 2(1)]
      by (auto simp: s2_def ack_answer_def dest!: sendsD)
  qed
qed

lemma same_world_ticks: "same_world s s' \<Longrightarrow> same_world (s\<lparr>se_ticks := t\<rparr>) (s'\<lparr>se_ticks := t\<rparr>)"
  unfolding same_world_def by (metis session.surjective session.update_convs(1,5))

lemma sends_ticks: "sends d (s\<lparr>se_ticks := u\<rparr>) s' \<Longrightarrow> sends d (s\<lparr>se_ticks := t\<rparr>) (s'\<lparr>se_ticks := t\<rparr>)"
  using same_world_ticks [of "s\<lparr>se_ticks := u\<rparr>" s' t] by (simp add: sends_def only_wrote_def)

lemma gettime_step_sends:
  assumes "gettime_step t m b s = (Ok (fin, b', k), s')" and "ws_clean b'"
  shows "sends b' (s\<lparr>se_ticks := Suc (se_ticks s)\<rparr>) s'"
proof -
  have "se_write_all b' (s\<lparr>se_ticks := Suc (se_ticks s)\<rparr>) = (Ok (), s')"
    using assms(1)
    by (auto simp: gettime_step_def elapsed_def mark_last_def observe_def ok_act_def
        panic_act_def Let_def elim!: try_act_okE split: if_splits)
  then show ?thesis using assms(2) by (rule write_all_sends)
qed

text \<open>
  The timed download: the number of chunks is the number of clock readings up to the first
  one that reaches the limit.
\<close>

definition first_past :: "nat \<Rightarrow> nat \<Rightarrow> session \<Rightarrow> nat \<Rightarrow> bool" where
  "first_past t m s k \<longleftrightarrow>
     0 < k \<and> m \<le> se_clock s (se_ticks s + k - 1) - t \<and>
     (\<forall>j. j < k - 1 \<longrightarrow> se_clock s (se_ticks s + j) - t < m)"

lemma first_past_Suc:
  assumes "first_past t m s' k" and "se_clock s' = se_clock s" and "se_ticks s' = Suc (se_ticks s)"
    and "se_clock s (se_ticks s) - t < m"
  shows "first_past t m s (Suc k)"
proof -
  have "se_clock s (se_ticks s + j) - t < m" if "j < k" for j
    using that assms by (cases j) (auto simp: first_past_def)
  with assms show ?thesis by (simp add: first_past_def)
qed

lemma gettime_loop_sends:
  assumes "gettime_loop t m b n s = Some (Ok v, s')" and "CHUNK_SIZE \<le> length b"
  shows "\<exists>k. first_past t m s k \<and> v = n + of_nat k * of_nat (se_chunk s) \<and>
     sends (download k b) (s\<lparr>se_ticks := se_ticks s + k\<rparr>) s'"
proof -
  let ?P = "\<lambda>t m b n s y. \<forall>v s'. y = (Ok v, s') \<longrightarrow> CHUNK_SIZE \<le> length b \<longrightarrow>
    (\<exists>k. first_past t m s k \<and> v = n + of_nat k * of_nat (se_chunk s) \<and>
       sends (download k b) (s\<lparr>se_ticks := se_ticks s + k\<rparr>) s')"
  have "?P t m b n s (Ok v, s')"
  proof (rule gettime_loop.raw_induct [where P = ?P, OF _ assms(1)], goal_cases)
    case (1 loop t m b n s y)
    show ?case
    proof (intro allI impI)
      fix v s' assume y: "y = (Ok v, s')" and len: "CHUNK_SIZE \<le> length b"
      with 1(2) obtain fin b' c s1 where st: "gettime_step t m b s = (Ok (fin, b', c), s1)"
        by (auto split: prod.splits res.splits)
      note o = gettime_step_Ok [OF st]
      have b': "CHUNK_SIZE \<le> length b'" "ws_clean b'"
        using len o(2,3) by (simp_all add: mark_chunk_clean)
      have s1: "sends b' (s\<lparr>se_ticks := se_ticks s + 1\<rparr>) s1"
        using gettime_step_sends [OF st b'(2)] by simp
      show "\<exists>k. first_past t m s k \<and> v = n + of_nat k * of_nat (se_chunk s) \<and>
          sends (download k b) (s\<lparr>se_ticks := se_ticks s + k\<rparr>) s'"
      proof (cases fin)
        case True
        with 1(2) st y have "v = n + c" "s' = s1" by simp_all
        with True o s1 show ?thesis
          by (intro exI [of _ 1]) (simp add: first_past_def download_def)
      next
        case False
        with 1(2) st y have "loop t m b' (n + c) s1 = Some (Ok v, s')" by simp
        from 1(1) [OF this] b' obtain k where k: "first_past t m s1 k"
          "v = n + c + of_nat k * of_nat (se_chunk s1)"
          "sends (download k b') (s1\<lparr>se_ticks := se_ticks s1 + k\<rparr>) s'" by blast
        have "first_past t m s (Suc k)"
          using False o by (intro first_past_Suc [OF k(1)]) auto
        moreover have "sends (download (Suc k) b) (s\<lparr>se_ticks := se_ticks s + Suc k\<rparr>) s'"
        proof -
          have "sends b' (s\<lparr>se_ticks := se_ticks s + Suc k\<rparr>) (s1\<lparr>se_ticks := se_ticks s1 + k\<rparr>)"
            using sends_ticks [OF s1, of "se_ticks s + Suc k"] o(8) by simp
          from sends_trans [OF this k(3)] k(1) False o(3) show ?thesis
            by (cases k) (auto simp: first_past_def download_mark download_Suc)
        qed
        ultimately show ?thesis using k(2) o(4,5)
          by (intro exI [of _ "Suc k"]) (simp add: algebra_simps)
      qed
    qed
  qed
  with assms(2) show ?thesis by simp
qed

lemma gettime_step_reliable:
  assumes "stream_reliable (se_stream s)" and "b \<noteq> []"
  shows "\<exists>v s'. gettime_step t m b s = (Ok v, s') \<and> stream_reliable (se_stream s')"
proof -
  define s1 where "s1 = s\<lparr>se_ticks := Suc (se_ticks s)\<rparr>"
  have "stream_reliable (se_stream s1)" using assms(1) by (simp add: s1_def)
  from se.wr_reliable [OF this, of "mark (m \<le> se_clock s (se_ticks s) - t) b"] assms(2) show ?thesis
    by (auto simp: gettime_step_def elapsed_def mark_last_def mark_def observe_def ok_act_def
        Let_def try_act_def s1_def)
qed

lemma gettime_loop_reliable:
  assumes "gettime_loop t m b n s = Some y" and "stream_reliable (se_stream s)" and "b \<noteq> []"
  shows "(\<exists>v. fst y = Ok v) \<and> stream_reliable (se_stream (snd y))"
proof -
  let ?P = "\<lambda>t m b n s y. stream_reliable (se_stream s) \<longrightarrow> b \<noteq> [] \<longrightarrow>
    (\<exists>v. fst y = Ok v) \<and> stream_reliable (se_stream (snd y))"
  have "?P t m b n s y"
  proof (rule gettime_loop.raw_induct [where P = ?P, OF _ assms(1)], goal_cases)
    case (1 loop t m b n s y)
    show ?case
    proof (intro impI)
      assume r: "stream_reliable (se_stream s)" and b: "b \<noteq> []"
      obtain fin b' k s1 where st: "gettime_step t m b s = (Ok (fin, b', k), s1)"
        and r1: "stream_reliable (se_stream s1)" using gettime_step_reliable [OF r b] by fastforce
      have "b' \<noteq> []" using gettime_step_Ok(3) [OF st] by simp
      with 1(2) 1(1) [of t m b' "n + k" s1] st r1
      show "(\<exists>v. fst y = Ok v) \<and> stream_reliable (se_stream (snd y))"
        by (auto split: if_splits)
    qed
  qed
  with assms(2,3) show ?thesis by simp
qed

section \<open>Uploads\<close>

text \<open>Intermediate reports: at most one a millisecond.\<close>

fun spaced :: "int \<Rightarrow> (int \<times> u64) list \<Rightarrow> bool" where
  "spaced l [] = True"
| "spaced l ((ns, n) # rs) = (0 \<le> ns \<and> (l < 0 \<or> 1000000 \<le> ns - l) \<and> spaced ns rs)"

definition report_lines :: "(int \<times> u64) list \<Rightarrow> bytes" where
  "report_lines rs = as_bytes (concat (map (\<lambda>(ns, n). bytes_line ns n) rs))"

lemma ascii_bytes_line [simp]: "ascii (bytes_line ns n)"
  by (simp add: bytes_line_def LF_def ascii_ink int_to_string_ink nat_to_string_ink)

lemma put_report_Ok:
  assumes "put_report x t n l s = (Ok l', s')"
  shows "\<exists>rs u. sends (report_lines rs) (s\<lparr>se_ticks := u\<rparr>) s' \<and> spaced l rs \<and>
     (x = False \<longrightarrow> rs = []) \<and> (rs = [] \<and> l' = l \<or> (\<exists>m. rs = [(l', m)]))"
proof (cases x)
  case False
  with assms have "s' = s\<lparr>se_ticks := se_ticks s\<rparr>" "l' = l"
    by (auto simp: put_report_def ok_act_def)
  then show ?thesis using False
    by (intro exI [of _ "[]"] exI [of _ "se_ticks s"]) (simp add: report_lines_def)
next
  case True
  define ns where "ns = int (se_clock s (se_ticks s) - t)"
  define s1 where "s1 = s\<lparr>se_ticks := Suc (se_ticks s)\<rparr>"
  show ?thesis
  proof (cases "l < 0 \<or> ns - l \<ge> 1000000")
    case rep: True
    with assms True have "se_write_line (bytes_line ns n) s1 = (Ok (), s')" "l' = ns"
      by (auto simp: put_report_def elapsed_def ok_act_def Let_def ns_def s1_def elim!: try_act_okE)
    with rep write_line_sends [of "bytes_line ns n" s1 s'] show ?thesis
      by (intro exI [of _ "[(ns, n)]"] exI [of _ "Suc (se_ticks s)"])
        (auto simp: report_lines_def s1_def True ns_def)
  next
    case False
    with assms True have "s' = s1" "l' = l"
      by (auto simp: put_report_def elapsed_def ok_act_def Let_def ns_def s1_def try_act_def)
    then show ?thesis using True
      by (intro exI [of _ "[]"] exI [of _ "Suc (se_ticks s)"]) (simp add: report_lines_def s1_def)
  qed
qed

lemma put_report_reliable:
  assumes "stream_reliable (se_stream s)"
  shows "\<exists>l' s'. put_report x t n l s = (Ok l', s') \<and> stream_reliable (se_stream s')"
proof -
  define s1 where "s1 = s\<lparr>se_ticks := Suc (se_ticks s)\<rparr>"
  have "stream_reliable (se_stream s1)" using assms by (simp add: s1_def)
  from write_line_reliable [OF this, of "bytes_line (int (se_clock s (se_ticks s) - t)) n"]
  obtain s2 where "se_write_line (bytes_line (int (se_clock s (se_ticks s) - t)) n) s1 = (Ok (), s2)"
    "stream_reliable (se_stream s2)" by blast
  with assms show ?thesis
    by (cases x; cases "l < 0 \<or> int (se_clock s (se_ticks s) - t) - l \<ge> 1000000")
      (auto simp: put_report_def elapsed_def ok_act_def Let_def try_act_def s1_def)
qed

lemma read_exact_input:
  assumes "stream_input (se_stream s) = Inl (c @ ys, e)"
  obtains s' where "se_read_exact (length c) s = (Ok c, s')" "same_world s s'"
    "se_sent s' = se_sent s" "stream_input (se_stream s') = Inl (ys, e)"
    "stream_reliable (se_stream s') = stream_reliable (se_stream s)"
proof -
  from assms obtain t where t: "se_stream s = Raw t" "d_in (chan t) = c @ ys" "d_end (chan t) = e"
    by (cases "se_stream s") (auto simp: t_input_def)
  define s' where "s' = s\<lparr>se_stream := Raw (with_chan t ((chan t)\<lparr>d_in := ys\<rparr>))\<rparr>"
  have r: "se_read_exact (length c) s = (Ok c, s')"
    using t by (simp add: on_stream_def on_raw_def t_read_exact_def on_chan_def d_read_exact_def s'_def)
  show thesis
    by (rule that [OF r])
      (use se.rx_frame [OF r] se.rx_reliable [OF r] on_stream_same_world [OF r] t
       in \<open>auto simp: s'_def t_input_def\<close>)
qed

text \<open>An upload: blocks of the chunk size, of which only the last ends in 0xFF.\<close>

fun is_upload :: "nat \<Rightarrow> bytes list \<Rightarrow> bool" where
  "is_upload n [] = False"
| "is_upload n [c] = (length c = n \<and> last c = 0xFF)"
| "is_upload n (c # d # cs) = (length c = n \<and> last c \<noteq> 0xFF \<and> is_upload n (d # cs))"

text \<open>What an upload step leaves as it was.\<close>

definition kept :: "session \<Rightarrow> session \<Rightarrow> bool" where
  "kept s s' \<longleftrightarrow> se_chunk s' = se_chunk s \<and> se_stats s' = se_stats s \<and> se_clock s' = se_clock s \<and>
     se_ticks s \<le> se_ticks s'"

lemma put_step_input:
  assumes "stream_input (se_stream s) = Inl (c @ ys, e)" and "length c = se_chunk s" and "c \<noteq> []"
    and "stream_reliable (se_stream s)"
  shows "\<exists>l' s' rs. put_step x t n l s = (Ok (n + of_nat (length c), l', last c = 0xFF), s') \<and>
     stream_input (se_stream s') = Inl (ys, e) \<and> stream_reliable (se_stream s') \<and> kept s s' \<and>
     se_sent s' = se_sent s @ report_lines rs \<and> spaced l rs \<and> (x = False \<longrightarrow> rs = []) \<and>
     (rs = [] \<and> l' = l \<or> (\<exists>m. rs = [(l', m)]))"
proof -
  obtain s1 where r: "se_read_exact (length c) s = (Ok c, s1)" "same_world s s1"
    "se_sent s1 = se_sent s" "stream_input (se_stream s1) = Inl (ys, e)"
    "stream_reliable (se_stream s1)" using read_exact_input [OF assms(1)] assms(4) by metis
  obtain l' s2 where p: "put_report x t (n + of_nat (length c)) l s1 = (Ok l', s2)"
    and rel: "stream_reliable (se_stream s2)" using put_report_reliable [OF r(5)] by blast
  have "put_step x t n l s = (Ok (n + of_nat (length c), l', last c = 0xFF), s2)"
    using r(1) p assms(3)
    by (simp add: put_step_def try_act_def observe_def ok_act_def Let_def last_conv_nth
        flip: assms(2))
  moreover from put_report_Ok [OF p] obtain rs u where
    "sends (report_lines rs) (s1\<lparr>se_ticks := u\<rparr>) s2" "spaced l rs" "x = False \<longrightarrow> rs = []"
    "rs = [] \<and> l' = l \<or> (\<exists>m. rs = [(l', m)])" by blast
  moreover have "se_ticks s1 \<le> se_ticks s2"
    using relatesD [OF quiet_parts(5) p] by (simp add: quiet_def advances_def)
  ultimately show ?thesis
    using rel r same_world_fields [OF r(2)] sendsD [of "report_lines rs" "s1\<lparr>se_ticks := u\<rparr>" s2]
    by (auto simp: kept_def)
qed

lemma report_lines_append: "report_lines (rs @ qs) = report_lines rs @ report_lines qs"
  by (simp add: report_lines_def)

lemma put_loop_upload:
  "is_upload (se_chunk s) cs \<Longrightarrow> 0 < se_chunk s \<Longrightarrow> stream_reliable (se_stream s) \<Longrightarrow>
     stream_input (se_stream s) = Inl (concat cs @ rest, e) \<Longrightarrow>
     \<exists>s' rs. put_loop x t n l s = (Ok (n + of_nat (length (concat cs))), s') \<and>
       stream_input (se_stream s') = Inl (rest, e) \<and> stream_reliable (se_stream s') \<and> kept s s' \<and>
       se_sent s' = se_sent s @ report_lines rs \<and> spaced l rs \<and> (x = False \<longrightarrow> rs = [])"
proof (induction "se_chunk s" cs arbitrary: n l s rule: is_upload.induct)
  case 1
  then show ?case by simp
next
  case (2 c)
  then have "length c = se_chunk s" "c \<noteq> []" by auto
  from put_step_input [OF _ this, of rest e x t n l] 2 show ?case
    by (auto simp: put_loop.simps [of x t n l s])
next
  case (3 c d cs)
  have c: "length c = se_chunk s" "c \<noteq> []" "last c \<noteq> 0xFF" using "3.prems" by auto
  have "stream_input (se_stream s) = Inl (c @ (concat (d # cs) @ rest), e)" using "3.prems"(4) by simp
  from put_step_input [OF this c(1,2) "3.prems"(3), of x t n l] obtain l1 s1 rs1 where
    st: "put_step x t n l s = (Ok (n + of_nat (length c), l1, False), s1)"
    and s1: "stream_input (se_stream s1) = Inl (concat (d # cs) @ rest, e)"
      "stream_reliable (se_stream s1)" "kept s s1" "se_sent s1 = se_sent s @ report_lines rs1"
    and rs1: "spaced l rs1" "x = False \<longrightarrow> rs1 = []" "rs1 = [] \<and> l1 = l \<or> (\<exists>m. rs1 = [(l1, m)])"
    using c(3) by auto
  have k: "se_chunk s1 = se_chunk s" using s1(3) by (simp add: kept_def)
  from "3.hyps" [of s1 "n + of_nat (length c)" l1] k "3.prems" s1 obtain s2 rs2 where
    l: "put_loop x t (n + of_nat (length c)) l1 s1 =
          (Ok (n + of_nat (length c) + of_nat (length (concat (d # cs)))), s2)"
    and s2: "stream_input (se_stream s2) = Inl (rest, e)" "stream_reliable (se_stream s2)"
      "kept s1 s2" "se_sent s2 = se_sent s1 @ report_lines rs2" "spaced l1 rs2"
      "x = False \<longrightarrow> rs2 = []" by auto
  have "put_loop x t n l s = (Ok (n + of_nat (length (concat (c # d # cs)))), s2)"
    using st l by (simp add: put_loop.simps [of x t n l s] algebra_simps)
  moreover have "spaced l (rs1 @ rs2)" using rs1 s2(5) by auto
  moreover have "kept s s2" using s1(3) s2(3) by (auto simp: kept_def)
  ultimately show ?case using rs1(2) s1(4) s2
    by (intro exI [of _ s2] exI [of _ "rs1 @ rs2"]) (simp add: report_lines_append)
qed

section \<open>Refused arguments\<close>

lemma chunk_arg_None:
  assumes "a \<noteq> []" and "parse_chunk_size a mx = None"
  shows "try_act (chunk_arg a mx) (\<lambda>go. if \<not> go then ok_act () else k) s = se_write_line ERR_LINE s"
    and "try_io (io_of (chunk_arg a mx)) (\<lambda>go. if \<not> go then io_of (ok_act ()) else k') s =
      Some (se_write_line ERR_LINE s)"
proof -
  obtain r s' where w: "se_write_line ERR_LINE s = (r, s')" by fastforce
  show "try_act (chunk_arg a mx) (\<lambda>go. if \<not> go then ok_act () else k) s = se_write_line ERR_LINE s"
    "try_io (io_of (chunk_arg a mx)) (\<lambda>go. if \<not> go then io_of (ok_act ()) else k') s =
      Some (se_write_line ERR_LINE s)"
    using assms w by (cases r; simp add: chunk_arg_def try_act_def try_io_def io_of_def ok_act_def)+
qed

subsection \<open>Concrete sessions\<close>

lemma demo_ack: "fst (se_read_line (demo_session (''OK'' @ [LF]))) = Ok ''OK''"
proof -
  have "read_line (Raw (Plain (demo_duplex (''OK'' @ [LF])))) =
      (Ok ''OK'', Raw (with_chan (Plain (demo_duplex (''OK'' @ [LF])))
        ((chan (Plain (demo_duplex (''OK'' @ [LF]))))\<lparr>d_in := []\<rparr>)))"
    by (rule read_line_Raw [where e = "[LF]"])
      (simp_all add: demo_duplex_def LF_def CR_def MAX_LINE_LENGTH_def as_bytes_def utf8_next_def)
  then show ?thesis by (simp add: on_stream_def demo_session_def)
qed

lemma demo_session_facts:
  "chunk_ok (\<lambda>b. b) (demo_session inp)" "stream_reliable (se_stream (demo_session inp))"
  "clock_runs (demo_session inp)" "se_chunk (demo_session inp) = 4096"
  "stream_input (se_stream (demo_session inp)) = Inl (as_bytes inp, None)"
  "se_sent (demo_session inp) = []"
proof -
  show "clock_runs (demo_session inp)"
    unfolding clock_runs_def
  proof (intro allI)
    fix t m :: nat
    show "\<exists>i \<ge> m. t \<le> se_clock (demo_session inp) i"
      by (rule exI [of _ "t + m"]) (simp add: demo_session_def)
  qed
qed (simp_all add: demo_session_def chunk_ok_def RANDOM_CHUNK_def chunk_constants demo_duplex_def
    t_reliable_def t_input_def t_sent_def)

lemma trim_OK: "trim ''OK'' = ''OK''"
  by (rule trim_ink) (simp_all add: ink_def)

section \<open>Clients that do not stop\<close>

text \<open>
  The data of a session are finite, but there is no bound on a session: the socket's timeout is
  one of each read. A client that goes on is an environment that sends more between two rounds of
  the loop. \<open>serving fill s n s'\<close>: from \<open>s\<close> the loop has served \<open>n\<close> commands, each after the client
  has sent arbitrary further data, and goes on in \<open>s'\<close>. A round is the body of \<open>command_loop\<close>.
\<close>

fun more_input :: "bytes \<Rightarrow> (ws_error + ws_message) list \<Rightarrow> stream \<Rightarrow> stream" where
  "more_input bs ms (Raw t) = Raw (with_chan t ((chan t)\<lparr>d_in := d_in (chan t) @ bs\<rparr>))"
| "more_input bs ms (WebSocket w) = WebSocket (w\<lparr>ws_in := ws_in w @ ms\<rparr>)"

definition fed :: "bytes \<Rightarrow> (ws_error + ws_message) list \<Rightarrow> session \<Rightarrow> session" where
  "fed bs ms s = s\<lparr>se_stream := more_input bs ms (se_stream s)\<rparr>"

inductive serving :: "(bytes \<Rightarrow> bytes) \<Rightarrow> session \<Rightarrow> nat \<Rightarrow> session \<Rightarrow> bool"
  for fill :: "bytes \<Rightarrow> bytes" and s :: session where
  start: "serving fill s 0 s"
| round: "serving fill s n s1 \<Longrightarrow> accept_command (fed bs ms s1) = (Ok line, s2) \<Longrightarrow>
    run_command fill line s2 = Some (Ok False, s3) \<Longrightarrow> serving fill s (Suc n) s3"

lemma more_input_keeps:
  "stream_sent (more_input bs ms st) = stream_sent st" "peer_addr (more_input bs ms st) = peer_addr st"
  "stream_reliable (more_input bs ms st) = stream_reliable st"
  by (cases st; simp add: t_sent_def t_peer_addr_def t_reliable_def ws_sent_def)+

lemma fed_simps [simp]:
  "se_sent (fed bs ms s) = se_sent s" "se_chunk (fed bs ms s) = se_chunk s"
  "se_clock (fed bs ms s) = se_clock s" "se_frames (fed bs ms s) = se_frames s"
  "se_slept (fed bs ms s) = se_slept s" "stream_reliable (se_stream (fed bs ms s)) = stream_reliable (se_stream s)"
  by (simp_all add: fed_def more_input_keeps)

text \<open>What every round keeps, whatever is sent in between.\<close>

definition steady :: "session \<Rightarrow> session \<Rightarrow> bool" where
  "steady s s' \<longleftrightarrow> prefix (se_sent s) (se_sent s') \<and> se_clock s' = se_clock s \<and>
     se_frames s' = se_frames s \<and> se_slept s' = se_slept s"

lemma steady_trans: "steady s s1 \<Longrightarrow> steady s1 s2 \<Longrightarrow> steady s s2"
  by (auto simp: steady_def)

lemma quiet_steady: "quiet s s' \<Longrightarrow> steady s s'"
  by (simp add: quiet_def advances_def steady_def)

lemma serving_invariant:
  "serving fill s n s' \<Longrightarrow> chunk_ok fill s \<Longrightarrow> steady s s' \<and> chunk_ok fill s'"
proof (induction rule: serving.induct)
  case start
  then show ?case by (simp add: steady_def)
next
  case (round n s1 bs ms line s2 s3)
  have "chunk_ok fill (fed bs ms s1)" "steady s1 (fed bs ms s1)"
    using round by (simp_all add: chunk_ok_def steady_def)
  moreover from this(1) have "chunk_ok fill s2"
    using safeD [OF accept_command_acts(2) _ round.hyps(2)] by blast
  moreover have "steady (fed bs ms s1) s2"
    using relatesD [OF accept_command_acts(1) round.hyps(2)] by (rule quiet_steady)
  moreover have "steady s2 s3"
    using command.quiet [of fill line] round.hyps(3) by (auto simp: io_relates_def intro: quiet_steady)
  moreover have "chunk_ok fill s3"
    using command.safe [of fill line] round.hyps(3) calculation(3) by (auto simp: io_safe_def)
  ultimately show ?case using round.IH round.prems by (blast intro: steady_trans)
qed

lemma next_round:
  assumes "chunk_ok fill s" and "clock_runs s"
  shows "case accept_command s of
      (Ok line, s2) \<Rightarrow> \<exists>r s3. run_command fill line s2 = Some (r, s3) \<and> (\<forall>p. r \<noteq> Panic p)
    | (r, _) \<Rightarrow> \<exists>e. r = Err e"
proof -
  obtain r s2 where a: "accept_command s = (r, s2)" by fastforce
  note q = relatesD [OF accept_command_acts(1) a] and i = safeD [OF accept_command_acts(2) assms(1) a]
  have "clock_runs s2" using assms(2) q by (simp add: quiet_clock_runs)
  then show ?thesis
    using a i command.returns [of fill] command.safe [of fill]
    by (cases r) (auto simp: io_returns_def io_safe_def, fastforce)
qed

text \<open>One round with a client that sends \<open>PING\<close> and \<open>OK\<close>.\<close>

lemma write_then_read:
  assumes "stream_reliable (se_stream s)" and "ascii m" and "se_read_line q = (Ok l, q')"
    and "stream_input (se_stream q) = stream_input (se_stream s)"
  obtains t t' where "se_write_line m s = (Ok (), t)" "se_read_line t = (Ok l, t')"
    "stream_reliable (se_stream t')" "stream_input (se_stream t') = stream_input (se_stream q')"
proof -
  obtain t where t: "se_write_line m s = (Ok (), t)" "sends (as_bytes m) s t" "stream_reliable (se_stream t)"
    using reliable_line [OF assms(1,2)] by blast
  then have "stream_input (se_stream q) = stream_input (se_stream t)"
    using assms(4) sendsD [OF t(2)] by simp
  with se.rd_inp [OF assms(3)] obtain t' where
    "se_read_line t = (Ok l, t')" "stream_input (se_stream t') = stream_input (se_stream q')" by blast
  with that t se.rd_reliable show thesis by blast
qed

lemma ping_round:
  assumes "stream_reliable (se_stream s)" and "se_read_line s = (Ok ''PING'', s1)"
    and "se_read_line s1 = (Ok ''OK'', s2)"
  shows "\<exists>s3 s4. accept_command s = (Ok ''PING'', s3) \<and> run_command fill ''PING'' s3 = Some (Ok False, s4) \<and>
     stream_reliable (se_stream s4) \<and> stream_input (se_stream s4) = stream_input (se_stream s2)"
proof -
  obtain sa s3 where a: "se_write_line ACCEPT_LINE s = (Ok (), sa)" "se_read_line sa = (Ok ''PING'', s3)"
    "stream_reliable (se_stream s3)" "stream_input (se_stream s3) = stream_input (se_stream s1)"
    using write_then_read [OF assms(1) ascii_answers(3) assms(2) refl] by blast
  define s3' where "s3' = s3\<lparr>se_stats := count_command (se_stats s3), se_ticks := Suc (se_ticks s3)\<rparr>"
  have "stream_reliable (se_stream s3')" "stream_input (se_stream s1) = stream_input (se_stream s3')"
    using a(3,4) by (simp_all add: s3'_def)
  then obtain sb s5 where b: "se_write_line PONG_LINE s3' = (Ok (), sb)" "se_read_line sb = (Ok ''OK'', s5)"
    "stream_reliable (se_stream s5)" "stream_input (se_stream s5) = stream_input (se_stream s2)"
    using write_then_read [OF _ ascii_answers(2) assms(3)] by blast
  define ns where "ns = se_clock s5 (se_ticks s5) - se_clock s3 (se_ticks s3)"
  define s5' where "s5' = s5\<lparr>se_ticks := Suc (se_ticks s5), se_stats := add_ping (of_nat ns) (se_stats s5)\<rparr>"
  have "stream_reliable (se_stream s5')" using b(3) by (simp add: s5'_def)
  then obtain s6 where c: "se_write_line (time_line ns) s5' = (Ok (), s6)" "sends (as_bytes (time_line ns)) s5' s6"
    "stream_reliable (se_stream s6)" using reliable_line ascii_answers(1) by blast
  have "handle_ping (s3\<lparr>se_stats := count_command (se_stats s3)\<rparr>) = (Ok (), s6)"
    using b c(1) by (simp add: handle_ping_def try_act_def instant_now_def s3'_def await_ok_def trim_OK
        elapsed_def on_stats_def s5'_def ns_def)
  moreover have "trim ''PING'' = ''PING''" by (rule trim_ink) (simp_all add: ink_def)
  then have "command_parts ''PING'' = (''PING'', [], [])"
    by (simp add: command_parts_def nth_or_empty_def eval_nat_numeral trim_Nil strip_prefix_def
        starts_with_def Let_def)
  ultimately have "run_command fill ''PING'' s3 = Some (Ok False, s6)"
    by (simp add: run_command_def counted_def try_io_def io_of_def on_stats_def ok_act_def)
  moreover have "accept_command s = (Ok ''PING'', s3)"
    using a by (simp add: accept_command_def try_act_def)
  moreover have "stream_input (se_stream s6) = stream_input (se_stream s2)"
    using sendsD [OF c(2)] b(4) by (simp add: s5'_def)
  ultimately show ?thesis using c(3) by blast
qed

text \<open>The two lines on a plain or TLS stream whose data have been consumed.\<close>

definition ping_ok :: bytes where
  "ping_ok = as_bytes (''PING'' @ [LF] @ ''OK'' @ [LF])"

lemma ping_ok_lines:
  assumes "stream_input (se_stream s) = Inl ([], e)"
  shows "\<exists>s1 s2. se_read_line (fed ping_ok [] s) = (Ok ''PING'', s1) \<and> se_read_line s1 = (Ok ''OK'', s2) \<and>
     stream_input (se_stream s2) = Inl ([], e)"
proof -
  obtain t where t: "se_stream s = Raw t" "d_in (chan t) = []" "d_end (chan t) = e"
    using assms by (cases "se_stream s") (simp_all add: t_input_def)
  have v: "valid_utf8 (as_bytes l)" if "ascii l" for l
    using that ascii_bytes by (intro valid_utf8_ascii) blast
  have split: "ping_ok = as_bytes (''PING'' @ [LF]) @ as_bytes (''OK'' @ [LF])"
    unfolding ping_ok_def by (simp add: as_bytes_def)
  have "read_line (Raw (with_chan t ((chan t)\<lparr>d_in := ping_ok\<rparr>))) =
      (Ok ''PING'', Raw (with_chan t ((chan t)\<lparr>d_in := as_bytes (''OK'' @ [LF])\<rparr>)))"
    unfolding split
    by (subst read_line_Raw [where l = "''PING''" and e = "[LF]" and rest = "as_bytes (''OK'' @ [LF])"])
      (use v in \<open>simp_all add: LF_def CR_def MAX_LINE_LENGTH_def\<close>)
  moreover have "read_line (Raw (with_chan t ((chan t)\<lparr>d_in := as_bytes (''OK'' @ [LF])\<rparr>))) =
      (Ok ''OK'', Raw (with_chan t ((chan t)\<lparr>d_in := []\<rparr>)))"
    by (subst read_line_Raw [where l = "''OK''" and e = "[LF]" and rest = "[]"])
      (use v in \<open>simp_all add: LF_def CR_def MAX_LINE_LENGTH_def\<close>)
  ultimately show ?thesis
    using t by (auto simp: fed_def on_stream_eq t_input_def)
qed

lemma serving_without_end:
  assumes "stream_reliable (se_stream s)" and "stream_input (se_stream s) = Inl ([], e)"
  shows "\<exists>s'. serving fill s n s' \<and> stream_reliable (se_stream s') \<and> stream_input (se_stream s') = Inl ([], e)"
proof (induction n)
  case 0
  then show ?case using assms serving.start by blast
next
  case (Suc n)
  then obtain s1 where s1: "serving fill s n s1" "stream_reliable (se_stream s1)"
    "stream_input (se_stream s1) = Inl ([], e)" by blast
  have r: "stream_reliable (se_stream (fed ping_ok [] s1))" using s1(2) by simp
  obtain p q where pq: "se_read_line (fed ping_ok [] s1) = (Ok ''PING'', p)" "se_read_line p = (Ok ''OK'', q)"
    "stream_input (se_stream q) = Inl ([], e)" using ping_ok_lines [OF s1(3)] by blast
  from ping_round [OF r pq(1,2)] pq(3) show ?case using serving.round [OF s1(1)] by metis
qed

section \<open>Properties\<close>

text \<open>
  C3: the command phase ends with its client. Whatever a client sends before it stops (closes,
  fails or falls silent until the socket's timeout, which is how the data of a session end),
  in whatever order, and whichever writes fail, the dispatch loop returns, as long as the clock
  passes every point of time; it does not panic, it leaves a chunk size in the advertised range,
  it only ever appends to the output, and it neither sleeps nor emits events. There is no
  deadline for the session: a client that does not stop is the subject of the next two theorems.
\<close>

theorem command_phase_ends:
  assumes "clock_runs s" and "length (RANDOM_CHUNK fill) = MAX_CHUNK_SIZE"
  shows "\<exists>r s'. run_commands fill s = Some (r, s') \<and> (r = Ok () \<or> (\<exists>e. r = Err e)) \<and>
     MIN_CHUNK_SIZE \<le> se_chunk s' \<and> se_chunk s' \<le> MAX_CHUNK_SIZE \<and>
     prefix (se_sent s) (se_sent s') \<and> se_frames s' = se_frames s \<and> se_slept s' = se_slept s"
proof -
  from run_commands_outcome [OF assms] obtain r s' where
    "run_commands fill s = Some (r, s')" "quiet s s'" "chunk_ok fill s'" "\<forall>p. r \<noteq> Panic p"
    by blast
  then show ?thesis by (cases r) (auto simp: quiet_def advances_def chunk_ok_def)
qed

theorem command_phase_ends_witness:
  "\<exists>r s'. run_commands (\<lambda>b. b) (demo_session (''GETTIME 1'' @ [LF])) = Some (r, s') \<and>
     se_chunk s' \<le> MAX_CHUNK_SIZE"
proof -
  have "length (RANDOM_CHUNK (\<lambda>b. b)) = MAX_CHUNK_SIZE" by (simp add: RANDOM_CHUNK_def)
  then show ?thesis using command_phase_ends demo_session_facts(3) by blast
qed

text \<open>
  C14: clients that do not stop. However many commands a client has had served, and whatever it
  has sent in between, the dispatch loop has only appended to the output, has neither slept nor
  emitted an event, and has a chunk size in the advertised range; and whatever the client
  sends next, the next round ends, with a command executed or with an error, but not in a panic.
  (A round takes as long as its client: a \<open>PUT\<close> lasts until the client marks its last chunk or
  stops.)
\<close>

theorem endless_clients_served_safely:
  assumes "serving fill (s\<lparr>se_chunk := CHUNK_SIZE\<rparr>) n s1" and "clock_runs s"
    and "length (RANDOM_CHUNK fill) = MAX_CHUNK_SIZE"
  shows "prefix (se_sent s) (se_sent s1) \<and> se_frames s1 = se_frames s \<and> se_slept s1 = se_slept s \<and>
     MIN_CHUNK_SIZE \<le> se_chunk s1 \<and> se_chunk s1 \<le> MAX_CHUNK_SIZE \<and>
     (case accept_command (fed bs ms s1) of
        (Ok line, s2) \<Rightarrow> \<exists>r s3. run_command fill line s2 = Some (r, s3) \<and> (\<forall>p. r \<noteq> Panic p)
      | (r, _) \<Rightarrow> \<exists>e. r = Err e)"
proof -
  have "chunk_ok fill (s\<lparr>se_chunk := CHUNK_SIZE\<rparr>)"
    using assms(3) by (simp add: chunk_ok_def chunk_constants)
  with serving_invariant [OF assms(1)] have i: "steady (s\<lparr>se_chunk := CHUNK_SIZE\<rparr>) s1" "chunk_ok fill s1"
    by simp_all
  then have "chunk_ok fill (fed bs ms s1)" "clock_runs (fed bs ms s1)"
    using assms(2) by (simp_all add: chunk_ok_def clock_runs_def steady_def)
  from next_round [OF this] i show ?thesis by (simp add: steady_def chunk_ok_def)
qed

theorem endless_clients_served_safely_witness:
  "\<exists>s1. serving (\<lambda>b. b) (demo_session []) 1000 s1 \<and> se_chunk s1 \<le> MAX_CHUNK_SIZE"
proof -
  have "(demo_session [])\<lparr>se_chunk := CHUNK_SIZE\<rparr> = demo_session []"
    by (simp add: demo_session_def chunk_constants)
  moreover obtain s1 where "serving (\<lambda>b. b) (demo_session []) 1000 s1"
    using serving_without_end [OF demo_session_facts(2), of "[]" None] demo_session_facts(5) [of "[]"] by auto
  ultimately show ?thesis
    using endless_clients_served_safely [of "\<lambda>b. b" "demo_session []" 1000 s1 "[]" "[]"]
      demo_session_facts(1,3) [of "[]"] by (auto simp: chunk_ok_def)
qed



text \<open>
  C4: \<open>GETCHUNKS\<close>. With a valid count and chunk size, on a stream that can be written to, the
  client gets exactly \<open>count\<close> chunks of that size, the last one and only it ending in 0xFF, and
  after its acknowledgement the time from the clock reading before the first chunk to the one
  after the acknowledgement, or \<open>ERR\<close> if the acknowledgement is not \<open>OK\<close>. The bytes, whose number
  fits into 64 bits, are added to the connection's downloads together with the time up to the end
  of the chunks; the sum is exact unless the total of the connection reaches \<open>2 ^ 64\<close>.
\<close>

theorem getchunks_sends_count_chunks:
  assumes "chunk_ok fill s" and "stream_reliable (se_stream s)"
    and "parse_u32 arg = Some count" and "0 < count" and "count \<le> MAX_CHUNKS"
    and "(if arg_chunk = [] then Some (se_chunk s) else parse_chunk_size arg_chunk MAX_CHUNK_SIZE)
         = Some cs"
    and "fst (se_read_line s) = Ok ack"
  shows "\<exists>s'. handle_getchunks fill arg arg_chunk MAX_CHUNK_SIZE s = (Ok (), s') \<and>
     se_sent s' = se_sent s @ download count (take cs (RANDOM_CHUNK fill)) @
       ack_answer ack (se_clock s (se_ticks s + 2) - se_clock s (se_ticks s)) \<and>
     length (download count (take cs (RANDOM_CHUNK fill))) = count * cs \<and>
     se_stats s' = add_download (of_nat count * of_nat cs)
       (of_nat (se_clock s (se_ticks s + 1) - se_clock s (se_ticks s))) (se_stats s) \<and>
     unat (of_nat count * of_nat cs :: u64) = count * cs \<and>
     (unat (download_bytes (se_stats s)) + count * cs < 2 ^ 64 \<longrightarrow>
        unat (download_bytes (se_stats s')) = unat (download_bytes (se_stats s)) + count * cs) \<and>
     se_chunk s' = cs"
proof -
  define b where "b = take cs (RANDOM_CHUNK fill)"
  define s0 where "s0 = s\<lparr>se_chunk := cs\<rparr>"
  define s1 where "s1 = s0\<lparr>se_ticks := Suc (se_ticks s)\<rparr>"
  have cs: "CHUNK_SIZE \<le> cs" "cs \<le> MAX_CHUNK_SIZE"
    using assms(1,6) parse_chunk_size_bounds [of arg_chunk MAX_CHUNK_SIZE cs]
    by (auto simp: chunk_ok_def chunk_constants split: if_splits)
  have b: "length b = cs" "b \<noteq> []" using cs assms(1) by (auto simp: b_def chunk_ok_def chunk_constants)
  have "stream_reliable (se_stream s1)" using assms(2) by (simp add: s1_def s0_def)
  from getchunks_loop_reliable [OF this b(2)] obtain s2 where
    l: "getchunks_loop 1 count b s1 = (Ok (), s2)" "stream_reliable (se_stream s2)" by blast
  have snd: "sends (download count b) s1 s2"
    using getchunks_loop_sends [OF l(1)] assms(4) b cs by simp
  obtain x where "se_read_line s = (Ok ack, x)" using assms(7) by (metis prod.collapse)
  moreover have "stream_input (se_stream s) = stream_input (se_stream s2)"
    using sendsD [OF snd] by (simp add: s1_def s0_def)
  ultimately obtain s3 where "se_read_line s2 = (Ok ack, s3)" using se.rd_inp by blast
  from finish_download_reliable [OF l(2) this] obtain s' where
    f: "finish_download (se_clock s (se_ticks s)) (of_nat count * of_nat cs) s2 = (Ok (), s')"
    and "se_sent s' = se_sent s2 @ ack_answer ack (se_clock s2 (Suc (se_ticks s2)) - se_clock s (se_ticks s))"
    and st: "se_stats s' = add_download (of_nat count * of_nat cs)
      (of_nat (se_clock s2 (se_ticks s2) - se_clock s (se_ticks s))) (se_stats s2)"
    and "se_chunk s' = se_chunk s2" by blast
  moreover have "handle_getchunks fill arg arg_chunk MAX_CHUNK_SIZE s = (Ok (), s')"
    using f chunk_arg_Some [OF assms(6)] assms(1,3-5) l(1) cs sendsD [OF snd]
    by (simp add: handle_getchunks_def try_act_def instant_now_def random_buf_def chunk_ok_def
        observe_def elapsed_def finish_download_def s0_def s1_def b_def)
  moreover have fits: "unat (of_nat count * of_nat cs :: u64) = count * cs"
  proof -
    have "count * cs \<le> 300000 * 4194304"
      using assms(5) cs by (intro mult_le_mono) (simp_all add: MAX_CHUNKS_def chunk_constants)
    then show ?thesis by (simp add: unat_of_nat flip: of_nat_mult)
  qed
  moreover have "unat (download_bytes (se_stats s')) = unat (download_bytes (se_stats s)) + count * cs"
    if "unat (download_bytes (se_stats s)) + count * cs < 2 ^ 64"
    using that fits sendsD [OF snd] unat_add_lem [of "download_bytes (se_stats s)" "of_nat count * of_nat cs"]
    by (simp add: st add_download_def s1_def s0_def)
  ultimately show ?thesis
    using sendsD [OF snd] length_download [OF assms(4) b(2)] b(1)
    by (simp add: s1_def s0_def b_def)
qed

theorem getchunks_sends_count_chunks_witness:
  "\<exists>s'. handle_getchunks (\<lambda>b. b) ''3'' [] MAX_CHUNK_SIZE (demo_session (''OK'' @ [LF])) = (Ok (), s') \<and>
     se_sent s' = download 3 (replicate 4096 0) @ as_bytes (time_line 2000)"
proof -
  let ?s = "demo_session (''OK'' @ [LF])"
  have p: "parse_u32 ''3'' = Some 3"
    by (simp add: parse_uint_def parse_digits_def digit_val_def)
  have c: "(if [] = ([] :: string) then Some (se_chunk ?s) else parse_chunk_size [] MAX_CHUNK_SIZE)
      = Some 4096" by (simp add: demo_session_facts(4))
  have t: "take 4096 (RANDOM_CHUNK (\<lambda>b. b)) = replicate 4096 0"
    by (simp add: RANDOM_CHUNK_def chunk_constants)
  have "se_clock ?s (se_ticks ?s + 2) - se_clock ?s (se_ticks ?s) = 2000" by (simp add: demo_session_def)
  then show ?thesis
    using getchunks_sends_count_chunks [OF demo_session_facts(1,2) p _ _ c demo_ack]
    unfolding t by (auto simp: MAX_CHUNKS_def ack_answer_def trim_OK demo_session_facts(6))
qed

text \<open>
  C12: \<open>GETTIME\<close>. With valid arguments, on a stream that can be written to and a clock that
  keeps running, the handler returns. The client gets one chunk for every clock reading up to
  the first that reaches the requested duration, the last chunk and only it ending in 0xFF, and
  after its acknowledgement the time from the clock reading before the first chunk to the one
  after the acknowledgement, or \<open>ERR\<close> if the acknowledgement is not \<open>OK\<close>; the bytes are accounted
  modulo \<open>2 ^ 64\<close>, with the time up to the end of the chunks.
\<close>

theorem gettime_sends_until_limit:
  assumes "chunk_ok fill s" and "stream_reliable (se_stream s)" and "clock_runs s"
    and "parse_u32 arg = Some secs" and "0 < secs" and "secs \<le> MAX_SECONDS"
    and "(if arg_chunk = [] then Some (se_chunk s) else parse_chunk_size arg_chunk MAX_CHUNK_SIZE)
         = Some cs"
    and "fst (se_read_line s) = Ok ack"
  shows "\<exists>s' k. handle_gettime fill arg arg_chunk MAX_CHUNK_SIZE s = Some (Ok (), s') \<and>
     first_past (se_clock s (se_ticks s)) (secs * 1000000000)
       (s\<lparr>se_ticks := Suc (se_ticks s)\<rparr>) k \<and>
     se_sent s' = se_sent s @ download k (take cs (RANDOM_CHUNK fill)) @
       ack_answer ack (se_clock s (se_ticks s + k + 2) - se_clock s (se_ticks s)) \<and>
     se_stats s' = add_download (of_nat (k * cs))
       (of_nat (se_clock s (se_ticks s + k + 1) - se_clock s (se_ticks s))) (se_stats s) \<and>
     se_chunk s' = cs"
proof -
  define b where "b = take cs (RANDOM_CHUNK fill)"
  define s0 where "s0 = s\<lparr>se_chunk := cs\<rparr>"
  define s1 where "s1 = s0\<lparr>se_ticks := Suc (se_ticks s)\<rparr>"
  define t where "t = se_clock s (se_ticks s)"
  have cs: "CHUNK_SIZE \<le> cs" "cs \<le> MAX_CHUNK_SIZE"
    using assms(1,7) parse_chunk_size_bounds [of arg_chunk MAX_CHUNK_SIZE cs]
    by (auto simp: chunk_ok_def chunk_constants split: if_splits)
  have b: "length b = cs" "b \<noteq> []" using cs assms(1) by (auto simp: b_def chunk_ok_def chunk_constants)
  have "clock_runs s1" using assms(3) by (simp add: clock_runs_def s1_def s0_def)
  then obtain y where y: "gettime_loop t (secs * 1000000000) b 0 s1 = Some y"
    using gettime_loop_io_returns by (metis io_returns_def not_None_eq)
  moreover obtain v s2 where v: "y = (Ok v, s2)" and r2: "stream_reliable (se_stream s2)"
    using gettime_loop_reliable [OF y _ b(2)] assms(2) by (cases y) (auto simp: s1_def s0_def)
  ultimately have l: "gettime_loop t (secs * 1000000000) b 0 s1 = Some (Ok v, s2)" by simp
  from gettime_loop_sends [OF this] b cs obtain k where
    k: "first_past t (secs * 1000000000) s1 k" "v = of_nat k * of_nat cs"
    and snd: "sends (download k b) (s1\<lparr>se_ticks := se_ticks s1 + k\<rparr>) s2"
    by (auto simp: s1_def s0_def)
  obtain x where "se_read_line s = (Ok ack, x)" using assms(8) by (metis prod.collapse)
  moreover have "stream_input (se_stream s) = stream_input (se_stream s2)"
    using sendsD [OF snd] by (simp add: s1_def s0_def)
  ultimately obtain s3 where "se_read_line s2 = (Ok ack, s3)" using se.rd_inp by blast
  from finish_download_reliable [OF r2 this] obtain s' where
    f: "finish_download t v s2 = (Ok (), s')"
    and "se_sent s' = se_sent s2 @ ack_answer ack (se_clock s2 (Suc (se_ticks s2)) - t)"
    and "se_stats s' = add_download v (of_nat (se_clock s2 (se_ticks s2) - t)) (se_stats s2)"
    and "se_chunk s' = se_chunk s2" by blast
  moreover have "handle_gettime fill arg arg_chunk MAX_CHUNK_SIZE s = Some (Ok (), s')"
    using f chunk_arg_Some [OF assms(7)] assms(1,4-6) l cs
    by (simp add: handle_gettime_def try_io_def io_of_def instant_now_def random_buf_def
        chunk_ok_def finish_download_def s0_def s1_def b_def t_def)
  moreover have "first_past t m s1 k = first_past t m (s\<lparr>se_ticks := Suc (se_ticks s)\<rparr>) k" for m
    by (simp add: first_past_def s1_def s0_def)
  ultimately show ?thesis
    using sendsD [OF snd] k unfolding t_def
    by (intro exI [of _ s'] exI [of _ k] conjI) (simp_all add: s1_def s0_def b_def)
qed

theorem gettime_sends_until_limit_witness:
  "\<exists>s' k ns. handle_gettime (\<lambda>b. b) ''1'' [] MAX_CHUNK_SIZE (demo_session (''OK'' @ [LF])) =
       Some (Ok (), s') \<and> 0 < k \<and>
     se_sent s' = download k (take 4096 (RANDOM_CHUNK (\<lambda>b. b))) @ as_bytes (time_line ns)"
proof -
  let ?s = "demo_session (''OK'' @ [LF])"
  have p: "parse_u32 ''1'' = Some 1"
    by (simp add: parse_uint_def parse_digits_def digit_val_def)
  have c: "(if [] = ([] :: string) then Some (se_chunk ?s) else parse_chunk_size [] MAX_CHUNK_SIZE)
      = Some 4096" by (simp add: demo_session_facts(4))
  from gettime_sends_until_limit [OF demo_session_facts(1-3) p _ _ c demo_ack] show ?thesis
    by (auto simp: MAX_SECONDS_def ack_answer_def trim_OK demo_session_facts(6) first_past_def)
qed

text \<open>
  C13: \<open>PUT\<close> and \<open>PUTNORESULT\<close>. When the client of a raw stream sends blocks of the chunk size,
  the last of which and only it ends in 0xFF, the upload takes exactly these blocks, leaves
  what follows unread, accounts all their bytes as uploaded, and answers \<open>OK\<close> and finally
  the time. In between \<open>PUT\<close> sends reports at least a millisecond apart, \<open>PUTNORESULT\<close> none.
\<close>

theorem put_takes_the_upload:
  assumes "stream_reliable (se_stream s)" and "0 < cs"
    and "(if arg = [] then Some (se_chunk s) else parse_chunk_size arg MAX_CHUNK_SIZE) = Some cs"
    and "stream_input (se_stream s) = Inl (concat blocks @ rest, e)" and "is_upload cs blocks"
  shows "\<exists>s' rs ns. handle_put arg MAX_CHUNK_SIZE x s = (Ok (), s') \<and>
     stream_input (se_stream s') = Inl (rest, e) \<and>
     se_sent s' = se_sent s @ as_bytes OK_LINE @ report_lines rs @ as_bytes (time_line ns) \<and>
     spaced (- 1) rs \<and> (x = False \<longrightarrow> rs = []) \<and>
     se_stats s' = add_upload (of_nat (length (concat blocks))) (of_nat ns) (se_stats s) \<and>
     se_chunk s' = cs"
proof -
  define s0 where "s0 = s\<lparr>se_chunk := cs\<rparr>"
  have "stream_reliable (se_stream s0)" using assms(1) by (simp add: s0_def)
  then obtain s1 where w1: "se_write_line OK_LINE s0 = (Ok (), s1)" "sends (as_bytes OK_LINE) s0 s1"
    "stream_reliable (se_stream s1)" using reliable_line ascii_lines(2) by blast
  note d1 = sendsD [OF w1(2)]
  define t s2 where "t = se_clock s1 (se_ticks s1)" and "s2 = s1\<lparr>se_ticks := Suc (se_ticks s1)\<rparr>"
  have "is_upload (se_chunk s2) blocks" "0 < se_chunk s2" "stream_reliable (se_stream s2)"
    "stream_input (se_stream s2) = Inl (concat blocks @ rest, e)"
    using assms d1 w1(3) by (simp_all add: s2_def s0_def)
  from put_loop_upload [OF this, of x t 0 I128_MIN] obtain s3 rs where
    l: "put_loop x t 0 I128_MIN s2 = (Ok (of_nat (length (concat blocks))), s3)"
    and s3: "stream_input (se_stream s3) = Inl (rest, e)" "stream_reliable (se_stream s3)" "kept s2 s3"
      "se_sent s3 = se_sent s2 @ report_lines rs" "spaced I128_MIN rs" "x = False \<longrightarrow> rs = []" by auto
  define ns where "ns = se_clock s3 (se_ticks s3) - t"
  define s4 where "s4 = s3\<lparr>se_ticks := Suc (se_ticks s3), se_stats :=
    add_upload (of_nat (length (concat blocks))) (of_nat ns) (se_stats s3)\<rparr>"
  have "stream_reliable (se_stream s4)" using s3(2) by (simp add: s4_def)
  then obtain s' where w2: "se_write_line (time_line ns) s4 = (Ok (), s')"
    "sends (as_bytes (time_line ns)) s4 s'" using reliable_line ascii_answers(1) by blast
  have "spaced (- 1) rs"
    using s3(5) by (cases rs) (auto simp: I128_MIN_def)
  moreover have "handle_put arg MAX_CHUNK_SIZE x s = (Ok (), s')"
    using chunk_arg_Some [OF assms(3)] w1(1) l w2(1)
    by (simp add: handle_put_def try_act_def instant_now_def elapsed_def on_stats_def s0_def
        t_def s2_def s4_def ns_def)
  ultimately show ?thesis
    using s3 d1 sendsD [OF w2(2)]
    by (intro exI [of _ s'] exI [of _ rs] exI [of _ ns])
      (simp add: s4_def s2_def s0_def kept_def)
qed

theorem put_takes_the_upload_witness:
  "\<exists>s' ns. handle_put [] MAX_CHUNK_SIZE False
       (demo_session (bytes_str (replicate 4095 0 @ [0xFF, 1, 2]))) = (Ok (), s') \<and>
     stream_input (se_stream s') = Inl ([1, 2], None) \<and>
     se_sent s' = as_bytes OK_LINE @ as_bytes (time_line ns)"
proof -
  let ?s = "demo_session (bytes_str (replicate 4095 0 @ [0xFF, 1, 2]))"
  have "stream_input (se_stream ?s) = Inl (concat [replicate 4095 0 @ [0xFF]] @ [1, 2], None)"
    by (simp add: demo_session_facts(5) del: bytes_str_append)
  moreover have "(if [] = ([] :: string) then Some (se_chunk ?s)
      else parse_chunk_size [] MAX_CHUNK_SIZE) = Some 4096" by (simp add: demo_session_facts(4))
  ultimately have "\<exists>s' rs ns. handle_put [] MAX_CHUNK_SIZE False ?s = (Ok (), s') \<and>
     stream_input (se_stream s') = Inl ([1, 2], None) \<and>
     se_sent s' = se_sent ?s @ as_bytes OK_LINE @ report_lines rs @ as_bytes (time_line ns) \<and>
     spaced (- 1) rs \<and> (False = False \<longrightarrow> rs = []) \<and>
     se_stats s' = add_upload (of_nat (length (concat [replicate 4095 (0::u8) @ [0xFF]])))
       (of_nat ns) (se_stats ?s) \<and> se_chunk s' = 4096"
    by (intro put_takes_the_upload [OF demo_session_facts(2)]) simp_all
  then show ?thesis by (auto simp: report_lines_def demo_session_facts(6))
qed

text \<open>
  C38: \<open>PING\<close> on a stream that can be written to: \<open>PONG\<close>, then after the client's \<open>OK\<close> the time
  from the clock reading before the \<open>PONG\<close> is written to the one after the \<open>OK\<close>, which is recorded as
  a ping; any other answer gets \<open>ERR\<close> and is not recorded. (The comment of \<open>handle_ping\<close> counts from
  the \<open>PONG\<close> having been sent; the code also counts the time its write takes.)
\<close>

theorem ping_measures_round_trip:
  assumes "stream_reliable (se_stream s)" and "fst (se_read_line s) = Ok ack"
    and "ns = se_clock s (Suc (se_ticks s)) - se_clock s (se_ticks s)"
  shows "\<exists>s'. handle_ping s = (Ok (), s') \<and>
     se_sent s' = se_sent s @ as_bytes PONG_LINE @ ack_answer ack ns \<and>
     se_stats s' = (if trim ack = ''OK'' then add_ping (of_nat ns) (se_stats s) else se_stats s)"
proof -
  define s1 where "s1 = s\<lparr>se_ticks := Suc (se_ticks s)\<rparr>"
  have "stream_reliable (se_stream s1)" using assms(1) by (simp add: s1_def)
  then obtain s2 where w: "se_write_line PONG_LINE s1 = (Ok (), s2)"
    "sends (as_bytes PONG_LINE) s1 s2" "stream_reliable (se_stream s2)"
    using reliable_line ascii_answers(2) by blast
  obtain x where "se_read_line s = (Ok ack, x)" using assms(2) by (metis prod.collapse)
  then obtain s3 where rd: "se_read_line s2 = (Ok ack, s3)"
    using se.rd_inp [of s _ _ s2] sendsD [OF w(2)] by (auto simp: s1_def)
  let ?k = "try_act (elapsed (se_clock s (se_ticks s))) (\<lambda>ns.
    try_act (on_stats (add_ping (of_nat ns))) (\<lambda>_. se_write_line (time_line ns)))"
  have h: "handle_ping s = await_ok ?k s2"
    using w(1) by (simp add: handle_ping_def try_act_def instant_now_def s1_def)
  show ?thesis unfolding h
  proof (rule await_ok_reliable [OF w(3) rd], goal_cases)
    case (1 s4)
    define s5 where "s5 = s4\<lparr>se_ticks := Suc (se_ticks s4),
      se_stats := add_ping (of_nat ns) (se_stats s4)\<rparr>"
    have "stream_reliable (se_stream s5)" using 1(1) by (simp add: s5_def)
    then obtain s6 where s6: "se_write_line (time_line ns) s5 = (Ok (), s6)"
      "sends (as_bytes (time_line ns)) s5 s6" using reliable_line ascii_answers(1) by blast
    have e: "se_clock s4 (se_ticks s4) - se_clock s (se_ticks s) = ns"
      using same_world_fields [OF 1(3)] sendsD [OF w(2)] assms(3) by (simp add: s1_def)
    have "?k s4 = (Ok (), s6)"
      using s6(1) by (simp add: try_act_def elapsed_def on_stats_def e s5_def)
    with 1 s6(2) same_world_fields [OF 1(3)] sendsD [OF w(2)] show ?case
      by (auto simp: s5_def s1_def ack_answer_def dest!: sendsD)
  next
    case (2 s4 s5)
    then show ?case using same_world_fields [OF 2(1)] sendsD [OF w(2)]
      by (auto simp: s1_def ack_answer_def dest!: sendsD)
  qed
qed

theorem ping_measures_round_trip_witness:
  "\<exists>s'. handle_ping (demo_session (''OK'' @ [LF])) = (Ok (), s') \<and>
     se_sent s' = as_bytes PONG_LINE @ as_bytes (time_line 1000) \<and>
     ping_count (se_stats s') = 1"
proof -
  have "1000 = se_clock (demo_session (''OK'' @ [LF])) (Suc (se_ticks (demo_session (''OK'' @ [LF])))) -
      se_clock (demo_session (''OK'' @ [LF])) (se_ticks (demo_session (''OK'' @ [LF])))"
    by (simp add: demo_session_def)
  from ping_measures_round_trip [OF demo_session_facts(2) demo_ack this] show ?thesis
    by (auto simp: ack_answer_def trim_OK demo_session_facts(6) add_ping_def)
      (simp add: demo_session_def stats_new_def)
qed

text \<open>
  Refused arguments. A chunk size out of range or not a number makes each of the three
  handlers answer \<open>ERR\<close> and do nothing else; so does a count or a duration that is not a number
  or out of range.
\<close>

theorem bad_arguments_answer_err:
  assumes "a \<noteq> []" and "parse_chunk_size a MAX_CHUNK_SIZE = None"
    and "case parse_u32 b of None \<Rightarrow> True | Some n \<Rightarrow> n = 0 \<or> MAX_CHUNKS < n"
  shows "handle_gettime fill c a MAX_CHUNK_SIZE s = Some (se_write_line ERR_LINE s) \<and>
     handle_getchunks fill c a MAX_CHUNK_SIZE s = se_write_line ERR_LINE s \<and>
     handle_put a MAX_CHUNK_SIZE x s = se_write_line ERR_LINE s \<and>
     handle_gettime fill b [] MAX_CHUNK_SIZE s = Some (se_write_line ERR_LINE s) \<and>
     handle_getchunks fill b [] MAX_CHUNK_SIZE s = se_write_line ERR_LINE s"
proof -
  have "handle_gettime fill c a MAX_CHUNK_SIZE s = Some (se_write_line ERR_LINE s)"
    "handle_getchunks fill c a MAX_CHUNK_SIZE s = se_write_line ERR_LINE s"
    "handle_put a MAX_CHUNK_SIZE x s = se_write_line ERR_LINE s"
    using assms(1,2) by (simp_all only: handle_gettime_def handle_getchunks_def handle_put_def
        chunk_arg_None not_False_eq_True)
  moreover have "handle_gettime fill b [] MAX_CHUNK_SIZE s = Some (se_write_line ERR_LINE s)"
    "handle_getchunks fill b [] MAX_CHUNK_SIZE s = se_write_line ERR_LINE s"
    using assms(3)
    by (auto simp: handle_gettime_def handle_getchunks_def chunk_arg_def try_act_def try_io_def
        io_of_def ok_act_def MAX_CHUNKS_def MAX_SECONDS_def split: option.splits)
  ultimately show ?thesis by blast
qed

theorem bad_arguments_answer_err_witness:
  "handle_put ''12'' MAX_CHUNK_SIZE True (demo_session []) =
     se_write_line ERR_LINE (demo_session []) \<and>
   handle_getchunks (\<lambda>b. b) ''x'' [] MAX_CHUNK_SIZE (demo_session []) =
     se_write_line ERR_LINE (demo_session [])"
proof -
  have "parse_chunk_size ''12'' MAX_CHUNK_SIZE = None" "parse_u32 ''x'' = None"
    by (simp_all add: parse_chunk_size_def parse_uint_def parse_digits_def digit_val_def
        chunk_constants)
  then show ?thesis
    using bad_arguments_answer_err [of "''12''" "''x''" "\<lambda>b. b" _ "demo_session []" True] by simp
qed

end
