(* ===== verification/Rmbt_Connection.thy ===== *)
theory Rmbt_Connection
  imports Rmbt_Upgrade Rmbt_Commands
begin

text \<open>
  One connection from accept to close (\<open>handle_connection\<close> in \<open>src/src/server/mod.rs\<close>): the
  transport, the HTTP phase, the greeting, the command phase, and the events that frame them.
  What the crates provide is collected in the record \<open>platform\<close>; \<open>ctx_tls\<close> is the TLS
  configuration, given by the result of creating a connection with it.
\<close>

section \<open>Addresses in logs\<close>

definition anonymise_addr :: "socket_addr \<Rightarrow> string" where
  "anonymise_addr addr =
     (case sa_ip addr of
        V4 v4 \<Rightarrow>
          (let o4 = octets4 v4
           in nat_to_string (unat (o4 ! 0)) @ ''.'' @ nat_to_string (unat (o4 ! 1)) @ ''.'' @
              nat_to_string (unat (o4 ! 2)) @ ''.*'')
      | V6 v6 \<Rightarrow>
          (let s = segments v6
           in hex_string (unat (s ! 0)) @ '':'' @ hex_string (unat (s ! 1)) @ '':'' @
              hex_string (unat (s ! 2)) @ '':*''))"

definition is_client_disconnect :: "io_error \<Rightarrow> bool" where
  "is_client_disconnect e \<longleftrightarrow>
     err_kind e \<in> {UnexpectedEof, ConnectionReset, ConnectionAborted, BrokenPipe}"

section \<open>The connection\<close>

record worker_ctx =
  ctx_config :: config
  ctx_keys :: "secret_key list"
  ctx_tls :: "(string + unit) option"
  ctx_sink :: "event_sink option"

record platform =
  pf_crypto :: crypto
  pf_serde :: serde
  pf_from_raw_socket :: "transport \<Rightarrow> websocket"
  pf_fill :: "bytes \<Rightarrow> bytes"
  pf_version :: string
  pf_branch :: string

definition client_name :: "config \<Rightarrow> socket_addr \<Rightarrow> string" where
  "client_name cfg addr =
     (if log_full_ip cfg then ip_to_string (sa_ip addr) else anonymise_addr addr)"

text \<open>Plain or TLS; \<open>Inl\<close> is the end reason.\<close>

definition build_transport :: "worker_ctx \<Rightarrow> bool \<Rightarrow> duplex \<Rightarrow> string + transport" where
  "build_transport ctx is_tls tcp =
     (if is_tls then
        (case ctx_tls ctx of
           Some conn \<Rightarrow>
             (case transport_tls conn tcp of Ok t \<Rightarrow> Inr t | _ \<Rightarrow> Inl ''tls_failed'')
         | None \<Rightarrow> Inl ''no_tls_worker'')
      else Inr (transport_plain tcp))"

definition end_of_commands :: "unit res \<Rightarrow> string" where
  "end_of_commands r =
     (case r of
        Err e \<Rightarrow>
          if err_kind e \<in> {ConnectionAborted, ConnectionReset, UnexpectedEof, BrokenPipe}
          then ''disconnect'' else ''error''
      | _ \<Rightarrow> ''quit'')"

text \<open>The command loop and its end reason; a panic is passed on.\<close>

definition commands_phase :: "platform \<Rightarrow> greeting \<Rightarrow> (string \<times> greeting option) io" where
  "commands_phase P g s =
     (case run_commands (pf_fill P) s of
        None \<Rightarrow> None
      | Some (Panic p, s') \<Rightarrow> Some (Panic p, s')
      | Some (r, s') \<Rightarrow> Some (Ok (end_of_commands r, Some g), s'))"

definition rmbt_phase ::
    "platform \<Rightarrow> worker_ctx \<Rightarrow> usize \<Rightarrow> string \<Rightarrow> (string \<times> greeting option) io" where
  "rmbt_phase P ctx conn_id client s =
     (case run_greeting (pf_crypto P) (pf_version P) conn_id (ctx_config ctx) (ctx_keys ctx)
             (ctx_sink ctx) client s of
        (Ok g, s') \<Rightarrow> commands_phase P g s'
      | (Err e, s') \<Rightarrow> Some (Ok (''auth_failed'', None), s')
      | (Panic p, s') \<Rightarrow> Some (Panic p, s'))"

text \<open>The labelled block \<open>'session\<close>.\<close>

definition session_block ::
    "platform \<Rightarrow> worker_ctx \<Rightarrow> usize \<Rightarrow> string \<Rightarrow> bool \<Rightarrow> bool \<Rightarrow> duplex \<Rightarrow>
     (string \<times> greeting option) io" where
  "session_block P ctx conn_id client is_tls timeouts_set tcp s =
     (if \<not> timeouts_set then Some (Ok (''timeout_setup_failed'', None), s)
      else
        (case build_transport ctx is_tls tcp of
           Inl reason \<Rightarrow> Some (Ok (reason, None), s)
         | Inr t \<Rightarrow>
             (let add_hsts = is_tls \<and> hsts (ctx_config ctx)
              in case detect_and_upgrade (pf_crypto P) (pf_serde P) (pf_from_raw_socket P)
                        (pf_version P) (pf_branch P) add_hsts (ctx_keys ctx) (se_wall s 0) t of
                   (Ok (Rmbt st), _) \<Rightarrow> rmbt_phase P ctx conn_id client (s\<lparr>se_stream := st\<rparr>)
                 | (Ok (IpCheck _), t') \<Rightarrow>
                     Some (Ok (''ip_check'', None), s\<lparr>se_stream := Raw t'\<rparr>)
                 | (Ok (Version _), t') \<Rightarrow>
                     Some (Ok (''version'', None), s\<lparr>se_stream := Raw t'\<rparr>)
                 | (Err e, t') \<Rightarrow>
                     Some (Ok (if is_client_disconnect e then ''upgrade_disconnect''
                               else ''upgrade_failed'', None), s\<lparr>se_stream := Raw t'\<rparr>)
                 | (Panic p, t') \<Rightarrow> Some (Panic p, s\<lparr>se_stream := Raw t'\<rparr>))))"

definition close_fields :: "greeting option \<Rightarrow> string \<times> string \<times> string" where
  "close_fields g =
     (case g of Some g \<Rightarrow> (g_uuid g, g_token_type g, g_label g) | None \<Rightarrow> ([], [], []))"

definition emit_close ::
    "event_sink option \<Rightarrow> usize \<Rightarrow> bool \<Rightarrow> nat \<Rightarrow> string \<Rightarrow> greeting option \<Rightarrow> (session, unit) act" where
  "emit_close sink conn_id is_tls start reason g =
     (case sink of
        None \<Rightarrow> ok_act ()
      | Some _ \<Rightarrow>
          (let (uuid, token, secret) = close_fields g in
           try_act (elapsed start) (\<lambda>d.
           try_act (observe se_stats) (\<lambda>st.
           emit_to sink (\<lambda>k. close_event k conn_id uuid token secret is_tls d st reason)))))"

definition handle_connection ::
    "platform \<Rightarrow> worker_ctx \<Rightarrow> usize \<Rightarrow> bool \<Rightarrow> duplex \<Rightarrow> socket_addr \<Rightarrow> bool \<Rightarrow> unit io" where
  "handle_connection P ctx conn_id timeouts_set tcp addr is_tls =
     (let client = client_name (ctx_config ctx) addr; sink = ctx_sink ctx in
      try_io (io_of (emit_to sink (\<lambda>k. connect_event k conn_id client is_tls))) (\<lambda>_.
      try_io (io_of instant_now) (\<lambda>start.
      try_io (io_of (on_stats (\<lambda>_. stats_new))) (\<lambda>_.
      try_io (session_block P ctx conn_id client is_tls timeouts_set tcp) (\<lambda>(reason, g).
      io_of (emit_close sink conn_id is_tls start reason g))))))"

section \<open>No part panics\<close>

abbreviation never_panics :: "('s, 'a) act \<Rightarrow> bool" where
  "never_panics \<equiv> safe (\<lambda>_. True)"

lemma never_panics_iff: "never_panics m \<longleftrightarrow> (\<forall>s p. fst (m s) \<noteq> Panic p)"
  by (simp add: safe_def)

lemma never_panicsI: "(\<And>s s' p. m s \<noteq> (Panic p, s')) \<Longrightarrow> never_panics m"
  unfolding never_panics_iff by (metis prod.collapse)

lemma never_panics_basic [intro]:
  "never_panics (ok_act a)" "never_panics (err_act e)" "never_panics (observe g)"
  "never_panics (emit_to k ev)" "never_panics (thread_sleep n)" "never_panics (elapsed t)"
  "never_panics (t_write_all d)" "never_panics transport_flush" "never_panics (t_read_up_to n)"
  "never_panics (close_with f x)" "never_panics peer_ip" "never_panics (read_head [])"
  by (rule never_panicsI; auto simp: ok_act_def err_act_def observe_def emit_to_eq thread_sleep_def
      elapsed_def raw.wr_no_panic t_read_up_to_def on_chan_eq d_read_up_to_def close_with_def
      peer_ip_def split: if_splits option.splits nat.splits dest: read_head_bounded
      elim!: transport_flush.elims)+

lemma never_panics_ignore [intro]: "never_panics m \<Longrightarrow> never_panics (ignore_act m)"
  by (rule never_panicsI) (auto simp: ignore_act_def never_panics_iff split: prod.splits res.splits,
      metis fst_conv)

lemma never_panics_http [intro]:
  "never_panics (ip_handle C S head sts keys now)" "never_panics (version_handle v b head sts)"
  "never_panics (refuse_with a b')" "never_panics (websocket_handshake C frs req sts)"
proof -
  have scan: "scan_headers h ls \<noteq> Panic p" for h ls p
    by (induction ls arbitrary: h) (auto simp: Let_def split: option.split)
  have post: "never_panics (post_parts C S h keys now)" for h
    unfolding post_parts_def by auto
  have "never_panics (\<lambda>t. (scan_headers h ls, t))" for h ls
    using scan by (intro never_panicsI) auto
  then show "never_panics (ip_handle C S head sts keys now)"
    unfolding ip_handle_def ip_parts_of_def Let_def using post by auto
  show "never_panics (version_handle v b head sts)" unfolding version_handle_def by auto
  show "never_panics (refuse_with a b')" unfolding refuse_with_def by auto
  have "never_panics (\<lambda>t. (Ok (f t), t))" for f by (intro never_panicsI) auto
  then show "never_panics (websocket_handshake C frs req sts)"
    unfolding websocket_handshake_def by (auto split: option.split)
qed

lemma detect_never_panics: "never_panics (detect_and_upgrade C S frs v b hst keys now)"
proof -
  have "never_panics (\<lambda>t. (Ok (f t), t))" for f by (intro never_panicsI) auto
  then show ?thesis unfolding detect_and_upgrade_def Let_def by auto
qed

lemma never_panics_stream [intro]: "never_panics (se_write_line l)"
  by (rule stream_safe) simp

lemma greeting_never_panics: "never_panics (run_greeting C v n cfg keys sink client)"
proof -
  have "never_panics skip_blank_lines"
    by (rule never_panicsI) (auto dest: skip_blank_lines_same)
  moreover have "never_panics (token_of_line l)" for l
    unfolding token_of_line_def by (auto split: option.split)
  moreover have "never_panics (authenticate C n cfg keys sink client t)" for t
    unfolding authenticate_def Let_def by (auto split: token_result.split)
  ultimately show ?thesis unfolding run_greeting_def by auto
qed

section \<open>Events of the greeting\<close>

lemma quiet_skip_blank_lines: "relates quiet skip_blank_lines"
  unfolding relates_def
proof
  fix s
  obtain r s' where r: "skip_blank_lines s = (r, s')" by fastforce
  then have "same_world s s'" by (auto dest: skip_blank_lines_same)
  moreover have "advances s s'" using r by (rule relatesD [OF skip_blank_lines_advances])
  ultimately show "quiet s (snd (skip_blank_lines s))"
    using r same_world_fields [of s s'] by (simp add: quiet_def)
qed

lemma quiet_err_act [intro]: "relates quiet (err_act e)"
  by (simp add: relates_def err_act_def)

lemma quiet_greeting_parts:
  "relates quiet (greeting_intro v)" "relates quiet (greeting_outro t l)"
  by (auto simp: greeting_intro_def greeting_outro_def token_of_line_def
      intro: quiet_skip_blank_lines split: option.split)

text \<open>No frame, or one \<open>auth\<close> event of the connection; and that nothing else was added.\<close>

definition auth_frames :: "event_sink \<Rightarrow> usize \<Rightarrow> string \<Rightarrow> string list \<Rightarrow> bool" where
  "auth_frames k n client fs \<longleftrightarrow>
     fs = [] \<or>
     (\<exists>t result label why ts. result \<in> {''accepted'', ''rejected'', ''not_checked''} \<and>
        fs = [auth_event k n client (token_uuid t) (token_type_of t) result label why ts])"

definition adds_event :: "event_sink option \<Rightarrow> usize \<Rightarrow> string \<Rightarrow> session \<Rightarrow> session \<Rightarrow> bool" where
  "adds_event sink n client s s' \<longleftrightarrow>
     (\<exists>fs. se_frames s' = se_frames s @ fs \<and>
        (case sink of None \<Rightarrow> fs = [] | Some k \<Rightarrow> auth_frames k n client fs))"

lemma auth_framesI:
  "result \<in> {''accepted'', ''rejected'', ''not_checked''} \<Longrightarrow>
     auth_frames k n client [auth_event k n client (token_uuid t) (token_type_of t) result label why ts]"
  unfolding auth_frames_def by blast

lemma adds_event_refl [simp]: "se_frames s' = se_frames s \<Longrightarrow> adds_event sink n client s s'"
  by (simp add: adds_event_def auth_frames_def split: option.split)

lemma authenticate_frames:
  assumes "authenticate C n cfg keys sink client t s = (r, s')"
  shows "adds_event sink n client s s'"
proof -
  from assms obtain result label why where "result \<in> {''accepted'', ''rejected'', ''not_checked''}"
    "se_frames s' = frames_with sink (\<lambda>k. auth_event k n client (token_uuid t) (token_type_of t) result
       label why) s"
    by (cases rule: authenticate_cases) auto
  then show ?thesis by (cases sink) (simp_all add: adds_event_def frames_with_def auth_framesI del: insert_iff)
qed

lemma run_greeting_frames:
  assumes "run_greeting C v n cfg keys sink client s = (r, s')"
  shows "adds_event sink n client s s'"
proof -
  obtain r1 s1 where i: "greeting_intro v s = (r1, s1)" by fastforce
  have q1: "se_frames s1 = se_frames s"
    using relatesD [OF quiet_greeting_parts(1) i] by (simp add: quiet_def)
  show ?thesis
  proof (cases r1)
    case (Ok t)
    obtain r2 s2 where a: "authenticate C n cfg keys sink client t s1 = (r2, s2)" by fastforce
    have "se_frames s' = se_frames s2"
    proof (cases r2)
      case (Ok l)
      with assms i a \<open>r1 = Ok t\<close> have "greeting_outro t l s2 = (r, s')"
        by (simp add: run_greeting_split try_act_def)
      then show ?thesis using relatesD [OF quiet_greeting_parts(2)] by (simp add: quiet_def)
    qed (use assms i a Ok in \<open>auto simp: run_greeting_split try_act_def\<close>)
    with authenticate_frames [OF a] q1 show ?thesis by (simp add: adds_event_def)
  qed (use assms i q1 in \<open>auto simp: run_greeting_split try_act_def\<close>)
qed

section \<open>The outcome of a connection\<close>

text \<open>The clocks go on as before.\<close>

definition same_clocks :: "session \<Rightarrow> session \<Rightarrow> bool" where
  "same_clocks s s' \<longleftrightarrow> se_clock s' = se_clock s \<and> se_stamp s' = se_stamp s \<and> se_wall s' = se_wall s"

lemma advances_same_clocks: "advances s s' \<Longrightarrow> same_clocks s s'"
  by (simp add: advances_def same_clocks_def)

lemma rmbt_phase_outcome:
  assumes "clock_runs s" and "length (RANDOM_CHUNK (pf_fill P)) = MAX_CHUNK_SIZE"
  shows "\<exists>reason g s'. rmbt_phase P ctx n client s = Some (Ok (reason, g), s') \<and>
     adds_event (ctx_sink ctx) n client s s' \<and> same_clocks s s'"
proof -
  obtain r s1 where g: "run_greeting (pf_crypto P) (pf_version P) n (ctx_config ctx) (ctx_keys ctx)
      (ctx_sink ctx) client s = (r, s1)" by fastforce
  note e = run_greeting_frames [OF g]
  have c: "same_clocks s s1"
    using relatesD [OF run_greeting_advances g] by (rule advances_same_clocks)
  have np: "\<forall>p. r \<noteq> Panic p" using greeting_never_panics g unfolding never_panics_iff by (metis fst_conv)
  show ?thesis
  proof (cases r)
    case (Ok gr)
    have "clock_runs s1" using assms(1) c by (simp add: clock_runs_def same_clocks_def)
    from run_commands_outcome [OF this assms(2)] obtain r2 s2 where
      r2: "run_commands (pf_fill P) s1 = Some (r2, s2)" "quiet s1 s2" "\<forall>p. r2 \<noteq> Panic p" by blast
    then have "commands_phase P gr s1 = Some (Ok (end_of_commands r2, Some gr), s2)"
      by (cases r2) (simp_all add: commands_phase_def)
    moreover have "se_frames s2 = se_frames s1" "same_clocks s1 s2"
      using r2(2) by (auto simp: quiet_def intro: advances_same_clocks)
    ultimately show ?thesis using g Ok e c by (simp add: rmbt_phase_def adds_event_def same_clocks_def)
  qed (use g e c np in \<open>auto simp: rmbt_phase_def\<close>)
qed

lemma session_block_outcome:
  assumes "clock_runs s" and "length (RANDOM_CHUNK (pf_fill P)) = MAX_CHUNK_SIZE"
  shows "\<exists>reason g s'. session_block P ctx n client tls tmo tcp s = Some (Ok (reason, g), s') \<and>
     adds_event (ctx_sink ctx) n client s s' \<and> same_clocks s s'"
proof (cases "tmo \<and> (\<exists>t. build_transport ctx tls tcp = Inr t)")
  case False
  then show ?thesis
    by (auto simp: session_block_def same_clocks_def split: sum.split)
next
  case True
  then obtain t where t: "tmo" "build_transport ctx tls tcp = Inr t" by blast
  obtain r t' where d: "detect_and_upgrade (pf_crypto P) (pf_serde P) (pf_from_raw_socket P)
      (pf_version P) (pf_branch P) (tls \<and> hsts (ctx_config ctx)) (ctx_keys ctx) (se_wall s 0) t = (r, t')"
    by fastforce
  have np: "\<forall>p. r \<noteq> Panic p" using detect_never_panics d unfolding never_panics_iff by (metis fst_conv)
  show ?thesis
  proof (cases "\<exists>st. r = Ok (Rmbt st)")
    case True
    then obtain st where st: "r = Ok (Rmbt st)" by blast
    have "clock_runs (s\<lparr>se_stream := st\<rparr>)" using assms(1) by (simp add: clock_runs_def)
    from rmbt_phase_outcome [OF this assms(2), of ctx n client] t d st show ?thesis
      by (auto simp: session_block_def adds_event_def same_clocks_def)
  next
    case False
    then show ?thesis using t d np
      by (cases r)
        (auto simp: session_block_def same_clocks_def split: upgrade.split)
  qed
qed

section \<open>Anonymised addresses\<close>

lemma field_eq:
  fixes c :: char
  assumes "c \<notin> set a" and "c \<notin> set b"
  shows "a @ c # r = b @ c # q \<longleftrightarrow> a = b \<and> r = q"
proof -
  have "split_once [c] (a @ c # r) = Some (a, r)" "split_once [c] (b @ c # q) = Some (b, q)"
    using assms by (simp_all add: split_once_char)
  then show ?thesis by (metis option.inject prod.inject)
qed

lemma dot_not_in_number: "CHR ''.'' \<notin> set (nat_to_string n)"
proof
  assume "CHR ''.'' \<in> set (nat_to_string n)"
  then obtain d where "d < 10" "CHR ''.'' = digit_char d" using nat_to_string_digits by blast
  then have "(of_char (CHR ''.'') :: nat) = 48 + d" by (simp only: of_char_digit_char)
  then show False by simp
qed

lemma number_inject: "nat_to_string (unat (a :: u8)) = nat_to_string (unat b) \<longleftrightarrow> a = b"
proof -
  have "unat a < 2 ^ 64" "unat b < 2 ^ 64" using unat_u8_less [of a] unat_u8_less [of b] by simp_all
  then show ?thesis by (simp add: dec_u64.fmt_inject word_unat_eq_iff)
qed

definition same_site :: "ip_addr \<Rightarrow> ip_addr \<Rightarrow> bool" where
  "same_site a b \<longleftrightarrow>
     (case (a, b) of
        (V4 x, V4 y) \<Rightarrow> take 3 (octets4 x) = take 3 (octets4 y)
      | (V6 x, V6 y) \<Rightarrow> take 3 (segments x) = take 3 (segments y)
      | _ \<Rightarrow> False)"

lemma anonymise_V4:
  "sa_ip sa = V4 (Ipv4Addr a b c d) \<Longrightarrow>
     anonymise_addr sa = nat_to_string (unat a) @ CHR ''.'' # nat_to_string (unat b) @ CHR ''.'' #
       nat_to_string (unat c) @ CHR ''.'' # ''*''"
  by (simp add: anonymise_addr_def)

lemma anonymise_V6:
  "sa_ip sa = V6 (Ipv6Addr a b c d e f g h) \<Longrightarrow>
     anonymise_addr sa = hex_string (unat a) @ CHR '':'' # hex_string (unat b) @ CHR '':'' #
       hex_string (unat c) @ CHR '':'' # ''*''"
  by (simp add: anonymise_addr_def)

subsection \<open>A concrete connection\<close>

definition demo_platform :: platform where
  "demo_platform =
     \<lparr>pf_crypto = demo_crypto, pf_serde = demo_serde, pf_from_raw_socket = demo_ws,
      pf_fill = (\<lambda>b. b), pf_version = ''1.9.0'', pf_branch = []\<rparr>"

definition demo_sink :: event_sink where
  "demo_sink = \<lparr>hostname = ''host'', procid = 1\<rparr>"

definition demo_ctx :: worker_ctx where
  "demo_ctx = \<lparr>ctx_config = config_default, ctx_keys = [demo_key], ctx_tls = None,
               ctx_sink = Some demo_sink\<rparr>"

lemma demo_platform_fill: "length (RANDOM_CHUNK (pf_fill demo_platform)) = MAX_CHUNK_SIZE"
  by (simp add: demo_platform_def RANDOM_CHUNK_def)

text \<open>A client that upgrades and presents the token issued for it gets to the command phase.\<close>

lemma demo_block:
  "\<exists>reason g s'. session_block demo_platform demo_ctx 1 client False True
     (demo_duplex (demo_upgrade @ ''TOKEN '' @ demo_token @ [LF])) (demo_session []) =
     Some (Ok (reason, Some g), s')"
proof -
  let ?r = "''TOKEN '' @ demo_token @ [LF]"
  obtain t' where d: "detect_and_upgrade demo_crypto demo_serde demo_ws ''1.9.0'' [] False [demo_key]
      (se_wall (demo_session []) 0) (Plain (demo_duplex (demo_upgrade @ ?r))) = (Ok (Rmbt (Raw t')), t')"
    and t': "d_in (chan t') = as_bytes ?r" "t_reliable t'"
      "t_peer_addr t' = Some (socket_addr_new (V4 (Ipv4Addr 192 0 2 7)) 40000)"
    using demo_upgraded by metis
  define s where "s = (demo_session [])\<lparr>se_stream := Raw t'\<rparr>"
  have "presented_token s = Some demo_token"
    by (rule presented_token_raw [where t = t' and rest = "[]"])
      (simp_all add: s_def t'(1) demo_token_ink length_demo_token demo_token_not_Nil)
  moreover have "stream_reliable (se_stream s)" using t'(2) by (simp add: s_def)
  moreover have "source_ip_of s = source_ip_of (demo_session [])" "se_wall s = se_wall (demo_session [])"
    using t'(3) by (simp_all add: s_def source_ip_of_def demo_session_def demo_duplex_def t_peer_addr_def)
  moreover have "v2_only config_default = False" by (simp add: config_default_def)
  ultimately obtain g s1 where g: "run_greeting demo_crypto ''1.9.0'' 1 config_default [demo_key]
      (Some demo_sink) client s = (Ok g, s1)"
    using greeting_reaches_ok [of s demo_token config_default demo_crypto "[demo_key]"]
    by (metis demo_accepted is_accepted.simps(1))
  have "advances s s1" using g by (rule relatesD [OF run_greeting_advances])
  then have "clock_runs s1"
    using demo_session_facts(3) [of "[]"] by (simp add: advances_def clock_runs_def s_def)
  from run_commands_outcome [OF this demo_platform_fill] obtain r2 s2 where
    "run_commands (\<lambda>b. b) s1 = Some (r2, s2)" "\<forall>p. r2 \<noteq> Panic p" by (auto simp: demo_platform_def)
  then have "commands_phase demo_platform g s1 = Some (Ok (end_of_commands r2, Some g), s2)"
    by (cases r2) (simp_all add: commands_phase_def demo_platform_def)
  moreover have "hsts config_default = False" by (simp add: config_default_def)
  ultimately have "session_block demo_platform demo_ctx 1 client False True
     (demo_duplex (demo_upgrade @ ?r)) (demo_session []) = Some (Ok (end_of_commands r2, Some g), s2)"
    using d g by (simp add: session_block_def build_transport_def transport_plain_def rmbt_phase_def
        demo_platform_def demo_ctx_def s_def del: append.simps append_assoc)
  then show ?thesis by blast
qed

text \<open>
  The frames of one connection: without a sink none, otherwise \<open>connect\<close> first, \<open>close\<close> last, and
  at most one \<open>auth\<close> between them, all with the number of the connection, and \<open>connect\<close> and \<open>auth\<close>
  with the name of the client.
\<close>

definition event_log ::
    "event_sink \<Rightarrow> usize \<Rightarrow> string \<Rightarrow> bool \<Rightarrow> string list \<Rightarrow> bool" where
  "event_log k n client tls fs \<longleftrightarrow>
     (\<exists>mid ts ts' d st reason g uuid token secret.
        close_fields g = (uuid, token, secret) \<and> auth_frames k n client mid \<and>
        fs = [connect_event k n client tls ts] @ mid @
             [close_event k n uuid token secret tls d st reason ts'])"

definition connection_log ::
    "worker_ctx \<Rightarrow> usize \<Rightarrow> socket_addr \<Rightarrow> bool \<Rightarrow> string list \<Rightarrow> bool" where
  "connection_log ctx n addr tls fs \<longleftrightarrow>
     (case ctx_sink ctx of
        None \<Rightarrow> fs = []
      | Some k \<Rightarrow> event_log k n (client_name (ctx_config ctx) addr) tls fs)"

lemma handle_connection_outcome:
  assumes "clock_runs s" and "length (RANDOM_CHUNK (pf_fill P)) = MAX_CHUNK_SIZE"
  shows "\<exists>s' fs. handle_connection P ctx n tmo tcp addr tls s = Some (Ok (), s') \<and>
     se_frames s' = se_frames s @ fs \<and> connection_log ctx n addr tls fs"
proof -
  define s1 where "s1 = s\<lparr>se_frames := frames_with (ctx_sink ctx) (\<lambda>k. connect_event k n
      (client_name (ctx_config ctx) addr) tls) s, se_ticks := Suc (se_ticks s),
      se_stats := stats_new\<rparr>"
  define t where "t = se_clock s (se_ticks s)"
  have "clock_runs s1" using assms(1) by (simp add: clock_runs_def s1_def)
  from session_block_outcome [OF this assms(2), of ctx n "client_name (ctx_config ctx) addr" tls tmo tcp]
  obtain reason g s2 where b: "session_block P ctx n (client_name (ctx_config ctx) addr) tls tmo tcp s1 =
      Some (Ok (reason, g), s2)"
    and e: "adds_event (ctx_sink ctx) n (client_name (ctx_config ctx) addr) s1 s2" and c: "same_clocks s1 s2"
    by blast
  obtain fs where fs: "se_frames s2 = se_frames s1 @ fs"
    "case ctx_sink ctx of None \<Rightarrow> fs = [] | Some k \<Rightarrow> auth_frames k n (client_name (ctx_config ctx) addr) fs"
    using e by (auto simp: adds_event_def)
  obtain uuid token secret where cf: "close_fields g = (uuid, token, secret)" by (cases "close_fields g")
  have h: "handle_connection P ctx n tmo tcp addr tls s =
      Some (emit_close (ctx_sink ctx) n tls t reason g s2)"
    using b by (simp add: handle_connection_def Let_def try_io_def io_of_def emit_to_eq
        instant_now_def on_stats_def s1_def t_def split: prod.split res.split)
  show ?thesis
  proof (cases "ctx_sink ctx")
    case None
    with h fs show ?thesis
      by (simp add: emit_close_def ok_act_def s1_def frames_with_def connection_log_def)
  next
    case (Some k)
    define s' where "s' = snd (emit_close (ctx_sink ctx) n tls t reason g s2)"
    define fs' where "fs' = [connect_event k n (client_name (ctx_config ctx) addr) tls
        (se_stamp s (length (se_frames s)))] @ fs @ [close_event k n uuid token secret tls
        (se_clock s2 (se_ticks s2) - t) (se_stats s2) reason (se_stamp s2 (length (se_frames s2)))]"
    have "emit_close (ctx_sink ctx) n tls t reason g s2 = (Ok (), s')"
      and "se_frames s' = se_frames s @ fs'"
      using fs by (simp_all add: s'_def fs'_def s1_def emit_close_def Some cf try_act_def elapsed_def
          observe_def emit_to_eq frames_with_def)
    moreover have "connection_log ctx n addr tls fs'"
      unfolding connection_log_def event_log_def Some option.case
      by (intro exI conjI) (rule cf, rule fs(2) [unfolded Some option.case], rule fs'_def)
    ultimately show ?thesis using h by auto
  qed
qed

section \<open>Properties\<close>



text \<open>
  C6: no measurement without a valid token. When tokens are checked, the command phase is
  entered (the connection ends as \<open>quit\<close>, \<open>disconnect\<close> or \<open>error\<close>, and the close event names a
  token) only if the connection was upgraded and the token the client then presented is accepted
  for the address of its socket. The only event of the phase is the \<open>auth\<close> event, which says
  \<open>accepted\<close> and names the presented token and the key that authenticated it.
\<close>

theorem commands_need_valid_token:
  assumes "session_block P ctx n client tls tmo tcp s = Some (Ok (reason, Some g), s')"
    and "check_token (ctx_config ctx)" and "ascii (pf_version P)"
    and "\<And>t. ws_base (pf_from_raw_socket P t) = t"
  shows "\<exists>tr st tr' t secs. build_transport ctx tls tcp = Inr tr \<and>
     detect_and_upgrade (pf_crypto P) (pf_serde P) (pf_from_raw_socket P) (pf_version P)
       (pf_branch P) (tls \<and> hsts (ctx_config ctx)) (ctx_keys ctx) (se_wall s 0) tr = (Ok (Rmbt st), tr') \<and>
     presented_token (s\<lparr>se_stream := st\<rparr>) = Some t \<and>
     validate_token (pf_crypto P) t (ctx_keys ctx) (map_option sa_ip (d_peer tcp))
       (v2_only (ctx_config ctx)) (se_wall s) = Accepted secs (g_label g) \<and>
     g_uuid g = token_uuid t \<and> g_token_type g = token_type_of t \<and>
     se_frames s' = frames_with (ctx_sink ctx) (\<lambda>k. auth_event k n client (token_uuid t)
       (token_type_of t) ''accepted'' (Some (g_label g)) None) s \<and>
     reason \<in> {''quit'', ''disconnect'', ''error''}"
proof -
  from assms(1) obtain t where t: "build_transport ctx tls tcp = Inr t"
    by (auto simp: session_block_def split: if_splits sum.splits)
  with assms(1) obtain st t' where
    d: "detect_and_upgrade (pf_crypto P) (pf_serde P) (pf_from_raw_socket P) (pf_version P)
      (pf_branch P) (tls \<and> hsts (ctx_config ctx)) (ctx_keys ctx) (se_wall s 0) t = (Ok (Rmbt st), t')"
    and r: "rmbt_phase P ctx n client (s\<lparr>se_stream := st\<rparr>) = Some (Ok (reason, Some g), s')"
    by (auto simp: session_block_def Let_def split: if_splits prod.splits res.splits upgrade.splits)
  from r obtain s1 where
    gr: "run_greeting (pf_crypto P) (pf_version P) n (ctx_config ctx) (ctx_keys ctx) (ctx_sink ctx)
      client (s\<lparr>se_stream := st\<rparr>) = (Ok g, s1)"
    and ph: "commands_phase P g s1 = Some (Ok (reason, Some g), s')"
    by (auto simp: rmbt_phase_def commands_phase_def split: prod.splits res.splits option.splits)
  then have reason: "reason \<in> {''quit'', ''disconnect'', ''error''}"
    by (auto simp: commands_phase_def end_of_commands_def split: option.splits res.splits prod.splits
        if_splits)
  have "t_peer_addr t = d_peer tcp"
    using t by (auto simp: build_transport_def transport_plain_def transport_tls_def t_peer_addr_def
        split: if_splits option.splits sum.splits)
  then have "source_ip_of (s\<lparr>se_stream := st\<rparr>) = map_option sa_ip (d_peer tcp)"
    using detect_and_upgrade_Rmbt [OF d] assms(4) by (auto simp: source_ip_of_def Let_def)
  moreover have "se_frames s' = se_frames s1"
  proof -
    from ph obtain r where "run_commands (pf_fill P) s1 = Some (r, s')"
      by (auto simp: commands_phase_def split: option.splits res.splits prod.splits)
    then show ?thesis by (auto dest!: run_commands_quiet simp: quiet_def)
  qed
  moreover have "frames_with (ctx_sink ctx) ev (s\<lparr>se_stream := st\<rparr>) = frames_with (ctx_sink ctx) ev s" for ev
    by (cases "ctx_sink ctx") (simp_all add: frames_with_def)
  ultimately show ?thesis
    using run_greeting_Ok [OF gr assms(2,3)] reason t d by auto
qed

theorem commands_need_valid_token_witness:
  "\<exists>reason g s' t secs ev. session_block demo_platform demo_ctx 1 [] False True
     (demo_duplex (demo_upgrade @ ''TOKEN '' @ demo_token @ [LF])) (demo_session []) =
     Some (Ok (reason, Some g), s') \<and>
     validate_token demo_crypto t [demo_key] (Some (V4 (Ipv4Addr 192 0 2 7))) False
       (\<lambda>_. 1700000000) = Accepted secs (g_label g) \<and> se_frames s' = [ev]"
proof -
  obtain reason g s' where b: "session_block demo_platform demo_ctx 1 [] False True
     (demo_duplex (demo_upgrade @ ''TOKEN '' @ demo_token @ [LF])) (demo_session []) =
     Some (Ok (reason, Some g), s')" using demo_block by blast
  have c: "check_token (ctx_config demo_ctx)" "ascii (pf_version demo_platform)"
    "ws_base (pf_from_raw_socket demo_platform t) = t" for t
    by (simp_all add: demo_ctx_def config_default_def demo_platform_def demo_ws_def)
  have "pf_crypto demo_platform = demo_crypto" "ctx_keys demo_ctx = [demo_key]"
    "\<not> v2_only (ctx_config demo_ctx)" "se_wall (demo_session []) = (\<lambda>_. 1700000000)"
    "map_option sa_ip (d_peer (demo_duplex inp)) = Some (V4 (Ipv4Addr 192 0 2 7))"
    "ctx_sink demo_ctx = Some demo_sink" "se_frames (demo_session []) = []" for inp
    by (simp_all add: demo_platform_def demo_ctx_def config_default_def demo_session_def demo_duplex_def)
  with commands_need_valid_token [OF b c] b show ?thesis by (auto simp: frames_with_def)
qed

text \<open>
  Privacy of the logs. Two client addresses have the same anonymised form exactly when they
  are of the same family and agree in the first three octets (IPv4) or the first three
  groups (IPv6): nothing else of an address can be learned from it.
\<close>

theorem anonymised_address_is_the_site:
  "anonymise_addr x = anonymise_addr y \<longleftrightarrow> same_site (sa_ip x) (sa_ip y)"
proof -
  have mixed: "anonymise_addr u \<noteq> anonymise_addr v"
    if "sa_ip u = V4 (Ipv4Addr a b c d)" "sa_ip v = V6 (Ipv6Addr e f g h i j k l)"
    for u v a b c d e f g h i j k l
  proof -
    have "CHR ''.'' \<in> set (anonymise_addr u)" using that(1) by (simp add: anonymise_V4)
    moreover have "CHR ''.'' \<notin> set (anonymise_addr v)"
      using that(2) by (simp add: anonymise_V6 hex_string_no_punct)
    ultimately show ?thesis by metis
  qed
  show ?thesis
  proof (cases "sa_ip x"; cases "sa_ip y")
    fix p q assume x: "sa_ip x = V4 p" and y: "sa_ip y = V4 q"
    obtain a b c d a' b' c' d' where "p = Ipv4Addr a b c d" "q = Ipv4Addr a' b' c' d'"
      by (metis ipv4_addr.exhaust)
    with x y show ?thesis
      by (simp add: anonymise_V4 same_site_def field_eq dot_not_in_number number_inject)
  next
    fix p q assume x: "sa_ip x = V6 p" and y: "sa_ip y = V6 q"
    obtain a b c d e f g h a' b' c' d' e' f' g' h'
      where "p = Ipv6Addr a b c d e f g h" "q = Ipv6Addr a' b' c' d' e' f' g' h'"
      by (metis ipv6_addr.exhaust)
    with x y show ?thesis
      by (simp add: anonymise_V6 same_site_def field_eq hex_string_no_punct hex_string_inject
          word_unat_eq_iff)
  next
    fix p q assume x: "sa_ip x = V4 p" and y: "sa_ip y = V6 q"
    obtain a b c d where p: "p = Ipv4Addr a b c d" by (cases p)
    obtain e f g h i j k l where q: "q = Ipv6Addr e f g h i j k l" by (cases q)
    show ?thesis using x y mixed [OF x [unfolded p] y [unfolded q]] by (simp add: same_site_def)
  next
    fix p q assume x: "sa_ip x = V6 p" and y: "sa_ip y = V4 q"
    obtain a b c d where q: "q = Ipv4Addr a b c d" by (cases q)
    obtain e f g h i j k l where p: "p = Ipv6Addr e f g h i j k l" by (cases p)
    show ?thesis using x y mixed [OF y [unfolded q] x [unfolded p]] by (simp add: same_site_def)
  qed
qed

end
