(* ===== verification/Rmbt_Tls.thy ===== *)
theory Rmbt_Tls
  imports Rmbt_Config
begin

text \<open>
  Loading the TLS configuration (\<open>src/src/tls.rs\<close>). Reading files, decoding PEM
  (\<open>rustls_pemfile\<close>) and building the configuration (\<open>rustls\<close>) are the record \<open>tls_env\<close>;
  its type parameter is \<open>rustls::ServerConfig\<close>. The key file is opened twice, so the
  operation takes the number of the attempt.
\<close>

datatype tls_version = TLS12 | TLS13

datatype private_key = Pkcs8 bytes | Pkcs1 bytes

datatype tls_error =
    CannotOpenCert string string | BadCerts string string | NoCerts string
  | CannotOpenKey string string | CannotReopenKey string | BadPkcs8 string | BadRsa string
  | NoPrivateKey string | TlsConfigError string

text \<open>
  \<open>certs\<close> collects all certificates or the first error; \<open>pkcs8_private_keys\<close> and
  \<open>rsa_private_keys\<close> give the first key of their kind, if there is one. The list in
  \<open>with_single_cert\<close> holds the protocol versions of the builder.
\<close>

record 'c tls_env =
  file_open :: "nat \<Rightarrow> string \<Rightarrow> string + string"
  pem_certs :: "string \<Rightarrow> string + bytes list"
  pkcs8_private_keys :: "string \<Rightarrow> (string + bytes) option"
  rsa_private_keys :: "string \<Rightarrow> (string + bytes) option"
  with_single_cert :: "tls_version list \<Rightarrow> bytes list \<Rightarrow> private_key \<Rightarrow> string + 'c"

text \<open>Rust's \<open>map_err(f)?\<close> on results as sums.\<close>

definition or_fail :: "('a \<Rightarrow> 'e) \<Rightarrow> 'a + 'b \<Rightarrow> ('b \<Rightarrow> 'e + 'd) \<Rightarrow> 'e + 'd" where
  "or_fail f r k = (case r of Inl e \<Rightarrow> Inl (f e) | Inr v \<Rightarrow> k v)"

lemma or_fail_Inr: "or_fail f r k = Inr d \<longleftrightarrow> (\<exists>v. r = Inr v \<and> k v = Inr d)"
  by (cases r) (simp_all add: or_fail_def)

definition load_private_key :: "'c tls_env \<Rightarrow> string \<Rightarrow> tls_error + private_key" where
  "load_private_key E key_file =
     or_fail (CannotOpenKey key_file) (file_open E 0 key_file) (\<lambda>text.
     or_fail CannotReopenKey (file_open E 1 key_file) (\<lambda>text2.
       case pkcs8_private_keys E text of
         Some key \<Rightarrow> or_fail BadPkcs8 key (\<lambda>k. Inr (Pkcs8 k))
       | None \<Rightarrow>
           (case rsa_private_keys E text2 of
              Some key \<Rightarrow> or_fail BadRsa key (\<lambda>k. Inr (Pkcs1 k))
            | None \<Rightarrow> Inl (NoPrivateKey key_file))))"

definition protocol_versions :: "bool \<Rightarrow> tls_version list" where
  "protocol_versions only13 = (if only13 then [TLS13] else [TLS12, TLS13])"

definition build_tls_config :: "'c tls_env \<Rightarrow> string \<Rightarrow> string \<Rightarrow> bool \<Rightarrow> tls_error + 'c" where
  "build_tls_config E cert_file key_file only13 =
     or_fail (CannotOpenCert cert_file) (file_open E 0 cert_file) (\<lambda>text.
     or_fail (BadCerts cert_file) (pem_certs E text) (\<lambda>cert_chain.
       if cert_chain = [] then Inl (NoCerts cert_file)
       else or_fail id (load_private_key E key_file) (\<lambda>private_key.
            or_fail TlsConfigError
              (with_single_cert E (protocol_versions only13) cert_chain private_key) Inr)))"

lemma load_private_key_Inr:
  assumes "load_private_key E kp = Inr k"
  obtains t1 t2 where "file_open E 0 kp = Inr t1" and "file_open E 1 kp = Inr t2"
    and "pkcs8_private_keys E t1 = None \<longrightarrow> rsa_private_keys E t2 \<noteq> None"
    and "k = (case pkcs8_private_keys E t1 of
                Some key \<Rightarrow> Pkcs8 (projr key) | None \<Rightarrow> Pkcs1 (projr (the (rsa_private_keys E t2))))"
  using assms by (auto simp: load_private_key_def or_fail_Inr split: option.splits)

text \<open>
  The TLS configuration. When one is built, it is for a non-empty certificate chain read
  from the certificate file and a key read from the key file, where a PKCS#8 key is preferred
  to an RSA key; and the protocol versions handed to rustls contain TLS 1.2 only if
  \<open>--tls13-only\<close> was not given.
\<close>

theorem tls_config_versions:
  assumes "build_tls_config E cert key only13 = Inr c"
  shows "\<exists>versions chain k pem.
     with_single_cert E versions chain k = Inr c \<and> (TLS12 \<in> set versions \<longleftrightarrow> \<not> only13) \<and>
     TLS13 \<in> set versions \<and> chain \<noteq> [] \<and> pem_certs E pem = Inr chain \<and>
     file_open E 0 cert = Inr pem \<and> load_private_key E key = Inr k \<and>
     (case k of Pkcs8 _ \<Rightarrow> True
      | Pkcs1 _ \<Rightarrow> map_sum id (pkcs8_private_keys E) (file_open E 0 key) = Inr None)"
proof -
  from assms obtain pem chain k where r: "file_open E 0 cert = Inr pem" "pem_certs E pem = Inr chain"
    "chain \<noteq> []" "load_private_key E key = Inr k"
    "with_single_cert E (protocol_versions only13) chain k = Inr c"
    by (auto simp: build_tls_config_def or_fail_Inr split: if_splits)
  have "case k of Pkcs8 _ \<Rightarrow> True
      | Pkcs1 _ \<Rightarrow> map_sum id (pkcs8_private_keys E) (file_open E 0 key) = Inr None"
    using r(4) by (cases rule: load_private_key_Inr) (auto split: option.splits)
  with r show ?thesis
    by (intro exI [of _ "protocol_versions only13"] exI [of _ chain] exI [of _ k] exI [of _ pem])
      (simp add: protocol_versions_def)
qed

definition demo_tls :: "tls_version list tls_env" where
  "demo_tls =
     \<lparr>file_open = (\<lambda>_ path. if path = ''cert.pem'' \<or> path = ''key.pem'' then Inr path else Inl ''missing''),
      pem_certs = (\<lambda>pem. Inr [as_bytes pem]),
      pkcs8_private_keys = (\<lambda>_. None),
      rsa_private_keys = (\<lambda>pem. Some (Inr (as_bytes pem))),
      with_single_cert = (\<lambda>versions _ _. Inr versions)\<rparr>"

lemma demo_tls_builds: "build_tls_config demo_tls ''cert.pem'' ''key.pem'' True = Inr [TLS13]"
  by (simp add: build_tls_config_def load_private_key_def or_fail_def demo_tls_def
      protocol_versions_def)

theorem tls_config_versions_witness:
  "build_tls_config demo_tls ''cert.pem'' ''key.pem'' True = Inr [TLS13] \<and>
   (\<exists>versions chain k. with_single_cert demo_tls versions chain k = Inr [TLS13] \<and>
      TLS12 \<notin> set versions \<and> chain \<noteq> [])"
  using tls_config_versions [OF demo_tls_builds] demo_tls_builds by auto

end
