(* ===== verification/Rmbt_Server.thy ===== *)
theory Rmbt_Server
  imports Rmbt_Connection Rmbt_Tls
begin

text \<open>
  The server as a whole (\<open>src/src/server/mod.rs\<close>): \<open>Server::new\<close>, the accept loop
  \<open>Server::run\<close> and the pool of worker threads.

  The threads run concurrently. Each loop is cut into the steps between two of its accesses to
  shared state (a channel or the shutdown flag), every step is an executable function, and the
  relation \<open>sys_step\<close> lets any thread take its next step: its runs are all interleavings. The
  poll and accept results, the arrival of Ctrl+C, and the clocks a connection sees are chosen by
  the environment in each step.
\<close>

section \<open>Bounded channels\<close>

text \<open>\<open>mpsc::sync_channel\<close>; \<open>ch_open\<close> says that the receiver still exists.\<close>

record 'a channel =
  ch_buf :: "'a list"
  ch_cap :: nat
  ch_open :: bool

definition sync_channel :: "nat \<Rightarrow> 'a channel" where
  "sync_channel n = \<lparr>ch_buf = [], ch_cap = n, ch_open = True\<rparr>"

text \<open>\<open>try_send\<close>: \<open>False\<close> when the buffer is full or the receiver is gone.\<close>

definition try_send :: "'a \<Rightarrow> 'a channel \<Rightarrow> bool \<times> 'a channel" where
  "try_send x c =
     (if ch_open c \<and> length (ch_buf c) < ch_cap c then (True, c\<lparr>ch_buf := ch_buf c @ [x]\<rparr>)
      else (False, c))"

definition try_recv :: "'a channel \<Rightarrow> ('a \<times> 'a channel) option" where
  "try_recv c = (case ch_buf c of [] \<Rightarrow> None | x # xs \<Rightarrow> Some (x, c\<lparr>ch_buf := xs\<rparr>))"

definition drop_receiver :: "'a channel \<Rightarrow> 'a channel" where
  "drop_receiver c = c\<lparr>ch_open := False\<rparr>"

text \<open>
  The contract of a bounded queue between a sender and a receiver. \<open>carries sent got q\<close>: what was
  sent is what was received followed by what is still in the queue, which is within its bound.
\<close>

locale bounded_fifo =
  fixes send :: "'a \<Rightarrow> 'q \<Rightarrow> bool \<times> 'q"
    and recv :: "'q \<Rightarrow> ('a \<times> 'q) option"
    and close :: "'q \<Rightarrow> 'q"
    and contents :: "'q \<Rightarrow> 'a list"
    and bound :: "'q \<Rightarrow> nat"
  assumes send_True: "send x q = (True, q') \<Longrightarrow>
      contents q' = contents q @ [x] \<and> length (contents q) < bound q \<and> bound q' = bound q"
    and send_False: "send x q = (False, q') \<Longrightarrow> q' = q"
    and recv_Some: "recv q = Some (x, q') \<Longrightarrow> contents q = x # contents q' \<and> bound q' = bound q"
    and recv_None: "recv q = None \<longleftrightarrow> contents q = []"
    and close_same: "contents (close q) = contents q \<and> bound (close q) = bound q"
begin

definition carries :: "nat \<Rightarrow> 'a list \<Rightarrow> 'a list \<Rightarrow> 'q \<Rightarrow> bool" where
  "carries n sent got q \<longleftrightarrow> sent = got @ contents q \<and> length (contents q) \<le> n \<and> bound q = n"

lemma carries_send: "carries n sent got q \<Longrightarrow> send x q = (True, q') \<Longrightarrow> carries n (sent @ [x]) got q'"
  by (auto simp: carries_def dest!: send_True)

lemma carries_refused: "carries n sent got q \<Longrightarrow> send x q = (False, q') \<Longrightarrow> carries n sent got q'"
  by (auto dest!: send_False)

lemma carries_recv: "carries n sent got q \<Longrightarrow> recv q = Some (x, q') \<Longrightarrow> carries n sent (got @ [x]) q'"
  by (auto simp: carries_def dest!: recv_Some)

lemma carries_close: "carries n sent got q \<Longrightarrow> carries n sent got (close q)"
  by (simp add: carries_def close_same)

end

interpretation ch: bounded_fifo try_send try_recv drop_receiver ch_buf ch_cap
  by unfold_locales
    (auto simp: try_send_def try_recv_def drop_receiver_def split: if_splits list.splits)

section \<open>Jobs and the server object\<close>

text \<open>
  An accepted socket: its two directions, and whether the operating system will let the
  socket timeouts be set.
\<close>

record tcp_stream =
  ts_duplex :: duplex
  ts_timeouts :: bool

datatype job = Connection tcp_stream socket_addr bool | Shutdown

record server =
  shutdown :: bool
  senders :: "job channel list"

definition shutdown_signal :: "server \<Rightarrow> bool" where
  "shutdown_signal sv = shutdown sv"

text \<open>What the task that waits for Ctrl+C does with the flag.\<close>

definition request_shutdown :: "server \<Rightarrow> server" where
  "request_shutdown sv = sv\<lparr>shutdown := True\<rparr>"

lemma request_shutdown_simps [simp]:
  "shutdown (request_shutdown sv)" "senders (request_shutdown sv) = senders sv"
  by (simp_all add: request_shutdown_def)

section \<open>Starting the server\<close>

text \<open>A listener is known by the address it is bound to.\<close>

datatype listener = Listener socket_addr

text \<open>
  What the start needs of the operating system: \<open>TcpListener::bind\<close>, \<open>set_nonblocking\<close>,
  \<open>Poll::new\<close>, registering the i-th listener, and starting a thread; \<open>None\<close> is success.
\<close>

record os =
  os_read :: "string \<Rightarrow> string + string"
  os_bind :: "socket_addr \<Rightarrow> io_error option"
  os_set_nonblocking :: "bool \<Rightarrow> listener \<Rightarrow> io_error option"
  os_poll_new :: "io_error option"
  os_register :: "nat \<Rightarrow> io_error option"
  os_spawn :: "usize \<Rightarrow> bool"

datatype start_error = KeyFile key_error | BindFailed bool socket_addr io_error

datatype 'a start = Started 'a | StartFailed start_error | SpawnPanic usize

definition bind_listener :: "os \<Rightarrow> socket_addr \<Rightarrow> io_error + listener" where
  "bind_listener os addr =
     (case os_bind os addr of
        Some e \<Rightarrow> Inl e
      | None \<Rightarrow>
          (case os_set_nonblocking os False (Listener addr) of
             Some e \<Rightarrow> Inl e
           | None \<Rightarrow> Inr (Listener addr)))"

fun bind_all :: "os \<Rightarrow> bool \<Rightarrow> socket_addr list \<Rightarrow> start_error + listener list" where
  "bind_all os tls [] = Inr []"
| "bind_all os tls (a # as) =
     (case bind_listener os a of
        Inl e \<Rightarrow> Inl (BindFailed tls a e)
      | Inr l \<Rightarrow> map_sum id (\<lambda>ls. l # ls) (bind_all os tls as))"

definition load_keys :: "os \<Rightarrow> config \<Rightarrow> start_error + secret_key list" where
  "load_keys os cfg =
     (case read_secret_keys (secret_key_path cfg) (os_read os (secret_key_path cfg)) of
        Inr keys \<Rightarrow> Inr keys
      | Inl e \<Rightarrow> if \<not> check_token cfg then Inr [] else Inl (KeyFile e))"

text \<open>
  \<open>conn\<close> gives for a \<open>rustls::ServerConfig\<close> the result of creating connections with it, which
  is what the worker context keeps of it.
\<close>

definition load_tls :: "'c tls_env \<Rightarrow> ('c \<Rightarrow> string + unit) \<Rightarrow> config \<Rightarrow> (string + unit) option" where
  "load_tls E conn cfg =
     (case (cert_path cfg, key_path cfg) of
        (Some cert, Some key) \<Rightarrow>
          (case build_tls_config E cert key (tls13_only cfg) of
             Inr c \<Rightarrow> Some (conn c)
           | Inl e \<Rightarrow> None)
      | _ \<Rightarrow> None)"

text \<open>
  A worker thread: where its loop stands (\<open>Handling\<close> holds the connection number and the
  accepted socket), the local variable \<open>conn_seq\<close>, and the event frames it has emitted.
\<close>

datatype worker_pc = LoopTop | Receiving | Handling usize tcp_stream socket_addr bool | Stopped

record worker =
  w_pc :: worker_pc
  conn_seq :: usize
  w_frames :: "string list"

definition worker_start :: worker where
  "worker_start = \<lparr>w_pc = LoopTop, conn_seq = 0, w_frames = []\<rparr>"

definition CHANNEL_CAPACITY :: nat where
  "CHANNEL_CAPACITY = 8"

definition spawn_workers :: "os \<Rightarrow> usize \<Rightarrow> (server \<times> worker list) start" where
  "spawn_workers os n =
     (case find (\<lambda>w. \<not> os_spawn os w) [0..<n] of
        Some w \<Rightarrow> SpawnPanic w
      | None \<Rightarrow>
          Started (\<lparr>shutdown = False, senders = replicate n (sync_channel CHANNEL_CAPACITY)\<rparr>,
                   replicate n worker_start))"

text \<open>\<open>Server::new\<close>; besides its value it gives the threads started and the context they share.\<close>

record running =
  rn_server :: server
  rn_workers :: "worker list"
  rn_ctx :: worker_ctx
  rn_tcp :: "listener list"
  rn_tls :: "listener list"

definition server_new ::
    "os \<Rightarrow> 'c tls_env \<Rightarrow> ('c \<Rightarrow> string + unit) \<Rightarrow> config \<Rightarrow> socket_addr list \<Rightarrow> socket_addr list \<Rightarrow>
     event_sink option \<Rightarrow> running start" where
  "server_new os E conn cfg tcp tls sink =
     (case load_keys os cfg of
        Inl e \<Rightarrow> StartFailed e
      | Inr keys \<Rightarrow>
          (let tls_cfg = load_tls E conn cfg
           in case bind_all os False tcp of
                Inl e \<Rightarrow> StartFailed e
              | Inr tcp_listeners \<Rightarrow>
                  (case (if tls_cfg \<noteq> None then bind_all os True tls else Inr []) of
                     Inl e \<Rightarrow> StartFailed e
                   | Inr tls_listeners \<Rightarrow>
                       (case spawn_workers os (num_workers cfg) of
                          Started (sv, ws) \<Rightarrow>
                            Started \<lparr>rn_server = sv, rn_workers = ws,
                              rn_ctx = \<lparr>ctx_config = cfg, ctx_keys = keys, ctx_tls = tls_cfg,
                                        ctx_sink = sink\<rparr>,
                              rn_tcp = tcp_listeners, rn_tls = tls_listeners\<rparr>
                        | StartFailed e \<Rightarrow> StartFailed e
                        | SpawnPanic w \<Rightarrow> SpawnPanic w))))"

section \<open>The accept loop\<close>

text \<open>
  \<open>Server::run\<close> stands at the poll, drains the listeners of the events still to handle, sends
  \<open>Shutdown\<close> to the workers from the i-th on, or has returned.
\<close>

datatype run_pc = Polling | Draining "nat list" | Signalling nat | Returned "unit res"

record run_state =
  rs_pc :: run_pc
  rs_listeners :: "(listener \<times> bool) list"
  next_worker :: usize

definition tag_listeners :: "listener list \<Rightarrow> listener list \<Rightarrow> (listener \<times> bool) list" where
  "tag_listeners tcp tls = map (\<lambda>l. (l, False)) tcp @ map (\<lambda>l. (l, True)) tls"

text \<open>The first error of a list of calls that may fail, in order.\<close>

definition first_error :: "io_error option list \<Rightarrow> io_error option" where
  "first_error rs = (case dropWhile (\<lambda>r. r = None) rs of [] \<Rightarrow> None | r # _ \<Rightarrow> r)"

definition run_setup :: "os \<Rightarrow> listener list \<Rightarrow> listener list \<Rightarrow> (listener \<times> bool) list res" where
  "run_setup os tcp tls =
     (let all = tag_listeners tcp tls
      in if all = [] then Err (IoError AddrNotAvailable ''no listeners bound'')
         else (case first_error (map (\<lambda>(l, _). os_set_nonblocking os True l) all) of
                 Some e \<Rightarrow> Err e
               | None \<Rightarrow>
                   (case os_poll_new os of
                      Some e \<Rightarrow> Err e
                    | None \<Rightarrow>
                        (case first_error (map (os_register os) [0..<length all]) of
                           Some e \<Rightarrow> Err e
                         | None \<Rightarrow> Ok all))))"

definition run_start :: "os \<Rightarrow> listener list \<Rightarrow> listener list \<Rightarrow> run_state" where
  "run_start os tcp tls =
     (case run_setup os tcp tls of
        Ok ls \<Rightarrow> \<lparr>rs_pc = Polling, rs_listeners = ls, next_worker = 0\<rparr>
      | Err e \<Rightarrow> \<lparr>rs_pc = Returned (Err e), rs_listeners = [], next_worker = 0\<rparr>
      | Panic p \<Rightarrow> \<lparr>rs_pc = Returned (Panic p), rs_listeners = [], next_worker = 0\<rparr>)"

text \<open>The whole system: the server object, the local state of \<open>run\<close>, and the threads.\<close>

record sys =
  sy_server :: server
  sy_run :: run_state
  sy_workers :: "worker list"

abbreviation sy_pc :: "sys \<Rightarrow> run_pc" where
  "sy_pc s \<equiv> rs_pc (sy_run s)"

abbreviation sy_senders :: "sys \<Rightarrow> job channel list" where
  "sy_senders s \<equiv> senders (sy_server s)"

definition set_pc :: "run_pc \<Rightarrow> sys \<Rightarrow> sys" where
  "set_pc pc s = s\<lparr>sy_run := (sy_run s)\<lparr>rs_pc := pc\<rparr>\<rparr>"

definition set_channel :: "nat \<Rightarrow> job channel \<Rightarrow> sys \<Rightarrow> sys" where
  "set_channel i c s = s\<lparr>sy_server := (sy_server s)\<lparr>senders := (sy_senders s)[i := c]\<rparr>\<rparr>"

text \<open>What a step does that other threads or clients can notice.\<close>

datatype action =
    Silent
  | Sent nat job
  | Dropped nat job
  | Took nat usize job
  | TookShutdown nat
  | CtrlC

text \<open>One iteration up to the events: \<open>r\<close> is the result of \<open>poll\<close>, with the tokens of the events.\<close>

definition poll_step :: "io_error + nat list \<Rightarrow> sys \<Rightarrow> sys" where
  "poll_step r s =
     (case r of
        Inl e \<Rightarrow> if err_kind e = Interrupted then s else set_pc (Returned (Err e)) s
      | Inr tokens \<Rightarrow>
          if shutdown (sy_server s) then set_pc (Signalling 0) s else set_pc (Draining tokens) s)"

definition wrapping_succ :: "usize \<Rightarrow> usize" where
  "wrapping_succ n = (n + 1) mod 2 ^ 64"

definition dispatch :: "job \<Rightarrow> sys \<Rightarrow> action \<times> sys" where
  "dispatch j s =
     (if sy_senders s = [] then
        (Silent, set_pc (Returned (Panic
           ''attempt to calculate the remainder with a divisor of zero'')) s)
      else
        (let i = next_worker (sy_run s) mod length (sy_senders s);
             s1 = s\<lparr>sy_run := (sy_run s)\<lparr>next_worker := wrapping_succ (next_worker (sy_run s))\<rparr>\<rparr>
         in case try_send j (sy_senders s ! i) of
              (True, c) \<Rightarrow> (Sent i j, set_channel i c s1)
            | (False, _) \<Rightarrow> (Dropped i j, s1)))"

text \<open>
  The result of \<open>accept\<close>: a socket with its address and the result of
  \<open>set_nonblocking(false)\<close> on it, or an error (\<open>WouldBlock\<close> when no connection is pending).
\<close>

datatype accept_result = Incoming tcp_stream socket_addr "io_error option" | AcceptError io_error

fun accept_step :: "accept_result \<Rightarrow> nat list \<Rightarrow> sys \<Rightarrow> action \<times> sys" where
  "accept_step a [] s = (Silent, set_pc Polling s)"
| "accept_step a (tok # toks) s =
     (if tok < length (rs_listeners (sy_run s)) then
        (case a of
           Incoming tcp addr None \<Rightarrow>
             dispatch (Connection tcp addr (snd (rs_listeners (sy_run s) ! tok))) s
         | Incoming tcp addr (Some e) \<Rightarrow> (Silent, s)
         | AcceptError e \<Rightarrow> (Silent, set_pc (Draining toks) s))
      else (Silent, set_pc (Returned (Panic ''index out of bounds'')) s))"

definition signal_step :: "nat \<Rightarrow> sys \<Rightarrow> action \<times> sys" where
  "signal_step i s =
     (if i < length (sy_senders s) then
        (case try_send Shutdown (sy_senders s ! i) of
           (True, c) \<Rightarrow> (Sent i Shutdown, set_channel i c (set_pc (Signalling (i + 1)) s))
         | (False, _) \<Rightarrow> (Silent, set_pc (Signalling (i + 1)) s))
      else (Silent, set_pc (Returned (Ok ())) s))"

section \<open>The worker loop\<close>

text \<open>
  The steps of worker \<open>i\<close>. \<open>alive\<close> says whether the senders still exist when the channel is
  empty (otherwise \<open>recv_timeout\<close> reports \<open>Disconnected\<close>); \<open>e\<close> is the world a connection is
  handled in. A thread that panics drops its receiver like one that leaves its loop. \<open>None\<close>
  means that the step never ends.
\<close>

definition set_worker :: "nat \<Rightarrow> worker \<Rightarrow> sys \<Rightarrow> sys" where
  "set_worker i w s = s\<lparr>sy_workers := (sy_workers s)[i := w]\<rparr>"

definition stop_worker :: "nat \<Rightarrow> sys \<Rightarrow> sys" where
  "stop_worker i s =
     set_channel i (drop_receiver (sy_senders s ! i))
       (set_worker i ((sy_workers s ! i)\<lparr>w_pc := Stopped\<rparr>) s)"

definition conn_id_of :: "nat \<Rightarrow> usize \<Rightarrow> usize" where
  "conn_id_of i seq = i * 100000 + seq"

definition receive_step :: "bool \<Rightarrow> nat \<Rightarrow> sys \<Rightarrow> action \<times> sys" where
  "receive_step alive i s =
     (let w = sy_workers s ! i
      in case try_recv (sy_senders s ! i) of
           None \<Rightarrow>
             if alive then (Silent, set_worker i (w\<lparr>w_pc := LoopTop\<rparr>) s)
             else (Silent, stop_worker i s)
         | Some (Shutdown, c) \<Rightarrow> (TookShutdown i, stop_worker i (set_channel i c s))
         | Some (Connection tcp addr is_tls, c) \<Rightarrow>
             (let seq = conn_seq w + 1; conn_id = conn_id_of i seq
              in (Took i conn_id (Connection tcp addr is_tls),
                  set_worker i (w\<lparr>w_pc := Handling conn_id tcp addr is_tls, conn_seq := seq\<rparr>)
                    (set_channel i c s))))"

definition worker_step ::
    "platform \<Rightarrow> worker_ctx \<Rightarrow> bool \<Rightarrow> session \<Rightarrow> nat \<Rightarrow> sys \<Rightarrow> (action \<times> sys) option" where
  "worker_step P ctx alive e i s =
     (let w = sy_workers s ! i
      in case w_pc w of
           Stopped \<Rightarrow> Some (Silent, s)
         | LoopTop \<Rightarrow>
             if shutdown (sy_server s) then Some (Silent, stop_worker i s)
             else Some (Silent, set_worker i (w\<lparr>w_pc := Receiving\<rparr>) s)
         | Receiving \<Rightarrow> Some (receive_step alive i s)
         | Handling conn_id tcp addr is_tls \<Rightarrow>
             (case handle_connection P ctx conn_id (ts_timeouts tcp) (ts_duplex tcp) addr is_tls
                     (e\<lparr>se_frames := []\<rparr>) of
                None \<Rightarrow> None
              | Some (r, e') \<Rightarrow>
                  (let s1 = set_worker i (w\<lparr>w_pc := LoopTop, w_frames := w_frames w @ se_frames e'\<rparr>) s
                   in case r of
                        Panic p \<Rightarrow> Some (Silent, stop_worker i s1)
                      | _ \<Rightarrow> Some (Silent, s1))))"

section \<open>All interleavings\<close>

text \<open>
  The environment does what its documentation says: \<open>poll\<close> reports only tokens that were
  registered, and the clock a worker reads while it handles a connection does not stand still
  (\<open>clock_runs\<close>).
\<close>

definition registered :: "io_error + nat list \<Rightarrow> sys \<Rightarrow> bool" where
  "registered r s \<longleftrightarrow>
     (case r of
        Inl e \<Rightarrow> True
      | Inr tokens \<Rightarrow> list_all (\<lambda>t. t < length (rs_listeners (sy_run s))) tokens)"

inductive sys_step :: "platform \<Rightarrow> worker_ctx \<Rightarrow> sys \<Rightarrow> action \<Rightarrow> sys \<Rightarrow> bool"
  for P :: platform and ctx :: worker_ctx where
  poll: "sy_pc s = Polling \<Longrightarrow> registered r s \<Longrightarrow> sys_step P ctx s Silent (poll_step r s)"
| accept: "sy_pc s = Draining toks \<Longrightarrow> accept_step a toks s = (l, s') \<Longrightarrow> sys_step P ctx s l s'"
| signal: "sy_pc s = Signalling i \<Longrightarrow> signal_step i s = (l, s') \<Longrightarrow> sys_step P ctx s l s'"
| ctrl_c: "sys_step P ctx s CtrlC (s\<lparr>sy_server := request_shutdown (sy_server s)\<rparr>)"
| worker: "i < length (sy_workers s) \<Longrightarrow> clock_runs e \<Longrightarrow>
    alive \<or> (\<exists>r. sy_pc s = Returned r) \<Longrightarrow>
    worker_step P ctx alive e i s = Some (l, s') \<Longrightarrow> sys_step P ctx s l s'"

inductive sys_run :: "platform \<Rightarrow> worker_ctx \<Rightarrow> sys \<Rightarrow> action list \<Rightarrow> sys \<Rightarrow> bool"
  for P :: platform and ctx :: worker_ctx and s :: sys where
  start: "sys_run P ctx s [] s"
| step: "sys_run P ctx s tr s' \<Longrightarrow> sys_step P ctx s' l s'' \<Longrightarrow> sys_run P ctx s (tr @ [l]) s''"

text \<open>The state in which \<open>run\<close> is entered.\<close>

definition boot :: "os \<Rightarrow> running \<Rightarrow> sys" where
  "boot os rn =
     \<lparr>sy_server = rn_server rn, sy_run = run_start os (rn_tcp rn) (rn_tls rn),
      sy_workers = rn_workers rn\<rparr>"

end
