(* ===== verification/Rmbt_Pool.thy ===== *)
theory Rmbt_Pool
  imports Rmbt_Server
begin

text \<open>
  Properties of the running server: what every interleaving of the accept loop, the workers and
  Ctrl+C (\<open>sys_run\<close>) guarantees. The functions on traces read off what was sent to a worker,
  what it took, and which worker each accepted connection was given to; the invariant of a worker
  relates them to its channel and to the events it has emitted.
\<close>

section \<open>Traces\<close>

definition sent_to :: "nat \<Rightarrow> action list \<Rightarrow> job list" where
  "sent_to i = List.map_filter (\<lambda>a. case a of Sent k j \<Rightarrow> if k = i then Some j else None | _ \<Rightarrow> None)"

definition took_by :: "nat \<Rightarrow> action list \<Rightarrow> job list" where
  "took_by i = List.map_filter (\<lambda>a. case a of
      Took k c j \<Rightarrow> if k = i then Some j else None
    | TookShutdown k \<Rightarrow> if k = i then Some Shutdown else None
    | _ \<Rightarrow> None)"

definition takes :: "nat \<Rightarrow> action list \<Rightarrow> (usize \<times> job) list" where
  "takes i = List.map_filter (\<lambda>a. case a of Took k c j \<Rightarrow> if k = i then Some (c, j) else None | _ \<Rightarrow> None)"

definition dispatched :: "action list \<Rightarrow> (nat \<times> job) list" where
  "dispatched = List.map_filter (\<lambda>a. case a of
      Sent k (Connection t d b) \<Rightarrow> Some (k, Connection t d b)
    | Dropped k j \<Rightarrow> Some (k, j)
    | _ \<Rightarrow> None)"

lemma map_filter_append: "List.map_filter f (xs @ ys) = List.map_filter f xs @ List.map_filter f ys"
  by (simp add: List.map_filter_def)

lemmas trace_append = sent_to_def took_by_def takes_def dispatched_def map_filter_append

lemma sent_to_snoc [simp]: "sent_to i (tr @ [l]) = sent_to i tr @ sent_to i [l]"
  and took_by_snoc [simp]: "took_by i (tr @ [l]) = took_by i tr @ took_by i [l]"
  and takes_snoc [simp]: "takes i (tr @ [l]) = takes i tr @ takes i [l]"
  and dispatched_snoc [simp]: "dispatched (tr @ [l]) = dispatched tr @ dispatched [l]"
  by (simp_all add: trace_append)

lemma trace_one [simp]:
  "sent_to i [Sent k j] = (if k = i then [j] else [])" "sent_to i [Silent] = []"
  "sent_to i [Dropped k j] = []" "sent_to i [Took k c j] = []" "sent_to i [TookShutdown k] = []"
  "sent_to i [CtrlC] = []"
  "took_by i [Sent k j] = []" "took_by i [Silent] = []" "took_by i [Dropped k j] = []"
  "took_by i [Took k c j] = (if k = i then [j] else [])"
  "took_by i [TookShutdown k] = (if k = i then [Shutdown] else [])" "took_by i [CtrlC] = []"
  "takes i [Sent k j] = []" "takes i [Silent] = []" "takes i [Dropped k j] = []"
  "takes i [Took k c j] = (if k = i then [(c, j)] else [])" "takes i [TookShutdown k] = []"
  "takes i [CtrlC] = []"
  "dispatched [Sent k (Connection t d b)] = [(k, Connection t d b)]" "dispatched [Sent k Shutdown] = []"
  "dispatched [Silent] = []" "dispatched [Dropped k j] = [(k, j)]" "dispatched [Took k c j] = []"
  "dispatched [TookShutdown k] = []" "dispatched [CtrlC] = []"
  "sent_to i [] = []" "took_by i [] = []" "takes i [] = []" "dispatched [] = []"
  by (simp_all add: trace_append List.map_filter_def)

section \<open>What each step leaves alone\<close>

lemma set_simps [simp]:
  "sy_senders (set_channel i c s) = (sy_senders s)[i := c]"
  "shutdown (sy_server (set_channel i c s)) = shutdown (sy_server s)"
  "sy_run (set_channel i c s) = sy_run s" "sy_workers (set_channel i c s) = sy_workers s"
  "sy_server (set_pc pc s) = sy_server s" "sy_workers (set_pc pc s) = sy_workers s"
  "sy_pc (set_pc pc s) = pc" "next_worker (sy_run (set_pc pc s)) = next_worker (sy_run s)"
  "rs_listeners (sy_run (set_pc pc s)) = rs_listeners (sy_run s)"
  "sy_server (set_worker i w s) = sy_server s" "sy_run (set_worker i w s) = sy_run s"
  "sy_workers (set_worker i w s) = (sy_workers s)[i := w]"
  by (simp_all add: set_channel_def set_pc_def set_worker_def)

lemma stop_worker_simps [simp]:
  "sy_senders (stop_worker i s) = (sy_senders s)[i := drop_receiver (sy_senders s ! i)]"
  "sy_workers (stop_worker i s) = (sy_workers s)[i := (sy_workers s ! i)\<lparr>w_pc := Stopped\<rparr>]"
  "sy_run (stop_worker i s) = sy_run s"
  "shutdown (sy_server (stop_worker i s)) = shutdown (sy_server s)"
  by (simp_all add: stop_worker_def)

lemma poll_step_frame [simp]:
  "sy_server (poll_step r s) = sy_server s" "sy_workers (poll_step r s) = sy_workers s"
  "next_worker (sy_run (poll_step r s)) = next_worker (sy_run s)"
  by (auto simp: poll_step_def split: sum.splits)

section \<open>The cases of each step\<close>

lemma dispatch_cases:
  assumes "dispatch j s = (l, s')"
  obtains (panic) p where "sy_senders s = []" "l = Silent" "s' = set_pc (Returned (Panic p)) s"
  | (sent) i c s1 where "sy_senders s \<noteq> []" "i = next_worker (sy_run s) mod length (sy_senders s)"
      "try_send j (sy_senders s ! i) = (True, c)" "l = Sent i j" "s' = set_channel i c s1"
      "s1 = s\<lparr>sy_run := (sy_run s)\<lparr>next_worker := wrapping_succ (next_worker (sy_run s))\<rparr>\<rparr>"
  | (dropped) i where "sy_senders s \<noteq> []" "i = next_worker (sy_run s) mod length (sy_senders s)"
      "fst (try_send j (sy_senders s ! i)) = False" "l = Dropped i j"
      "s' = s\<lparr>sy_run := (sy_run s)\<lparr>next_worker := wrapping_succ (next_worker (sy_run s))\<rparr>\<rparr>"
  using assms by (auto simp: dispatch_def Let_def split: if_splits prod.splits bool.splits)

lemma accept_step_cases:
  assumes "accept_step a toks s = (l, s')"
  obtains (local) "l = Silent" "sy_server s' = sy_server s" "sy_workers s' = sy_workers s"
      "next_worker (sy_run s') = next_worker (sy_run s)"
      "\<And>k. sy_pc s' = Signalling k \<Longrightarrow> sy_pc s = Signalling k"
  | (incoming) tcp addr tls where "dispatch (Connection tcp addr tls) s = (l, s')"
  using assms by (cases "(a, toks, s)" rule: accept_step.cases)
    (auto split: if_splits accept_result.splits option.splits)

lemma signal_step_cases:
  assumes "signal_step i s = (l, s')"
  obtains (local) "l = Silent" "sy_server s' = sy_server s" "sy_workers s' = sy_workers s"
      "next_worker (sy_run s') = next_worker (sy_run s)"
  | (sent) c where "i < length (sy_senders s)" "try_send Shutdown (sy_senders s ! i) = (True, c)"
      "l = Sent i Shutdown" "s' = set_channel i c (set_pc (Signalling (i + 1)) s)"
  using assms by (auto simp: signal_step_def split: if_splits prod.splits bool.splits)

lemma receive_step_cases:
  assumes "receive_step alive i s = (l, s')"
  obtains (timeout) "try_recv (sy_senders s ! i) = None" "alive" "l = Silent"
      "s' = set_worker i ((sy_workers s ! i)\<lparr>w_pc := LoopTop\<rparr>) s"
  | (disconnected) "try_recv (sy_senders s ! i) = None" "\<not> alive" "l = Silent" "s' = stop_worker i s"
  | (shutdown) c where "try_recv (sy_senders s ! i) = Some (Shutdown, c)" "l = TookShutdown i"
      "s' = stop_worker i (set_channel i c s)"
  | (connection) tcp addr tls c where
      "try_recv (sy_senders s ! i) = Some (Connection tcp addr tls, c)"
      "l = Took i (conn_id_of i (conn_seq (sy_workers s ! i) + 1)) (Connection tcp addr tls)"
      "s' = set_worker i ((sy_workers s ! i)\<lparr>w_pc :=
         Handling (conn_id_of i (conn_seq (sy_workers s ! i) + 1)) tcp addr tls,
         conn_seq := conn_seq (sy_workers s ! i) + 1\<rparr>) (set_channel i c s)"
  using assms
  by (auto simp: receive_step_def Let_def split: option.splits job.splits if_splits)


text \<open>
  No connection makes its worker panic, so a step of a worker is one of the following.
\<close>

lemma worker_step_cases:
  assumes "worker_step P ctx alive e i s = Some (l, s')" and "clock_runs e"
    and "length (RANDOM_CHUNK (pf_fill P)) = MAX_CHUNK_SIZE"
  obtains (stopped) "w_pc (sy_workers s ! i) = Stopped" "l = Silent" "s' = s"
  | (leave) "w_pc (sy_workers s ! i) = LoopTop" "shutdown (sy_server s)" "l = Silent"
      "s' = stop_worker i s"
  | (listen) "w_pc (sy_workers s ! i) = LoopTop" "\<not> shutdown (sy_server s)" "l = Silent"
      "s' = set_worker i ((sy_workers s ! i)\<lparr>w_pc := Receiving\<rparr>) s"
  | (receive) "w_pc (sy_workers s ! i) = Receiving" "receive_step alive i s = (l, s')"
  | (handled) c tcp addr tls fs where "w_pc (sy_workers s ! i) = Handling c tcp addr tls" "l = Silent"
      "connection_log ctx c addr tls fs"
      "s' = set_worker i ((sy_workers s ! i)\<lparr>w_pc := LoopTop,
         w_frames := w_frames (sy_workers s ! i) @ fs\<rparr>) s"
proof (cases "w_pc (sy_workers s ! i)")
  case (Handling c tcp addr tls)
  have "clock_runs (e\<lparr>se_frames := []\<rparr>)" using assms(2) by (simp add: clock_runs_def)
  from handle_connection_outcome [OF this assms(3), of ctx c "ts_timeouts tcp" "ts_duplex tcp" addr tls]
  obtain e' fs where
    "handle_connection P ctx c (ts_timeouts tcp) (ts_duplex tcp) addr tls (e\<lparr>se_frames := []\<rparr>) =
       Some (Ok (), e')" "se_frames e' = fs" "connection_log ctx c addr tls fs" by auto
  with assms(1) Handling show ?thesis by (intro handled) (auto simp: worker_step_def Let_def)
next
  case Stopped
  with assms(1) show ?thesis by (intro stopped) (simp_all add: worker_step_def)
next
  case LoopTop
  then show ?thesis
    using assms(1) leave listen by (cases "shutdown (sy_server s)") (simp_all add: worker_step_def)
next
  case Receiving
  with assms(1) show ?thesis by (intro receive) (simp_all add: worker_step_def)
qed

section \<open>The invariant of a worker\<close>

fun job_log :: "worker_ctx \<Rightarrow> usize \<times> job \<Rightarrow> string list \<Rightarrow> bool" where
  "job_log ctx (c, Connection tcp addr tls) fs = connection_log ctx c addr tls fs"
| "job_log ctx (c, Shutdown) fs = False"

text \<open>The connections a worker has finished: those it took, but for the one it is handling.\<close>

fun finished :: "worker_pc \<Rightarrow> (usize \<times> job) list \<Rightarrow> (usize \<times> job) list" where
  "finished (Handling c tcp addr tls) xs = butlast xs"
| "finished pc xs = xs"

definition worker_inv :: "worker_ctx \<Rightarrow> nat \<Rightarrow> action list \<Rightarrow> sys \<Rightarrow> bool" where
  "worker_inv ctx i tr s \<longleftrightarrow>
     ch.carries CHANNEL_CAPACITY (sent_to i tr) (took_by i tr) (sy_senders s ! i) \<and>
     map fst (takes i tr) = map (conn_id_of i) [1..<Suc (conn_seq (sy_workers s ! i))] \<and>
     (\<forall>c tcp addr tls. w_pc (sy_workers s ! i) = Handling c tcp addr tls \<longrightarrow>
        (\<exists>xs. takes i tr = xs @ [(c, Connection tcp addr tls)])) \<and>
     (\<exists>bs. w_frames (sy_workers s ! i) = concat bs \<and>
        list_all2 (job_log ctx) (finished (w_pc (sy_workers s ! i)) (takes i tr)) bs)"

definition pool_inv :: "worker_ctx \<Rightarrow> nat \<Rightarrow> action list \<Rightarrow> sys \<Rightarrow> bool" where
  "pool_inv ctx n tr s \<longleftrightarrow>
     length (sy_senders s) = n \<and> length (sy_workers s) = n \<and> (\<forall>i<n. worker_inv ctx i tr s)"

text \<open>A step that changes neither the channel nor the thread of worker \<open>i\<close>, nor concerns it.\<close>

lemma worker_inv_frame:
  assumes "worker_inv ctx i tr s" and "sy_senders s' ! i = sy_senders s ! i"
    and "sy_workers s' ! i = sy_workers s ! i"
    and "sent_to i [l] = []" "took_by i [l] = []" "takes i [l] = []"
  shows "worker_inv ctx i (tr @ [l]) s'"
  using assms by (simp add: worker_inv_def)

text \<open>A job is put into the channel of worker \<open>i\<close>.\<close>

lemma worker_inv_sent:
  assumes "worker_inv ctx i tr s" and "try_send j (sy_senders s ! i) = (True, sy_senders s' ! i)"
    and "sy_workers s' ! i = sy_workers s ! i"
  shows "worker_inv ctx i (tr @ [Sent i j]) s'"
  using assms ch.carries_send by (auto simp: worker_inv_def)

lemma worker_inv_sent_to:
  assumes "worker_inv ctx i tr s" and "try_send j (sy_senders s ! k) = (True, c)"
    and "k < length (sy_senders s)" "sy_senders s' = (sy_senders s)[k := c]"
    and "sy_workers s' = sy_workers s"
  shows "worker_inv ctx i (tr @ [Sent k j]) s'"
proof (cases "i = k")
  case True
  with assms show ?thesis by (auto intro!: worker_inv_sent)
next
  case False
  with assms show ?thesis by (auto intro!: worker_inv_frame)
qed

text \<open>The thread changes its place without taking or finishing a job.\<close>

definition handling :: "worker_pc \<Rightarrow> bool" where
  "handling pc \<longleftrightarrow> (case pc of Handling c tcp addr tls \<Rightarrow> True | _ \<Rightarrow> False)"

lemma finished_idle: "\<not> handling pc \<Longrightarrow> finished pc xs = xs"
  by (cases pc) (simp_all add: handling_def)

lemma worker_inv_moved:
  assumes "worker_inv ctx i tr s" and "sy_senders s' ! i \<in> {sy_senders s ! i, drop_receiver (sy_senders s ! i)}"
    and "sy_workers s' ! i = (sy_workers s ! i)\<lparr>w_pc := pc\<rparr>"
    and "\<not> handling (w_pc (sy_workers s ! i))" "\<not> handling pc"
  shows "worker_inv ctx i (tr @ [Silent]) s'"
  using assms ch.carries_close
  by (auto simp: worker_inv_def finished_idle) (auto simp: handling_def)

lemma worker_inv_shutdown:
  assumes "worker_inv ctx i tr s" and "try_recv (sy_senders s ! i) = Some (Shutdown, c)"
    and "sy_senders s' ! i = drop_receiver c"
    and "sy_workers s' ! i = (sy_workers s ! i)\<lparr>w_pc := Stopped\<rparr>"
    and "w_pc (sy_workers s ! i) = Receiving"
  shows "worker_inv ctx i (tr @ [TookShutdown i]) s'"
  using assms ch.carries_close [OF ch.carries_recv]
  by (auto simp: worker_inv_def)

lemma worker_inv_took:
  assumes "worker_inv ctx i tr s" and "try_recv (sy_senders s ! i) = Some (Connection tcp addr tls, c)"
    and "sy_senders s' ! i = c" and "cid = conn_id_of i (conn_seq (sy_workers s ! i) + 1)"
    and "sy_workers s' ! i = (sy_workers s ! i)\<lparr>w_pc := Handling cid tcp addr tls,
      conn_seq := conn_seq (sy_workers s ! i) + 1\<rparr>"
    and "w_pc (sy_workers s ! i) = Receiving"
  shows "worker_inv ctx i (tr @ [Took i cid (Connection tcp addr tls)]) s'"
  using assms ch.carries_recv by (auto simp: worker_inv_def)

lemma worker_inv_handled:
  assumes "worker_inv ctx i tr s" and "w_pc (sy_workers s ! i) = Handling c tcp addr tls"
    and "connection_log ctx c addr tls fs" and "sy_senders s' ! i = sy_senders s ! i"
    and "sy_workers s' ! i = (sy_workers s ! i)\<lparr>w_pc := LoopTop,
      w_frames := w_frames (sy_workers s ! i) @ fs\<rparr>"
  shows "worker_inv ctx i (tr @ [Silent]) s'"
proof -
  from assms(1,2) obtain xs bs where t: "takes i tr = xs @ [(c, Connection tcp addr tls)]"
    and b: "w_frames (sy_workers s ! i) = concat bs" "list_all2 (job_log ctx) xs bs"
    by (auto simp: worker_inv_def)
  have "list_all2 (job_log ctx) (takes i tr) (bs @ [fs])"
    using t b(2) assms(3) by (simp add: list_all2_appendI)
  moreover have "w_frames (sy_workers s' ! i) = concat (bs @ [fs])" using assms(5) b(1) by simp
  ultimately have "\<exists>bs. w_frames (sy_workers s' ! i) = concat bs \<and>
      list_all2 (job_log ctx) (takes i tr) bs" by blast
  with assms(1,4,5) show ?thesis by (simp add: worker_inv_def)
qed


lemma receive_step_inv:
  assumes "receive_step alive k s = (l, s')" and "pool_inv ctx n tr s" and "k < n"
    and "w_pc (sy_workers s ! k) = Receiving"
  shows "pool_inv ctx n (tr @ [l]) s'"
proof -
  have len: "length (sy_senders s) = n" "length (sy_workers s) = n"
    and inv: "\<And>i. i < n \<Longrightarrow> worker_inv ctx i tr s" using assms(2) by (auto simp: pool_inv_def)
  from assms(1) have own: "worker_inv ctx k (tr @ [l]) s'"
  proof (cases rule: receive_step_cases)
    case timeout
    show ?thesis unfolding timeout(3)
      by (rule worker_inv_moved [OF inv [OF assms(3)], where pc = LoopTop])
        (use timeout assms(3,4) len in \<open>simp_all add: handling_def\<close>)
  next
    case disconnected
    show ?thesis unfolding disconnected(3)
      by (rule worker_inv_moved [OF inv [OF assms(3)], where pc = Stopped])
        (use disconnected assms(3,4) len in \<open>simp_all add: handling_def\<close>)
  next
    case (shutdown c)
    show ?thesis unfolding shutdown(2)
      by (rule worker_inv_shutdown [OF inv [OF assms(3)] shutdown(1)])
        (use shutdown assms(3,4) len in simp_all)
  next
    case (connection tcp addr tls c)
    show ?thesis unfolding connection(2)
      by (rule worker_inv_took [OF inv [OF assms(3)] connection(1)])
        (use connection assms(3,4) len in simp_all)
  qed
  from assms(1) have other: "worker_inv ctx i (tr @ [l]) s'" if "i < n" "i \<noteq> k" for i
    by (cases rule: receive_step_cases) (rule worker_inv_frame [OF inv [OF that(1)]];
        use that(2) in simp)+
  have "length (sy_senders s') = n" "length (sy_workers s') = n"
    using assms(1) len by (cases rule: receive_step_cases; simp)+
  with own other show ?thesis unfolding pool_inv_def by metis
qed

lemma worker_step_inv:
  assumes "worker_step P ctx alive e k s = Some (l, s')" and "clock_runs e"
    and "length (RANDOM_CHUNK (pf_fill P)) = MAX_CHUNK_SIZE" and "pool_inv ctx n tr s" and "k < n"
  shows "pool_inv ctx n (tr @ [l]) s'"
  using assms(1-3)
proof (cases rule: worker_step_cases)
  case receive
  then show ?thesis using assms(4,5) by (intro receive_step_inv)
next
  case stopped
  then show ?thesis using assms(4) by (auto simp: pool_inv_def intro: worker_inv_frame)
next
  case leave
  have "worker_inv ctx i (tr @ [l]) s'" if "i < n" for i
  proof (cases "i = k")
    case True
    show ?thesis unfolding leave(3) True
      by (rule worker_inv_moved [where pc = Stopped and s = s])
        (use leave assms(4,5) in \<open>simp_all add: handling_def pool_inv_def\<close>)
  qed (use leave assms(4) that in \<open>auto simp: pool_inv_def intro: worker_inv_frame\<close>)
  with leave assms(4) show ?thesis by (simp add: pool_inv_def)
next
  case listen
  have "worker_inv ctx i (tr @ [l]) s'" if "i < n" for i
  proof (cases "i = k")
    case True
    show ?thesis unfolding listen(3) True
      by (rule worker_inv_moved [where pc = Receiving and s = s])
        (use listen assms(4,5) in \<open>simp_all add: handling_def pool_inv_def\<close>)
  qed (use listen assms(4) that in \<open>auto simp: pool_inv_def intro: worker_inv_frame\<close>)
  with listen assms(4) show ?thesis by (simp add: pool_inv_def)
next
  case (handled c tcp addr tls fs)
  have "worker_inv ctx i (tr @ [l]) s'" if "i < n" for i
  proof (cases "i = k")
    case True
    show ?thesis unfolding handled(2) True
      by (rule worker_inv_handled [where s = s and fs = fs])
        (use handled assms(4,5) in \<open>simp_all add: pool_inv_def\<close>)
  qed (use handled assms(4) that in \<open>auto simp: pool_inv_def intro: worker_inv_frame\<close>)
  with handled assms(4) show ?thesis by (simp add: pool_inv_def)
qed

lemma dispatch_inv:
  assumes "dispatch j s = (l, s')" and "pool_inv ctx n tr s"
  shows "pool_inv ctx n (tr @ [l]) s'"
  using assms(1)
proof (cases rule: dispatch_cases)
  case panic
  then show ?thesis using assms(2) by (auto simp: pool_inv_def intro: worker_inv_frame)
next
  case (sent i c s1)
  then have "i < length (sy_senders s)" by simp
  with sent show ?thesis using assms(2) by (auto simp: pool_inv_def intro!: worker_inv_sent_to)
next
  case dropped
  then show ?thesis using assms(2) by (auto simp: pool_inv_def intro: worker_inv_frame)
qed

lemma sys_step_inv:
  assumes "sys_step P ctx s l s'" and "length (RANDOM_CHUNK (pf_fill P)) = MAX_CHUNK_SIZE"
    and "pool_inv ctx n tr s"
  shows "pool_inv ctx n (tr @ [l]) s'"
  using assms(1)
proof (cases rule: sys_step.cases)
  case (poll r)
  then show ?thesis using assms(3) by (auto simp: pool_inv_def intro: worker_inv_frame)
next
  case (accept toks a)
  from accept(2) show ?thesis
  proof (cases rule: accept_step_cases)
    case local
    then show ?thesis using assms(3) by (auto simp: pool_inv_def intro: worker_inv_frame)
  next
    case incoming
    then show ?thesis using assms(3) by (rule dispatch_inv)
  qed
next
  case (signal i)
  from signal(2) show ?thesis
  proof (cases rule: signal_step_cases)
    case local
    then show ?thesis using assms(3) by (auto simp: pool_inv_def intro: worker_inv_frame)
  next
    case (sent c)
    then show ?thesis using assms(3) by (auto simp: pool_inv_def intro!: worker_inv_sent_to)
  qed
next
  case ctrl_c
  then show ?thesis using assms(3) by (auto simp: pool_inv_def intro: worker_inv_frame)
next
  case (worker i e alive)
  have "i < n" using worker(1) assms(3) by (simp add: pool_inv_def)
  with worker assms show ?thesis by (intro worker_step_inv)
qed


text \<open>An invariant of the steps, which may speak of the trace so far, holds in every run.\<close>

lemma sys_run_invariant:
  assumes "sys_run P ctx s tr s'" and "I [] s"
    and "\<And>tr s l s'. sys_step P ctx s l s' \<Longrightarrow> I tr s \<Longrightarrow> I (tr @ [l]) s'"
  shows "I tr s'"
  using assms(1) by (induction rule: sys_run.induct) (use assms(2,3) in auto)

lemma sys_run_inv:
  assumes "sys_run P ctx s tr s'" and "length (RANDOM_CHUNK (pf_fill P)) = MAX_CHUNK_SIZE"
    and "pool_inv ctx n [] s"
  shows "pool_inv ctx n tr s'"
  by (rule sys_run_invariant [where I = "pool_inv ctx n", OF assms(1,3)]) (rule sys_step_inv [OF _ assms(2)])

section \<open>The state after the start\<close>

lemma bind_all_Inr: "bind_all os tls as = Inr ls \<Longrightarrow> ls = map Listener as"
proof (induction as arbitrary: ls)
  case (Cons a as)
  then obtain l ls' where "bind_listener os a = Inr l" "bind_all os tls as = Inr ls'" "ls = l # ls'"
    by (cases "bind_listener os a"; cases "bind_all os tls as") auto
  with Cons.IH show ?case by (auto simp: bind_listener_def split: option.splits)
qed simp

lemma server_new_Started:
  assumes "server_new os E conn cfg tcp tls sink = Started rn"
  obtains keys where "load_keys os cfg = Inr keys"
    "rn_server rn = \<lparr>shutdown = False, senders = replicate (num_workers cfg) (sync_channel CHANNEL_CAPACITY)\<rparr>"
    "rn_workers rn = replicate (num_workers cfg) worker_start"
    "rn_ctx rn = \<lparr>ctx_config = cfg, ctx_keys = keys, ctx_tls = load_tls E conn cfg, ctx_sink = sink\<rparr>"
    "rn_tcp rn = map Listener tcp"
    "rn_tls rn = (if load_tls E conn cfg = None then [] else map Listener tls)"
proof -
  from assms obtain keys tcpl tlsl sv ws where
    k: "load_keys os cfg = Inr keys" and "bind_all os False tcp = Inr tcpl"
    and "(if load_tls E conn cfg \<noteq> None then bind_all os True tls else Inr []) = Inr tlsl"
    and "spawn_workers os (num_workers cfg) = Started (sv, ws)"
    and rn: "rn = \<lparr>rn_server = sv, rn_workers = ws,
      rn_ctx = \<lparr>ctx_config = cfg, ctx_keys = keys, ctx_tls = load_tls E conn cfg, ctx_sink = sink\<rparr>,
      rn_tcp = tcpl, rn_tls = tlsl\<rparr>"
    by (auto simp: server_new_def Let_def split: sum.splits start.splits prod.splits)
  then have "tcpl = map Listener tcp"
    "tlsl = (if load_tls E conn cfg = None then [] else map Listener tls)"
    "sv = \<lparr>shutdown = False, senders = replicate (num_workers cfg) (sync_channel CHANNEL_CAPACITY)\<rparr>"
    "ws = replicate (num_workers cfg) worker_start"
    by (auto simp: spawn_workers_def dest: bind_all_Inr split: if_splits option.splits)
  with k rn show ?thesis by (intro that) simp_all
qed

lemma boot_inv:
  assumes "server_new os E conn cfg tcp tls sink = Started rn"
  shows "pool_inv ctx (num_workers cfg) [] (boot os rn)"
  using assms
  by (cases rule: server_new_Started)
    (simp add: pool_inv_def boot_def worker_inv_def worker_start_def sync_channel_def ch.carries_def)

lemmas run_inv = sys_run_inv [OF _ _ boot_inv]


section \<open>Round robin\<close>

definition robin_inv :: "nat \<Rightarrow> action list \<Rightarrow> sys \<Rightarrow> bool" where
  "robin_inv n tr s \<longleftrightarrow>
     length (sy_senders s) = n \<and>
     map fst (dispatched tr) = map (\<lambda>k. k mod 2 ^ 64 mod n) [0..<length (dispatched tr)] \<and>
     next_worker (sy_run s) = length (dispatched tr) mod 2 ^ 64"

lemma robin_inv_frame:
  assumes "robin_inv n tr s" and "length (sy_senders s') = length (sy_senders s)"
    and "next_worker (sy_run s') = next_worker (sy_run s)" and "dispatched [l] = []"
  shows "robin_inv n (tr @ [l]) s'"
  using assms by (simp add: robin_inv_def)

lemma dispatched_Sent: "j \<noteq> Shutdown \<Longrightarrow> dispatched [Sent k j] = [(k, j)]"
  by (cases j) simp_all

lemma robin_inv_dispatch:
  assumes "dispatch (Connection tcp addr tls) s = (l, s')" and "robin_inv n tr s"
  shows "robin_inv n (tr @ [l]) s'"
proof -
  have w: "wrapping_succ (k mod 2 ^ 64) = Suc k mod 2 ^ 64" for k
    by (simp add: wrapping_succ_def mod_Suc_eq)
  show ?thesis using assms(1)
  proof (cases rule: dispatch_cases)
    case panic
    then show ?thesis using assms(2) by (simp add: robin_inv_frame)
  next
    case (sent i c s1)
    with assms(2) w show ?thesis by (simp add: robin_inv_def)
  next
    case (dropped i)
    with assms(2) w show ?thesis by (simp add: robin_inv_def)
  qed
qed

lemma worker_step_run_frame:
  assumes "worker_step P ctx alive e i s = Some (l, s')" and "clock_runs e"
    and "length (RANDOM_CHUNK (pf_fill P)) = MAX_CHUNK_SIZE"
  shows "sy_run s' = sy_run s \<and> length (sy_senders s') = length (sy_senders s) \<and>
    length (sy_workers s') = length (sy_workers s) \<and>
    shutdown (sy_server s') = shutdown (sy_server s) \<and> dispatched [l] = [] \<and> (\<forall>k. sent_to k [l] = [])"
  using assms
proof (cases rule: worker_step_cases)
  case receive
  from receive(2) show ?thesis by (cases rule: receive_step_cases) simp_all
qed simp_all

lemma robin_inv_step:
  assumes "sys_step P ctx s l s'" and "length (RANDOM_CHUNK (pf_fill P)) = MAX_CHUNK_SIZE"
    and "robin_inv n tr s"
  shows "robin_inv n (tr @ [l]) s'"
  using assms(1)
proof (cases rule: sys_step.cases)
  case (poll r)
  then show ?thesis using assms(3) by (simp add: robin_inv_frame)
next
  case (accept toks a)
  from accept(2) show ?thesis
  proof (cases rule: accept_step_cases)
    case local
    then show ?thesis using assms(3) by (simp add: robin_inv_frame)
  next
    case incoming
    then show ?thesis using assms(3) by (rule robin_inv_dispatch)
  qed
next
  case (signal i)
  from signal(2) show ?thesis
    by (cases rule: signal_step_cases) (use assms(3) in \<open>simp_all add: robin_inv_frame\<close>)
next
  case ctrl_c
  then show ?thesis using assms(3) by (simp add: robin_inv_frame)
next
  case (worker i e alive)
  with worker_step_run_frame [OF worker(4,2) assms(2)] assms(3) show ?thesis
    by (simp add: robin_inv_frame)
qed

lemma sys_run_robin:
  assumes "sys_run P ctx s tr s'" and "length (RANDOM_CHUNK (pf_fill P)) = MAX_CHUNK_SIZE"
    and "robin_inv n [] s"
  shows "robin_inv n tr s'"
  by (rule sys_run_invariant [where I = "robin_inv n", OF assms(1,3)]) (rule robin_inv_step [OF _ assms(2)])

lemma boot_robin:
  assumes "server_new os E conn cfg tcp tls sink = Started rn"
  shows "robin_inv (num_workers cfg) [] (boot os rn)"
  using assms
  by (cases rule: server_new_Started)
    (simp add: robin_inv_def boot_def run_start_def split: res.split)

section \<open>Full strength until the shutdown\<close>

text \<open>The server is going down, or the accept loop has ended.\<close>

definition ending :: "sys \<Rightarrow> bool" where
  "ending s \<longleftrightarrow> shutdown (sy_server s) \<or> (\<exists>r. sy_pc s = Returned r)"

definition serving :: "nat \<Rightarrow> sys \<Rightarrow> bool" where
  "serving i s \<longleftrightarrow>
     w_pc (sy_workers s ! i) \<noteq> Stopped \<and> ch_open (sy_senders s ! i) \<and>
     Shutdown \<notin> set (ch_buf (sy_senders s ! i))"

definition strength_inv :: "sys \<Rightarrow> bool" where
  "strength_inv s \<longleftrightarrow>
     length (sy_senders s) = length (sy_workers s) \<and>
     (ending s \<or> (\<forall>k. sy_pc s \<noteq> Signalling k) \<and> (\<forall>i<length (sy_workers s). serving i s))"

lemma sys_step_lengths:
  assumes "sys_step P ctx s l s'" and "length (RANDOM_CHUNK (pf_fill P)) = MAX_CHUNK_SIZE"
  shows "length (sy_senders s') = length (sy_senders s)" "length (sy_workers s') = length (sy_workers s)"
    "ending s \<Longrightarrow> ending s'" "shutdown (sy_server s) \<Longrightarrow> shutdown (sy_server s')"
proof -
  from assms(1) have "length (sy_senders s') = length (sy_senders s) \<and>
      length (sy_workers s') = length (sy_workers s) \<and> (ending s \<longrightarrow> ending s') \<and>
      (shutdown (sy_server s) \<longrightarrow> shutdown (sy_server s'))"
  proof (cases rule: sys_step.cases)
    case (accept toks a)
    from accept(2) show ?thesis
    proof (cases rule: accept_step_cases)
      case local
      then show ?thesis using accept(1) by (simp add: ending_def)
    next
      case incoming
      then show ?thesis using accept(1) by (cases rule: dispatch_cases) (simp_all add: ending_def)
    qed
  next
    case (signal i)
    from signal(2) show ?thesis
      by (cases rule: signal_step_cases) (use signal(1) in \<open>simp_all add: ending_def\<close>)
  next
    case (worker i e alive)
    with worker_step_run_frame [OF worker(4,2) assms(2)] show ?thesis by (simp add: ending_def)
  qed (auto simp: ending_def)
  then show "length (sy_senders s') = length (sy_senders s)" "length (sy_workers s') = length (sy_workers s)"
    "ending s \<Longrightarrow> ending s'" "shutdown (sy_server s) \<Longrightarrow> shutdown (sy_server s')" by auto
qed


lemma try_send_serving:
  assumes "try_send j c = (True, c')" and "j \<noteq> Shutdown"
  shows "ch_open c' = ch_open c \<and> (Shutdown \<in> set (ch_buf c') \<longleftrightarrow> Shutdown \<in> set (ch_buf c))"
  using assms by (auto simp: try_send_def split: if_splits)

lemma try_recv_open:
  "try_recv c = Some (j, c') \<Longrightarrow> ch_open c' = ch_open c \<and> set (ch_buf c) = insert j (set (ch_buf c'))"
  by (auto simp: try_recv_def split: list.splits)

lemma serving_frame:
  "serving i s \<Longrightarrow> sy_senders s' ! i = sy_senders s ! i \<Longrightarrow> sy_workers s' ! i = sy_workers s ! i \<Longrightarrow>
     serving i s'"
  by (simp add: serving_def)

lemma serving_worker_step:
  assumes "worker_step P ctx True e k s = Some (l, s')" and "clock_runs e"
    and "length (RANDOM_CHUNK (pf_fill P)) = MAX_CHUNK_SIZE" and "\<not> shutdown (sy_server s)"
    and "serving k s" and "serving i s" and "k < length (sy_workers s)"
    and "length (sy_senders s) = length (sy_workers s)"
  shows "serving i s'"
  using assms(1-3)
proof (cases rule: worker_step_cases)
  case stopped
  then show ?thesis using assms(6) by simp
next
  case leave
  then show ?thesis using assms(4) by simp
next
  case listen
  then show ?thesis using assms(6,7) by (cases "i = k") (simp_all add: serving_def)
next
  case (handled c tcp addr tls fs)
  then show ?thesis using assms(6,7) by (cases "i = k") (simp_all add: serving_def)
next
  case receive
  from receive(2) show ?thesis
  proof (cases rule: receive_step_cases)
    case timeout
    then show ?thesis using assms(6,7) by (cases "i = k") (simp_all add: serving_def)
  next
    case (shutdown c)
    then show ?thesis using assms(5) by (auto simp: serving_def dest: try_recv_open)
  next
    case (connection tcp addr tls c)
    then show ?thesis using assms(6,7,8) try_recv_open [OF connection(1)]
      by (cases "i = k") (simp_all add: serving_def)
  qed simp
qed

lemma serving_dispatch:
  assumes "dispatch (Connection tcp addr tls) s = (l, s')" and "serving i s"
  shows "serving i s'"
  using assms(1)
proof (cases rule: dispatch_cases)
  case (sent k c s1)
  then show ?thesis
    using assms(2) try_send_serving [OF sent(3)] by (cases "i = k") (simp_all add: serving_def)
qed (use assms(2) in \<open>simp_all add: serving_def\<close>)

lemma strength_inv_step:
  assumes "sys_step P ctx s l s'" and "length (RANDOM_CHUNK (pf_fill P)) = MAX_CHUNK_SIZE"
    and "strength_inv s"
  shows "strength_inv s'"
proof (cases "ending s'")
  case True
  then show ?thesis using sys_step_lengths [OF assms(1,2)] assms(3) by (simp add: strength_inv_def)
next
  case False
  then have ne: "\<not> ending s" using sys_step_lengths(3) [OF assms(1,2)] by blast
  with assms(3) have sv: "\<And>i. i < length (sy_workers s) \<Longrightarrow> serving i s"
    and sg: "\<And>k. sy_pc s \<noteq> Signalling k" and len: "length (sy_senders s) = length (sy_workers s)"
    by (auto simp: strength_inv_def)
  from assms(1) have "(\<forall>k. sy_pc s' \<noteq> Signalling k) \<and> (\<forall>i<length (sy_workers s). serving i s')"
  proof (cases rule: sys_step.cases)
    case (poll r)
    then show ?thesis using sv sg ne
      by (auto simp: poll_step_def ending_def serving_def split: sum.splits)
  next
    case (accept toks a)
    from accept(2) show ?thesis
    proof (cases rule: accept_step_cases)
      case local
      then show ?thesis using sv sg by (auto simp: serving_def)
    next
      case incoming
      have "sy_pc s' \<noteq> Signalling k" for k
        using incoming sg by (cases rule: dispatch_cases) simp_all
      with incoming show ?thesis using sv by (auto intro: serving_dispatch)
    qed
  next
    case (worker i e alive)
    then have "alive" using ne by (auto simp: ending_def)
    with worker have "worker_step P ctx True e i s = Some (l, s')" by simp
    then show ?thesis
      using serving_worker_step [OF _ worker(2) assms(2) _ _ _ worker(1) len] sv worker(1) ne sg
        worker_step_run_frame [OF worker(4,2) assms(2)] by (auto simp: ending_def)
  qed (use sg False in \<open>auto simp: ending_def\<close>)
  with sys_step_lengths [OF assms(1,2)] len show ?thesis by (simp add: strength_inv_def)
qed

lemma sys_run_strength:
  assumes "sys_run P ctx s tr s'" and "length (RANDOM_CHUNK (pf_fill P)) = MAX_CHUNK_SIZE"
    and "strength_inv s"
  shows "strength_inv s'"
  by (rule sys_run_invariant [where I = "\<lambda>_. strength_inv", OF assms(1,3)]) (rule strength_inv_step [OF _ assms(2)])

lemma boot_strength:
  assumes "server_new os E conn cfg tcp tls sink = Started rn"
  shows "strength_inv (boot os rn)"
  using assms
  by (cases rule: server_new_Started)
    (simp add: strength_inv_def serving_def boot_def run_start_def worker_start_def sync_channel_def
      split: res.split)

section \<open>Shutdown\<close>

definition is_receiving :: "nat \<Rightarrow> sys \<Rightarrow> nat" where
  "is_receiving i s = (if w_pc (sy_workers s ! i) = Receiving then 1 else 0)"

lemma shutdown_step:
  assumes "sys_step P ctx s l s'" and "length (RANDOM_CHUNK (pf_fill P)) = MAX_CHUNK_SIZE"
    and "shutdown (sy_server s)" and "i < length (sy_workers s)"
  shows "length (took_by i [l]) + is_receiving i s' \<le> is_receiving i s"
  using assms(1)
proof (cases rule: sys_step.cases)
  case (accept toks a)
  from accept(2) show ?thesis
  proof (cases rule: accept_step_cases)
    case incoming
    then show ?thesis by (cases rule: dispatch_cases) (simp_all add: is_receiving_def)
  qed (simp add: is_receiving_def)
next
  case (signal k)
  from signal(2) show ?thesis by (cases rule: signal_step_cases) (simp_all add: is_receiving_def)
next
  case (worker k e alive)
  from worker(4,2) assms(2) show ?thesis
  proof (cases rule: worker_step_cases)
    case receive
    from receive(2) show ?thesis
      by (cases rule: receive_step_cases; cases "i = k")
        (use receive(1) worker(1) in \<open>simp_all add: is_receiving_def\<close>)
  qed (use assms(3) worker(1) in \<open>cases "i = k"; simp add: is_receiving_def\<close>)+
qed (simp_all add: is_receiving_def)

lemma shutdown_run:
  assumes "sys_run P ctx s tr s'" and "length (RANDOM_CHUNK (pf_fill P)) = MAX_CHUNK_SIZE"
    and "shutdown (sy_server s)" and "i < length (sy_workers s)"
  shows "shutdown (sy_server s') \<and> length (sy_workers s') = length (sy_workers s) \<and>
    length (took_by i tr) + is_receiving i s' \<le> is_receiving i s"
  using assms(1)
proof (induction rule: sys_run.induct)
  case (step tr s' l s'')
  then show ?case
    using sys_step_lengths [OF step.hyps(2) assms(2)] shutdown_step [OF step.hyps(2) assms(2), of i] assms(4)
    by simp
qed (use assms(3) in simp)


text \<open>How far a worker is from its end, in steps of its own, once the flag is set.\<close>

fun stop_distance :: "worker_pc \<Rightarrow> nat" where
  "stop_distance Stopped = 0"
| "stop_distance LoopTop = 1"
| "stop_distance (Handling c tcp addr tls) = 2"
| "stop_distance Receiving = 3"

lemma stop_distance_step:
  assumes "worker_step P ctx alive e i s = Some (l, s')" and "clock_runs e"
    and "length (RANDOM_CHUNK (pf_fill P)) = MAX_CHUNK_SIZE" and "shutdown (sy_server s)"
    and "i < length (sy_workers s)"
  shows "stop_distance (w_pc (sy_workers s' ! i)) \<le> stop_distance (w_pc (sy_workers s ! i)) - 1"
  using assms(1-3)
proof (cases rule: worker_step_cases)
  case receive
  from receive(2) show ?thesis
    by (cases rule: receive_step_cases) (use receive(1) assms(5) in simp_all)
qed (use assms(4,5) in simp_all)

lemma worker_step_returns:
  assumes "clock_runs e" and "length (RANDOM_CHUNK (pf_fill P)) = MAX_CHUNK_SIZE"
  shows "\<exists>l s'. worker_step P ctx alive e i s = Some (l, s')"
proof (cases "w_pc (sy_workers s ! i)")
  case (Handling c tcp addr tls)
  have "clock_runs (e\<lparr>se_frames := []\<rparr>)" using assms(1) by (simp add: clock_runs_def)
  from handle_connection_outcome [OF this assms(2), of ctx c "ts_timeouts tcp" "ts_duplex tcp" addr tls]
  show ?thesis using Handling by (auto simp: worker_step_def Let_def)
qed (auto simp: worker_step_def Let_def split: prod.split)

lemma sys_run_Cons:
  assumes "sys_step P ctx s l s1" and "sys_run P ctx s1 tr s'"
  shows "sys_run P ctx s (l # tr) s'"
  using assms(2)
proof (induction rule: sys_run.induct)
  case start
  show ?case using sys_run.step [OF sys_run.start assms(1)] by simp
next
  case (step tr s' l' s'')
  then show ?case using sys_run.step [of P ctx s "l # tr" s' l' s''] by simp
qed

text \<open>Once it sends the \<open>Shutdown\<close> jobs, the accept loop returns after one step for each worker.\<close>

lemma signal_step_pc:
  "sy_pc (snd (signal_step i s)) =
     (if i < length (sy_senders s) then Signalling (i + 1) else Returned (Ok ()))"
  "length (sy_senders (snd (signal_step i s))) = length (sy_senders s)"
  by (simp_all add: signal_step_def split: prod.split bool.split)

lemma signalling_returns:
  assumes "sy_pc s = Signalling i" and "i + k = length (sy_senders s)"
  shows "\<exists>tr s'. sys_run P ctx s tr s' \<and> length tr = k + 1 \<and> sy_pc s' = Returned (Ok ())"
  using assms
proof (induction k arbitrary: i s)
  case 0
  obtain l s' where g: "signal_step i s = (l, s')" by fastforce
  have "sys_run P ctx s ([] @ [l]) s'"
    by (rule sys_run.step [OF sys_run.start]) (rule sys_step.signal [OF 0(1) g])
  moreover have "sy_pc s' = Returned (Ok ())" using signal_step_pc(1) [of i s] g 0 by simp
  ultimately show ?case by (intro exI [of _ "[l]"] exI [of _ s']) simp
next
  case (Suc k)
  obtain l s1 where g: "signal_step i s = (l, s1)" by fastforce
  have "sy_pc s1 = Signalling (i + 1)" "i + 1 + k = length (sy_senders s1)"
    using signal_step_pc [of i s] g Suc.prems by simp_all
  from Suc.IH [OF this] obtain tr s' where r: "sys_run P ctx s1 tr s'" "length tr = k + 1"
    "sy_pc s' = Returned (Ok ())" by blast
  have "sys_run P ctx s (l # tr) s'"
    by (rule sys_run_Cons [OF sys_step.signal [OF Suc.prems(1) g] r(1)])
  with r show ?case by (intro exI [of _ "l # tr"] exI [of _ s']) simp
qed

text \<open>
  \<open>offered P ctx s tr i\<close>: in the run \<open>tr\<close> from \<open>s\<close> worker \<open>i\<close> was sent one \<open>Shutdown\<close> and nothing else,
  or nothing, since its channel had no room or no receiver when \<open>run\<close> tried.
\<close>

definition offered :: "platform \<Rightarrow> worker_ctx \<Rightarrow> sys \<Rightarrow> action list \<Rightarrow> nat \<Rightarrow> bool" where
  "offered P ctx s tr i \<longleftrightarrow>
     sent_to i tr = [Shutdown] \<or>
     sent_to i tr = [] \<and>
     (\<exists>tr1 s1. prefix tr1 tr \<and> sys_run P ctx s tr1 s1 \<and> sy_pc s1 = Signalling i \<and>
        \<not> fst (try_send Shutdown (sy_senders s1 ! i)))"

definition signalled :: "platform \<Rightarrow> worker_ctx \<Rightarrow> sys \<Rightarrow> action list \<Rightarrow> sys \<Rightarrow> bool" where
  "signalled P ctx s tr s' \<longleftrightarrow>
     (\<exists>j \<le> length (sy_senders s).
        (sy_pc s' = Signalling j \<or> j = length (sy_senders s) \<and> sy_pc s' = Returned (Ok ())) \<and>
        list_all (offered P ctx s tr) [0..<j] \<and> (\<forall>i \<ge> j. sent_to i tr = []))"

lemma offered_snoc:
  assumes "offered P ctx s tr i" and "sent_to i [l] = []"
  shows "offered P ctx s (tr @ [l]) i"
  using assms by (auto simp: offered_def sent_to_snoc intro: prefix_prefix)

lemma signal_step_signalled:
  assumes "sys_run P ctx s tr s1" and "signalled P ctx s tr s1" and "sy_pc s1 = Signalling j"
    and "length (sy_senders s1) = length (sy_senders s)" and "signal_step j s1 = (l, s2)"
  shows "signalled P ctx s (tr @ [l]) s2"
proof -
  from assms(2,3) have j: "j \<le> length (sy_senders s)" "list_all (offered P ctx s tr) [0..<j]"
    "\<And>i. i \<ge> j \<Longrightarrow> sent_to i tr = []" by (auto simp: signalled_def)
  show ?thesis
  proof (cases "j < length (sy_senders s)")
    case False
    with j(1) assms(4,5) have "l = Silent" "sy_pc s2 = Returned (Ok ())" "j = length (sy_senders s)"
      by (auto simp: signal_step_def)
    moreover from this have "sent_to i [l] = []" for i by (simp add: sent_to_def List.map_filter_def)
    ultimately show ?thesis using j
      unfolding signalled_def list_all_iff
      by (intro exI [of _ j]) (auto simp: sent_to_snoc intro: offered_snoc)
  next
    case True
    have pc: "sy_pc s2 = Signalling (Suc j)" using signal_step_pc(1) [of j s1] assms(4,5) True by simp
    have other: "sent_to i [l] = []" if "i \<noteq> j" for i
      using assms(5) by (cases rule: signal_step_cases) (use that in \<open>simp_all add: sent_to_def List.map_filter_def\<close>)
    have "offered P ctx s (tr @ [l]) j"
    proof (cases "fst (try_send Shutdown (sy_senders s1 ! j))")
      case t: True
      with assms(4,5) True have "l = Sent j Shutdown"
        by (auto simp: signal_step_def split: prod.splits bool.splits)
      then show ?thesis using j(3) [of j] by (simp add: offered_def)
    next
      case f: False
      with assms(4,5) True have "l = Silent"
        by (auto simp: signal_step_def split: prod.splits bool.splits)
      then have "sent_to j (tr @ [l]) = []" using j(3) [of j] by simp
      moreover have "prefix tr (tr @ [l])" by simp
      ultimately show ?thesis using f assms(1,3) unfolding offered_def by blast
    qed
    then show ?thesis
      using True pc j other unfolding signalled_def list_all_iff
      by (intro exI [of _ "Suc j"]) (auto simp: sent_to_snoc less_Suc_eq intro: offered_snoc)
  qed
qed

lemma signalling_run:
  assumes "sys_run P ctx s tr s'" and "length (RANDOM_CHUNK (pf_fill P)) = MAX_CHUNK_SIZE"
    and "sy_pc s = Signalling 0"
  shows "signalled P ctx s tr s' \<and> length (sy_senders s') = length (sy_senders s)"
  using assms(1)
proof (induction rule: sys_run.induct)
  case start
  then show ?case using assms(3) by (simp add: signalled_def sent_to_def List.map_filter_def)
next
  case (step tr s1 l s2)
  have quiet: "signalled P ctx s (tr @ [l]) s2" if "\<And>i. sent_to i [l] = []" "sy_pc s2 = sy_pc s1"
    using step.IH that unfolding signalled_def list_all_iff by (auto simp: sent_to_snoc intro: offered_snoc)
  have "length (sy_senders s2) = length (sy_senders s1)"
    using sys_step_lengths [OF step.hyps(2) assms(2)] by simp
  moreover from step.hyps(2) have "signalled P ctx s (tr @ [l]) s2"
  proof (cases rule: sys_step.cases)
    case (signal j)
    then show ?thesis using signal_step_signalled [OF step.hyps(1)] step.IH by blast
  next
    case (worker i e alive)
    with worker_step_run_frame [OF worker(4,2) assms(2)] show ?thesis by (intro quiet) auto
  next
    case ctrl_c
    then show ?thesis by (intro quiet) (simp_all add: sent_to_def List.map_filter_def)
  qed (use step.IH in \<open>auto simp: signalled_def\<close>)
  ultimately show ?case using step.IH by simp
qed

section \<open>The accept loop\<close>

definition loop_inv :: "nat \<Rightarrow> (listener \<times> bool) list \<Rightarrow> action list \<Rightarrow> sys \<Rightarrow> bool" where
  "loop_inv n ls tr s \<longleftrightarrow>
     rs_listeners (sy_run s) = ls \<and> length (sy_senders s) = n \<and>
     (\<forall>toks. sy_pc s = Draining toks \<longrightarrow> list_all (\<lambda>t. t < length ls) toks) \<and>
     (\<forall>p. sy_pc s = Returned (Panic p) \<longrightarrow> n = 0) \<and>
     (\<forall>k tcp addr. (k, Connection tcp addr True) \<in> set (dispatched tr) \<longrightarrow> True \<in> snd ` set ls)"

lemma loop_inv_pc:
  assumes "loop_inv n ls tr s" and "length (sy_senders s') = length (sy_senders s)"
    and "rs_listeners (sy_run s') = rs_listeners (sy_run s)" and "dispatched [l] = []"
    and "\<And>toks. sy_pc s' = Draining toks \<Longrightarrow> list_all (\<lambda>t. t < length ls) toks"
    and "\<And>p. sy_pc s' = Returned (Panic p) \<Longrightarrow> n = 0"
  shows "loop_inv n ls (tr @ [l]) s'"
  using assms by (auto simp: loop_inv_def)

lemma loop_inv_dispatch:
  assumes "dispatch (Connection tcp addr tls) s = (l, s')" and "loop_inv n ls tr s"
    and "tls \<Longrightarrow> True \<in> snd ` set ls"
  shows "loop_inv n ls (tr @ [l]) s'"
  using assms(1)
proof (cases rule: dispatch_cases)
  case panic
  then show ?thesis using assms(2) by (intro loop_inv_pc) (auto simp: loop_inv_def)
next
  case (sent i c s1)
  then show ?thesis using assms(2,3) by (auto simp: loop_inv_def)
next
  case (dropped i)
  then show ?thesis using assms(2,3) by (auto simp: loop_inv_def)
qed

lemma loop_inv_accept:
  assumes "accept_step a toks s = (l, s')" and "loop_inv n ls tr s" and "sy_pc s = Draining toks"
  shows "loop_inv n ls (tr @ [l]) s'"
proof (cases toks)
  case Nil
  with assms show ?thesis by (intro loop_inv_pc [where s = s]) auto
next
  case (Cons t ts)
  have t: "t < length ls" "list_all (\<lambda>t. t < length ls) ts" and ls: "rs_listeners (sy_run s) = ls"
    using assms(2,3) Cons by (auto simp: loop_inv_def)
  show ?thesis
  proof (cases a)
    case (Incoming tcp addr r)
    show ?thesis
    proof (cases r)
      case None
      with Incoming Cons t ls assms(1) have "dispatch (Connection tcp addr (snd (ls ! t))) s = (l, s')"
        by simp
      moreover have "snd (ls ! t) \<Longrightarrow> True \<in> snd ` set ls" using t(1) by (force simp: in_set_conv_nth)
      ultimately show ?thesis using assms(2) by (intro loop_inv_dispatch)
    next
      case (Some e)
      with Incoming Cons t ls assms show ?thesis by (intro loop_inv_pc) auto
    qed
  next
    case (AcceptError e)
    with Cons t ls assms show ?thesis by (intro loop_inv_pc [where s = s]) auto
  qed
qed

lemma loop_inv_step:
  assumes "sys_step P ctx s l s'" and "length (RANDOM_CHUNK (pf_fill P)) = MAX_CHUNK_SIZE"
    and "loop_inv n ls tr s"
  shows "loop_inv n ls (tr @ [l]) s'"
  using assms(1)
proof (cases rule: sys_step.cases)
  case (poll r)
  have g: "rs_listeners (sy_run s) = ls" using assms(3) by (simp add: loop_inv_def)
  show ?thesis unfolding poll(1)
    by (rule loop_inv_pc [OF assms(3)])
      (use poll g in \<open>auto simp: poll_step_def registered_def split: sum.splits if_splits\<close>)
next
  case (accept toks a)
  with assms(3) show ?thesis by (intro loop_inv_accept)
next
  case (signal i)
  show ?thesis
    by (rule loop_inv_pc [OF assms(3)])
      (use signal in \<open>auto simp: signal_step_def split: if_splits prod.splits bool.splits\<close>)
next
  case ctrl_c
  show ?thesis
    by (rule loop_inv_pc [OF assms(3)]) (use ctrl_c assms(3) in \<open>auto simp: loop_inv_def\<close>)
next
  case (worker i e alive)
  then show ?thesis using worker_step_run_frame [OF worker(4,2) assms(2)] assms(3)
    by (intro loop_inv_pc) (auto simp: loop_inv_def)
qed

lemma sys_run_loop:
  assumes "sys_run P ctx s tr s'" and "length (RANDOM_CHUNK (pf_fill P)) = MAX_CHUNK_SIZE"
    and "loop_inv n ls [] s"
  shows "loop_inv n ls tr s'"
  by (rule sys_run_invariant [where I = "loop_inv n ls", OF assms(1,3)]) (rule loop_inv_step [OF _ assms(2)])

lemma run_setup_Ok: "run_setup os tcp tls = Ok ls \<Longrightarrow> ls = tag_listeners tcp tls \<and> ls \<noteq> []"
  by (auto simp: run_setup_def Let_def split: if_splits option.splits)

lemma run_setup_no_panic: "run_setup os tcp tls \<noteq> Panic p"
  by (auto simp: run_setup_def Let_def split: option.splits)

lemma boot_loop:
  assumes "server_new os E conn cfg tcp tls sink = Started rn"
  obtains ls where "loop_inv (num_workers cfg) ls [] (boot os rn)"
    and "True \<in> snd ` set ls \<longrightarrow> ctx_tls (rn_ctx rn) \<noteq> None"
proof -
  define ls where "ls = rs_listeners (sy_run (boot os rn))"
  have "loop_inv (num_workers cfg) ls [] (boot os rn)"
    using assms run_setup_no_panic
    by (cases rule: server_new_Started)
      (auto simp: loop_inv_def ls_def boot_def run_start_def split: res.splits)
  moreover have "ctx_tls (rn_ctx rn) \<noteq> None" if "True \<in> snd ` set ls"
    using assms that
    by (cases rule: server_new_Started)
      (auto simp: ls_def boot_def run_start_def tag_listeners_def dest!: run_setup_Ok split: res.splits
        if_splits)
  ultimately show ?thesis using that by blast
qed

lemma sent_dispatched: "j \<in> set (sent_to i tr) \<Longrightarrow> j \<noteq> Shutdown \<Longrightarrow> (i, j) \<in> set (dispatched tr)"
proof (induction tr rule: rev_induct)
  case (snoc l tr)
  then show ?case by (cases l; cases j) (auto split: if_splits)
qed simp

section \<open>Connection numbers\<close>

lemma conn_id_of_inject:
  assumes "1 \<le> k" "k \<le> 100000" "1 \<le> m" "m \<le> 100000"
  shows "conn_id_of i k = conn_id_of j m \<longleftrightarrow> i = j \<and> k = m"
proof -
  have "conn_id_of i k = conn_id_of j m \<Longrightarrow> i = j"
    using assms by (simp add: conn_id_of_def)
  then show ?thesis by (auto simp: conn_id_of_def)
qed

definition all_ids :: "nat \<Rightarrow> action list \<Rightarrow> usize list" where
  "all_ids n tr = concat (map (\<lambda>i. map fst (takes i tr)) [0..<n])"

lemma ids_distinct:
  assumes "pool_inv ctx n tr s" and "\<And>i. i < n \<Longrightarrow> length (takes i tr) \<le> 100000"
  shows "distinct (all_ids n tr)"
proof -
  have "distinct (concat (map (\<lambda>i. map fst (takes i tr)) [0..<m]))" if "m \<le> n" for m
    using that
  proof (induction m)
    case (Suc m)
    have ids: "map fst (takes i tr) = map (conn_id_of i) [1..<Suc (length (takes i tr))]" if "i < n" for i
    proof -
      have e: "map fst (takes i tr) = map (conn_id_of i) [1..<Suc (conn_seq (sy_workers s ! i))]"
        using assms(1) that by (simp add: pool_inv_def worker_inv_def)
      then have "length (takes i tr) = conn_seq (sy_workers s ! i)"
        by (metis diff_Suc_1 length_map length_upt)
      with e show ?thesis by simp
    qed
    have "c \<notin> set (map fst (takes i tr))" if c: "c \<in> set (map fst (takes m tr))" and i: "i < m" for c i
    proof
      assume "c \<in> set (map fst (takes i tr))"
      with c ids [of i] ids [of m] i Suc.prems obtain a b where
        "a \<in> {1..<Suc (length (takes i tr))}" "b \<in> {1..<Suc (length (takes m tr))}"
        "conn_id_of i a = conn_id_of m b" by (auto simp del: upt_Suc)
      with assms(2) [of i] assms(2) [of m] i Suc.prems conn_id_of_inject [of a b i m] show False by simp
    qed
    moreover have "distinct (map fst (takes m tr))"
      using ids [of m] Suc.prems
      by (auto simp: distinct_map inj_on_def conn_id_of_def simp del: upt_Suc)
    ultimately show ?case using Suc by fastforce
  qed simp
  then show ?thesis by (simp add: all_ids_def)
qed


section \<open>The pool as a set of bounded queues\<close>

text \<open>
  The abstract pool: one queue of at most eight jobs for each worker. A job is appended to the
  queue of the worker it is sent to and taken from the front of the queue of the worker that takes
  it; nothing else changes a queue.
\<close>

inductive spec_step :: "job list list \<Rightarrow> action \<Rightarrow> job list list \<Rightarrow> bool" where
  idle: "l = Silent \<or> l = CtrlC \<or> l = Dropped i j \<Longrightarrow> spec_step q l q"
| enqueue: "i < length q \<Longrightarrow> length (q ! i) < 8 \<Longrightarrow> spec_step q (Sent i j) (q[i := q ! i @ [j]])"
| dequeue: "i < length q \<Longrightarrow> q ! i = Connection tcp addr tls # js \<Longrightarrow>
    spec_step q (Took i c (Connection tcp addr tls)) (q[i := js])"
| dequeue_shutdown: "i < length q \<Longrightarrow> q ! i = Shutdown # js \<Longrightarrow> spec_step q (TookShutdown i) (q[i := js])"

inductive spec_run :: "job list list \<Rightarrow> action list \<Rightarrow> job list list \<Rightarrow> bool" for q where
  spec_start: "spec_run q [] q"
| spec_more: "spec_run q tr q' \<Longrightarrow> spec_step q' l q'' \<Longrightarrow> spec_run q (tr @ [l]) q''"

text \<open>The promises of the abstract pool: queues keep their bound and their order.\<close>

inductive_simps spec_step_simps:
  "spec_step q (Sent i j) q'" "spec_step q (Took i c j) q'" "spec_step q (TookShutdown i) q'"
  "spec_step q Silent q'" "spec_step q CtrlC q'" "spec_step q (Dropped i j) q'"

lemma spec_step_length: "spec_step q l q' \<Longrightarrow> length q' = length q"
  by (induction rule: spec_step.induct) simp_all

lemma spec_step_queue:
  assumes "spec_step q l q'" and "k < length q" and "length (q ! k) \<le> 8"
  shows "length (q' ! k) \<le> 8" and "q ! k @ sent_to k [l] = took_by k [l] @ q' ! k"
  using assms by (cases l; auto simp: spec_step_simps nth_list_update)+

lemma spec_run_queue:
  assumes "spec_run q tr q'" and "k < length q" and "length (q ! k) \<le> 8"
  shows "length q' = length q \<and> length (q' ! k) \<le> 8 \<and> q ! k @ sent_to k tr = took_by k tr @ q' ! k"
  using assms(1)
proof (induction rule: spec_run.induct)
  case (spec_more tr q' l q'')
  then have k: "k < length q'" "length (q' ! k) \<le> 8" using assms(2) by simp_all
  have "q ! k @ sent_to k (tr @ [l]) = took_by k tr @ q' ! k @ sent_to k [l]"
    using spec_more.IH by (simp flip: append_assoc)
  also have "\<dots> = took_by k (tr @ [l]) @ q'' ! k"
    using spec_step_queue(2) [OF spec_more.hyps(2) k] by simp
  finally show ?case
    using spec_more.IH spec_step_queue(1) [OF spec_more.hyps(2) k] spec_step_length [OF spec_more.hyps(2)]
    by simp
qed (use assms(3) in simp)

definition queues :: "sys \<Rightarrow> job list list" where
  "queues s = map ch_buf (sy_senders s)"

lemma queues_simps [simp]:
  "length (queues s) = length (sy_senders s)"
  "i < length (sy_senders s) \<Longrightarrow> queues s ! i = ch_buf (sy_senders s ! i)"
  "queues (set_channel i c s) = (queues s)[i := ch_buf c]"
  "queues (set_pc pc s) = queues s" "queues (set_worker i w s) = queues s"
  "queues (sy_run_update f s) = queues s"
  by (simp_all add: queues_def map_update)

lemma queues_cong: "sy_server s' = sy_server s \<Longrightarrow> queues s' = queues s"
  by (simp add: queues_def)

lemma queues_stop [simp]: "i < length (sy_senders s) \<Longrightarrow> queues (stop_worker i s) = queues s"
  by (rule nth_equalityI) (simp_all add: queues_def drop_receiver_def nth_list_update)

lemma enqueue_spec:
  assumes "try_send j (sy_senders s ! i) = (True, c)" and "i < length (sy_senders s)"
    and "list_all (\<lambda>c. ch_cap c = 8) (sy_senders s)"
  shows "spec_step (queues s) (Sent i j) ((queues s)[i := ch_buf c])"
proof -
  have "ch_buf c = queues s ! i @ [j]" "length (queues s ! i) < 8"
    using ch.send_True [OF assms(1)] assms(2,3) by (simp_all add: list_all_length)
  then show ?thesis using assms(2) spec_step.enqueue [of i "queues s" j] by simp
qed

lemma dispatch_spec:
  assumes "dispatch j s = (l, s')" and "list_all (\<lambda>c. ch_cap c = 8) (sy_senders s)"
  shows "spec_step (queues s) l (queues s')"
  using assms(1)
proof (cases rule: dispatch_cases)
  case (sent i c s1)
  then have "i < length (sy_senders s)" by simp
  from enqueue_spec [OF sent(3) this assms(2)] sent(4-6) show ?thesis by simp
qed (simp_all add: spec_step.idle)

lemma receive_spec:
  assumes "receive_step alive i s = (l, s')" and "i < length (sy_senders s)"
  shows "spec_step (queues s) l (queues s')"
  using assms(1)
proof (cases rule: receive_step_cases)
  case (shutdown c)
  then show ?thesis
    using assms(2) ch.recv_Some [OF shutdown(1)] by (auto intro!: spec_step.dequeue_shutdown)
next
  case (connection tcp addr tls c)
  then show ?thesis using assms(2) ch.recv_Some [OF connection(1)] by (auto intro!: spec_step.dequeue)
qed (use assms(2) in \<open>simp_all add: spec_step.idle\<close>)

lemma sys_step_spec:
  assumes "sys_step P ctx s l s'" and "length (RANDOM_CHUNK (pf_fill P)) = MAX_CHUNK_SIZE"
    and "length (sy_senders s) = length (sy_workers s)" "list_all (\<lambda>c. ch_cap c = 8) (sy_senders s)"
  shows "spec_step (queues s) l (queues s')"
  using assms(1)
proof (cases rule: sys_step.cases)
  case (poll r)
  then show ?thesis using queues_cong [of s' s] by (simp add: spec_step.idle)
next
  case (accept toks a)
  from accept(2) show ?thesis
  proof (cases rule: accept_step_cases)
    case local
    then show ?thesis using queues_cong [of s' s] by (simp add: spec_step.idle)
  next
    case incoming
    then show ?thesis using assms(4) by (rule dispatch_spec)
  qed
next
  case (signal i)
  from signal(2) show ?thesis
  proof (cases rule: signal_step_cases)
    case local
    then show ?thesis using queues_cong [of s' s] by (simp add: spec_step.idle)
  next
    case (sent c)
    from enqueue_spec [OF sent(2,1) assms(4)] sent(3,4) show ?thesis by simp
  qed
next
  case ctrl_c
  then show ?thesis by (simp add: spec_step.idle queues_def)
next
  case (worker i e alive)
  then have i: "i < length (sy_senders s)" using assms(3) by simp
  from worker(4,2) assms(2) show ?thesis
  proof (cases rule: worker_step_cases)
    case receive
    then show ?thesis using i by (intro receive_spec)
  qed (use i in \<open>simp_all add: spec_step.idle\<close>)
qed


lemma run_refines_queues:
  assumes "server_new os E conn cfg tcp tls sink = Started rn"
    and "sys_run P (rn_ctx rn) (boot os rn) tr s"
    and "length (RANDOM_CHUNK (pf_fill P)) = MAX_CHUNK_SIZE"
  shows "spec_run (replicate (num_workers cfg) []) tr (queues s)"
  using assms(2)
proof (induction rule: sys_run.induct)
  case start
  have "queues (boot os rn) = replicate (num_workers cfg) []"
    using assms(1) by (cases rule: server_new_Started) (simp add: queues_def boot_def sync_channel_def)
  then show ?case using spec_start by metis
next
  case (step tr s l s')
  have inv: "pool_inv (rn_ctx rn) (num_workers cfg) tr s" by (rule run_inv [OF step.hyps(1) assms(3,1)])
  then have "length (sy_senders s) = length (sy_workers s)" "list_all (\<lambda>c. ch_cap c = 8) (sy_senders s)"
    by (auto simp: pool_inv_def worker_inv_def ch.carries_def CHANNEL_CAPACITY_def list_all_length)
  from sys_step_spec [OF step.hyps(2) assms(3) this] step.IH show ?case by (rule spec_more [rotated])
qed

section \<open>A concrete server\<close>

text \<open>Two workers, one TLS listener, tokens not checked; a client connects once.\<close>

definition demo_os :: os where
  "demo_os =
     \<lparr>os_read = (\<lambda>_. Inl ''missing''), os_bind = (\<lambda>_. None), os_set_nonblocking = (\<lambda>_ _. None),
      os_poll_new = None, os_register = (\<lambda>_. None), os_spawn = (\<lambda>_. True)\<rparr>"

definition demo_config :: config where
  "demo_config = config_default\<lparr>cert_path := Some ''cert.pem'', key_path := Some ''key.pem'', tls13_only := True,
     num_workers := 2, check_token := False\<rparr>"

definition demo_addr :: socket_addr where
  "demo_addr = socket_addr_new (V4 UNSPECIFIED_V4) 5231"

definition demo_running :: running where
  "demo_running =
     \<lparr>rn_server = \<lparr>shutdown = False, senders = replicate 2 (sync_channel CHANNEL_CAPACITY)\<rparr>,
      rn_workers = replicate 2 worker_start,
      rn_ctx = \<lparr>ctx_config = demo_config, ctx_keys = [], ctx_tls = Some (Inr ()), ctx_sink = Some demo_sink\<rparr>,
      rn_tcp = [], rn_tls = [Listener demo_addr]\<rparr>"

abbreviation demo_new :: "config \<Rightarrow> running start" where
  "demo_new cfg \<equiv> server_new demo_os demo_tls (\<lambda>_. Inr ()) cfg [] [demo_addr] (Some demo_sink)"

lemma demo_started: "demo_new demo_config = Started demo_running"
  by (simp add: server_new_def load_keys_def read_secret_keys_def demo_os_def demo_config_def
      config_default_def load_tls_def demo_tls_builds bind_listener_def spawn_workers_def demo_running_def
      upt_rec numeral_2_eq_2)

definition demo_job :: job where
  "demo_job = Connection \<lparr>ts_duplex = demo_duplex [], ts_timeouts = True\<rparr>
     (socket_addr_new (V4 (Ipv4Addr 192 0 2 7)) 40000) True"

text \<open>The connection is accepted and sent to worker 0.\<close>

lemma demo_sent:
  "\<exists>s. sys_run demo_platform (rn_ctx demo_running) (boot demo_os demo_running)
       [Silent, Sent 0 demo_job] s \<and>
     sy_senders s ! 0 = (sync_channel CHANNEL_CAPACITY)\<lparr>ch_buf := [demo_job]\<rparr> \<and>
     sy_workers s = replicate 2 worker_start \<and> \<not> shutdown (sy_server s) \<and> sy_pc s = Draining [0]"
proof -
  define s0 where "s0 = boot demo_os demo_running"
  define s1 where "s1 = poll_step (Inr [0]) s0"
  define s2 where "s2 = snd (dispatch demo_job s1)"
  have s0: "sy_pc s0 = Polling" "rs_listeners (sy_run s0) = [(Listener demo_addr, True)]"
    "next_worker (sy_run s0) = 0" "\<not> shutdown (sy_server s0)"
    "sy_senders s0 = replicate 2 (sync_channel CHANNEL_CAPACITY)"
    "sy_workers s0 = replicate 2 worker_start"
    by (simp_all add: s0_def boot_def demo_running_def run_start_def run_setup_def tag_listeners_def
        first_error_def demo_os_def)
  have s1: "sy_pc s1 = Draining [0]" "rs_listeners (sy_run s1) = [(Listener demo_addr, True)]"
    "next_worker (sy_run s1) = 0" "sy_server s1 = sy_server s0" "sy_workers s1 = sy_workers s0"
    using s0 by (simp_all add: s1_def poll_step_def)
  have send: "try_send demo_job (sync_channel CHANNEL_CAPACITY) =
      (True, (sync_channel CHANNEL_CAPACITY)\<lparr>ch_buf := [demo_job]\<rparr>)"
    by (simp add: try_send_def sync_channel_def CHANNEL_CAPACITY_def)
  have a: "dispatch demo_job s1 = (Sent 0 demo_job, s2)"
    using s0 s1 send by (simp add: dispatch_def s2_def)
  have "sys_run demo_platform (rn_ctx demo_running) s0 (([] @ [Silent]) @ [Sent 0 demo_job]) s2"
  proof (rule sys_run.step [OF sys_run.step [OF sys_run.start]])
    show "sys_step demo_platform (rn_ctx demo_running) s0 Silent s1"
      unfolding s1_def by (rule sys_step.poll [OF s0(1)]) (simp add: registered_def s0(2))
    show "sys_step demo_platform (rn_ctx demo_running) s1 (Sent 0 demo_job) s2"
      by (rule sys_step.accept [OF s1(1), where a = "Incoming \<lparr>ts_duplex = demo_duplex [],
          ts_timeouts = True\<rparr> (socket_addr_new (V4 (Ipv4Addr 192 0 2 7)) 40000) None"])
        (use a s1(2) in \<open>simp add: demo_job_def\<close>)
  qed
  moreover have "sy_senders s2 ! 0 = (sync_channel CHANNEL_CAPACITY)\<lparr>ch_buf := [demo_job]\<rparr>"
    "sy_workers s2 = replicate 2 worker_start" "\<not> shutdown (sy_server s2)" "sy_pc s2 = Draining [0]"
    using s0 s1 send by (simp_all add: dispatch_def s2_def)
  ultimately show ?thesis by (auto simp: s0_def)
qed

text \<open>Worker 0 takes it as its first connection.\<close>

definition demo_trace :: "action list" where
  "demo_trace = [Silent, Sent 0 demo_job, Silent, Took 0 1 demo_job]"

lemma demo_run:
  "\<exists>s. sys_run demo_platform (rn_ctx demo_running) (boot demo_os demo_running) demo_trace s \<and>
     \<not> shutdown (sy_server s) \<and> sy_pc s = Draining [0] \<and> length (sy_workers s) = 2 \<and>
     (\<exists>tcp addr. w_pc (sy_workers s ! 0) = Handling 1 tcp addr True)"
proof -
  obtain s2 where r: "sys_run demo_platform (rn_ctx demo_running) (boot demo_os demo_running)
       [Silent, Sent 0 demo_job] s2"
    and s2: "sy_senders s2 ! 0 = (sync_channel CHANNEL_CAPACITY)\<lparr>ch_buf := [demo_job]\<rparr>"
      "sy_workers s2 = replicate 2 worker_start" "\<not> shutdown (sy_server s2)" "sy_pc s2 = Draining [0]"
    using demo_sent by blast
  define s3 where "s3 = set_worker 0 ((sy_workers s2 ! 0)\<lparr>w_pc := Receiving\<rparr>) s2"
  define s4 where "s4 = snd (receive_step True 0 s3)"
  have recv: "try_recv (sy_senders s2 ! 0) = Some (demo_job, sync_channel CHANNEL_CAPACITY)"
    by (simp add: s2(1) try_recv_def sync_channel_def)
  have clock: "clock_runs (demo_session [])" by (rule demo_session_facts(3))
  have "sys_run demo_platform (rn_ctx demo_running) (boot demo_os demo_running)
      (([Silent, Sent 0 demo_job] @ [Silent]) @ [Took 0 1 demo_job]) s4"
  proof (rule sys_run.step [OF sys_run.step [OF r]])
    show "sys_step demo_platform (rn_ctx demo_running) s2 Silent s3"
      by (rule sys_step.worker [OF _ clock, where alive = True and i = 0])
        (use s2 in \<open>simp_all add: worker_step_def s3_def worker_start_def\<close>)
    show "sys_step demo_platform (rn_ctx demo_running) s3 (Took 0 1 demo_job) s4"
      by (rule sys_step.worker [OF _ clock, where alive = True and i = 0])
        (use s2 recv in \<open>simp_all add: worker_step_def s3_def s4_def receive_step_def demo_job_def
          conn_id_of_def worker_start_def\<close>)
  qed
  moreover have "\<not> shutdown (sy_server s4)" "sy_pc s4 = Draining [0]" "length (sy_workers s4) = 2"
    "\<exists>tcp addr. w_pc (sy_workers s4 ! 0) = Handling 1 tcp addr True"
    using s2 recv
    by (simp_all add: s4_def s3_def receive_step_def demo_job_def Let_def conn_id_of_def worker_start_def)
  ultimately show ?thesis by (auto simp: demo_trace_def)
qed

text \<open>Then the worker handles the connection to its end.\<close>

lemma demo_run_handled:
  "\<exists>s. sys_run demo_platform (rn_ctx demo_running) (boot demo_os demo_running) (demo_trace @ [Silent]) s \<and>
     w_pc (sy_workers s ! 0) = LoopTop"
proof -
  obtain s c addr where r: "sys_run demo_platform (rn_ctx demo_running) (boot demo_os demo_running)
      demo_trace s" "length (sy_workers s) = 2" "w_pc (sy_workers s ! 0) = Handling 1 c addr True"
    using demo_run by blast
  have clock: "clock_runs (demo_session [])" by (rule demo_session_facts(3))
  obtain l s' where st: "worker_step demo_platform (rn_ctx demo_running) True (demo_session []) 0 s = Some (l, s')"
    using worker_step_returns [OF clock demo_platform_fill] by blast
  then have "l = Silent" "w_pc (sy_workers s' ! 0) = LoopTop"
    using r(2,3) by (cases rule: worker_step_cases [OF st clock demo_platform_fill]; simp)+
  moreover have "sys_step demo_platform (rn_ctx demo_running) s l s'"
    using r(2) by (intro sys_step.worker [OF _ clock _ st]) simp_all
  ultimately show ?thesis using sys_run.step [OF r(1)] by blast
qed

lemma demo_trace_facts:
  "sent_to 0 demo_trace = [demo_job]" "took_by 0 demo_trace = [demo_job]"
  "takes i demo_trace = (if i = 0 then [(1, demo_job)] else [])" "map fst (dispatched demo_trace) = [0]"
  "num_workers demo_config = 2" "rn_ctx demo_running = \<lparr>ctx_config = demo_config, ctx_keys = [],
     ctx_tls = Some (Inr ()), ctx_sink = Some demo_sink\<rparr>"
  by (simp_all add: demo_trace_def sent_to_def took_by_def takes_def dispatched_def List.map_filter_def
      demo_job_def demo_config_def demo_running_def)

section \<open>Properties\<close>

text \<open>
  C8: no connection is lost or reordered in the pool. In every run, however the threads are
  interleaved, the jobs sent to a worker are those it has taken, in the same order, followed by
  those still waiting in its channel; and at most eight are ever waiting.
\<close>

theorem jobs_delivered_in_order:
  assumes "server_new os E conn cfg tcp tls sink = Started rn"
    and "sys_run P (rn_ctx rn) (boot os rn) tr s"
    and "length (RANDOM_CHUNK (pf_fill P)) = MAX_CHUNK_SIZE" and "i < num_workers cfg"
  shows "sent_to i tr = took_by i tr @ ch_buf (sy_senders s ! i) \<and>
    length (ch_buf (sy_senders s ! i)) \<le> 8"
  using spec_run_queue [OF run_refines_queues [OF assms(1-3)], of i] assms(4)
  by (auto simp: queues_def)

theorem jobs_delivered_in_order_witness:
  "\<exists>s. sys_run demo_platform (rn_ctx demo_running) (boot demo_os demo_running) demo_trace s \<and>
     [demo_job] = took_by 0 demo_trace @ ch_buf (sy_senders s ! 0)"
proof -
  obtain s where r: "sys_run demo_platform (rn_ctx demo_running) (boot demo_os demo_running) demo_trace s"
    using demo_run by blast
  with jobs_delivered_in_order [OF demo_started r demo_platform_fill, of 0] show ?thesis
    by (auto simp: demo_trace_facts)
qed

text \<open>
  C5: the pool refines bounded queues. Whatever the threads of the server do, the contents of the
  channels change only as the abstract pool of queues allows: a job enters the queue of the worker
  it is sent to if there is room for it, and leaves at the front when its worker takes it.
\<close>

theorem pool_refines_queues:
  assumes "server_new os E conn cfg tcp tls sink = Started rn"
    and "sys_run P (rn_ctx rn) (boot os rn) tr s"
    and "length (RANDOM_CHUNK (pf_fill P)) = MAX_CHUNK_SIZE"
  shows "spec_run (replicate (num_workers cfg) []) tr (queues s)"
  by (rule run_refines_queues [OF assms])

theorem pool_refines_queues_witness:
  "\<exists>s. sys_run demo_platform (rn_ctx demo_running) (boot demo_os demo_running) demo_trace s \<and>
     spec_run [[], []] demo_trace (queues s)"
proof -
  obtain s where r: "sys_run demo_platform (rn_ctx demo_running) (boot demo_os demo_running) demo_trace s"
    using demo_run by blast
  with pool_refines_queues [OF demo_started r demo_platform_fill] show ?thesis
    by (auto simp: demo_trace_facts numeral_2_eq_2)
qed



text \<open>
  C16: the event log of a worker. The frames a worker has emitted are the logs of the connections
  it has finished, one after the other in the order it took them, each framed by a \<open>connect\<close> and
  a \<open>close\<close> event with the number of that connection; the connections of worker \<open>i\<close> are numbered
  from \<open>100000 i + 1\<close> on.
\<close>

theorem worker_event_log:
  assumes "server_new os E conn cfg tcp tls sink = Started rn"
    and "sys_run P (rn_ctx rn) (boot os rn) tr s"
    and "length (RANDOM_CHUNK (pf_fill P)) = MAX_CHUNK_SIZE" and "i < num_workers cfg"
  shows "(\<exists>logs. w_frames (sy_workers s ! i) = concat logs \<and>
       list_all2 (job_log (rn_ctx rn)) (finished (w_pc (sy_workers s ! i)) (takes i tr)) logs) \<and>
     map fst (takes i tr) = map (\<lambda>k. i * 100000 + k) [1..<Suc (length (takes i tr))]"
proof -
  have inv: "worker_inv (rn_ctx rn) i tr s"
    using run_inv [OF assms(2,3,1)] assms(4) by (simp add: pool_inv_def)
  then have "map fst (takes i tr) = map (conn_id_of i) [1..<Suc (conn_seq (sy_workers s ! i))]"
    by (simp add: worker_inv_def)
  moreover from this have "conn_seq (sy_workers s ! i) = length (takes i tr)"
    by (metis diff_Suc_1 length_map length_upt)
  moreover have "conn_id_of i = (\<lambda>k. i * 100000 + k)" by (rule ext) (simp add: conn_id_of_def)
  ultimately show ?thesis using inv by (simp add: worker_inv_def del: upt_Suc)
qed

theorem worker_event_log_witness:
  "\<exists>s. sys_run demo_platform (rn_ctx demo_running) (boot demo_os demo_running) (demo_trace @ [Silent]) s \<and>
     job_log (rn_ctx demo_running) (1, demo_job) (w_frames (sy_workers s ! 0))"
proof -
  obtain s where r: "sys_run demo_platform (rn_ctx demo_running) (boot demo_os demo_running)
      (demo_trace @ [Silent]) s" and pc: "w_pc (sy_workers s ! 0) = LoopTop"
    using demo_run_handled by blast
  have "takes 0 (demo_trace @ [Silent]) = [(1, demo_job)]"
    by (simp add: takes_def demo_trace_def List.map_filter_def)
  with worker_event_log [OF demo_started r demo_platform_fill, of 0] pc r show ?thesis
    by (auto simp: demo_trace_facts(5) list_all2_Cons1)
qed

text \<open>
  C30: connection numbers. As long as no worker has taken more than 100000 connections, no two
  connections of the server have the same number; after that they repeat, since the
  next number of a worker is the first one of its neighbour.
\<close>

theorem connection_numbers_distinct:
  assumes "server_new os E conn cfg tcp tls sink = Started rn"
    and "sys_run P (rn_ctx rn) (boot os rn) tr s"
    and "length (RANDOM_CHUNK (pf_fill P)) = MAX_CHUNK_SIZE"
    and "\<And>i. i < num_workers cfg \<Longrightarrow> length (takes i tr) \<le> 100000"
  shows "distinct (all_ids (num_workers cfg) tr) \<and> conn_id_of i 100001 = conn_id_of (i + 1) 1"
  using ids_distinct [OF run_inv [OF assms(2,3,1)] assms(4)] by (simp add: conn_id_of_def)

theorem connection_numbers_distinct_witness:
  "\<exists>s. sys_run demo_platform (rn_ctx demo_running) (boot demo_os demo_running) demo_trace s \<and>
     distinct (all_ids 2 demo_trace)"
proof -
  obtain s where r: "sys_run demo_platform (rn_ctx demo_running) (boot demo_os demo_running) demo_trace s"
    using demo_run by blast
  with connection_numbers_distinct [OF demo_started r demo_platform_fill] show ?thesis
    by (auto simp: demo_trace_facts)
qed

text \<open>
  C29: round robin. The k-th accepted connection is given to worker \<open>k mod n\<close> (the counter has 64
  bits), whether or not there is room for it in the channel.
\<close>

theorem connections_dealt_round_robin:
  assumes "server_new os E conn cfg tcp tls sink = Started rn"
    and "sys_run P (rn_ctx rn) (boot os rn) tr s"
    and "length (RANDOM_CHUNK (pf_fill P)) = MAX_CHUNK_SIZE"
  shows "map fst (dispatched tr) =
    map (\<lambda>k. k mod 2 ^ 64 mod num_workers cfg) [0..<length (dispatched tr)]"
  using sys_run_robin [OF assms(2,3) boot_robin [OF assms(1)]] by (simp add: robin_inv_def)

theorem connections_dealt_round_robin_witness:
  "\<exists>s. sys_run demo_platform (rn_ctx demo_running) (boot demo_os demo_running) demo_trace s \<and>
     map fst (dispatched demo_trace) =
       map (\<lambda>k. k mod 2 ^ 64 mod 2) [0..<length (dispatched demo_trace)]"
proof -
  obtain s where r: "sys_run demo_platform (rn_ctx demo_running) (boot demo_os demo_running) demo_trace s"
    using demo_run by blast
  from connections_dealt_round_robin [OF demo_started r demo_platform_fill] r show ?thesis
    unfolding demo_trace_facts(5) by blast
qed

text \<open>
  C31: no connection with TLS without a TLS configuration. A worker takes a connection marked as
  TLS only if a TLS configuration was loaded, so the end reason \<open>no_tls_worker\<close> cannot occur.
\<close>

theorem tls_connections_find_tls:
  assumes "server_new os E conn cfg tcp tls sink = Started rn"
    and "sys_run P (rn_ctx rn) (boot os rn) tr s"
    and "length (RANDOM_CHUNK (pf_fill P)) = MAX_CHUNK_SIZE" and "i < num_workers cfg"
    and "Connection sock addr True \<in> set (took_by i tr)"
  shows "build_transport (rn_ctx rn) True d \<noteq> Inl ''no_tls_worker''"
proof -
  have "sent_to i tr = took_by i tr @ ch_buf (sy_senders s ! i)"
    using run_inv [OF assms(2,3,1)] assms(4) by (simp add: pool_inv_def worker_inv_def ch.carries_def)
  with assms(5) have "(i, Connection sock addr True) \<in> set (dispatched tr)"
    by (intro sent_dispatched) simp_all
  moreover obtain ls where "loop_inv (num_workers cfg) ls [] (boot os rn)"
    and tls: "True \<in> snd ` set ls \<longrightarrow> ctx_tls (rn_ctx rn) \<noteq> None" by (rule boot_loop [OF assms(1)])
  moreover from this have "loop_inv (num_workers cfg) ls tr s" by (intro sys_run_loop [OF assms(2,3)])
  ultimately have "ctx_tls (rn_ctx rn) \<noteq> None" by (auto simp: loop_inv_def)
  then show ?thesis
    by (auto simp: build_transport_def transport_tls_def split: option.splits sum.splits)
qed

theorem tls_connections_find_tls_witness:
  "\<exists>s sock addr. sys_run demo_platform (rn_ctx demo_running) (boot demo_os demo_running) demo_trace s \<and>
     Connection sock addr True \<in> set (took_by 0 demo_trace) \<and>
     build_transport (rn_ctx demo_running) True (demo_duplex []) \<noteq> Inl ''no_tls_worker''"
proof -
  obtain s where r: "sys_run demo_platform (rn_ctx demo_running) (boot demo_os demo_running) demo_trace s"
    using demo_run by blast
  have t: "Connection \<lparr>ts_duplex = demo_duplex [], ts_timeouts = True\<rparr>
      (socket_addr_new (V4 (Ipv4Addr 192 0 2 7)) 40000) True \<in> set (took_by 0 demo_trace)"
    unfolding demo_trace_facts demo_job_def by simp
  have "(0::nat) < num_workers demo_config" by (simp add: demo_trace_facts)
  from tls_connections_find_tls [OF demo_started r demo_platform_fill this t] r t show ?thesis by blast
qed

text \<open>
  A started server is sound. It has the requested number of workers, all at the top of their
  loops with empty channels; when tokens are checked it holds at least one key; it listens on every
  plain address, and on every TLS address exactly if it has a TLS configuration, which it has
  only when a certificate and a key were given and load.
\<close>

theorem server_start_is_sound:
  assumes "server_new os E conn cfg tcp tls sink = Started rn"
  shows "length (rn_workers rn) = num_workers cfg \<and> length (senders (rn_server rn)) = num_workers cfg \<and>
     list_all (\<lambda>w. w_pc w = LoopTop \<and> conn_seq w = 0) (rn_workers rn) \<and>
     list_all (\<lambda>c. ch_buf c = [] \<and> ch_cap c = 8 \<and> ch_open c) (senders (rn_server rn)) \<and>
     (ctx_keys (rn_ctx rn) = [] \<longrightarrow> \<not> check_token cfg) \<and>
     rn_tcp rn = map Listener tcp \<and>
     rn_tls rn = (if ctx_tls (rn_ctx rn) = None then [] else map Listener tls) \<and>
     (ctx_tls (rn_ctx rn) \<noteq> None \<longrightarrow>
        (\<exists>cert key c. cert_path cfg = Some cert \<and> key_path cfg = Some key \<and>
           build_tls_config E cert key (tls13_only cfg) = Inr c))"
proof -
  from assms obtain keys where k: "load_keys os cfg = Inr keys"
    and rn: "rn_server rn = \<lparr>shutdown = False, senders = replicate (num_workers cfg) (sync_channel CHANNEL_CAPACITY)\<rparr>"
      "rn_workers rn = replicate (num_workers cfg) worker_start"
      "rn_ctx rn = \<lparr>ctx_config = cfg, ctx_keys = keys, ctx_tls = load_tls E conn cfg, ctx_sink = sink\<rparr>"
      "rn_tcp rn = map Listener tcp"
      "rn_tls rn = (if load_tls E conn cfg = None then [] else map Listener tls)"
    by (cases rule: server_new_Started)
  have "keys = [] \<longrightarrow> \<not> check_token cfg"
    using k by (auto simp: load_keys_def read_secret_keys_def Let_def split: sum.splits if_splits)
  moreover have "load_tls E conn cfg \<noteq> None \<longrightarrow>
      (\<exists>cert key c. cert_path cfg = Some cert \<and> key_path cfg = Some key \<and>
         build_tls_config E cert key (tls13_only cfg) = Inr c)"
    by (auto simp: load_tls_def split: option.splits sum.splits)
  ultimately show ?thesis
    by (simp add: rn list_all_length worker_start_def sync_channel_def CHANNEL_CAPACITY_def)
qed

theorem server_start_is_sound_witness:
  "demo_new demo_config = Started demo_running \<and> length (rn_workers demo_running) = num_workers demo_config"
  using server_start_is_sound [OF demo_started] demo_started by blast

text \<open>
  C32: panics of the accept loop. In a server with at least one worker, no sequence of
  connections, errors and signals makes \<open>Server::run\<close> panic; in a server started with \<open>-t 0\<close>, the
  first connection that is accepted does.
\<close>

theorem accept_loop_panics_only_without_workers:
  assumes "server_new os E conn cfg tcp tls sink = Started rn"
    and "sys_run P (rn_ctx rn) (boot os rn) tr s"
    and "length (RANDOM_CHUNK (pf_fill P)) = MAX_CHUNK_SIZE"
  shows "(num_workers cfg \<noteq> 0 \<longrightarrow> (\<forall>p. sy_pc s \<noteq> Returned (Panic p))) \<and>
     (num_workers cfg = 0 \<longrightarrow> sy_pc s = Draining (t # ts) \<longrightarrow>
        sy_pc (snd (accept_step (Incoming sock addr None) (t # ts) s)) =
          Returned (Panic ''attempt to calculate the remainder with a divisor of zero''))"
proof -
  obtain ls where "loop_inv (num_workers cfg) ls [] (boot os rn)" using boot_loop [OF assms(1)] by blast
  then have "loop_inv (num_workers cfg) ls tr s" by (rule sys_run_loop [OF assms(2,3)])
  then show ?thesis by (auto simp: loop_inv_def dispatch_def)
qed

theorem accept_loop_panics_only_without_workers_witness:
  "\<exists>s. sys_run demo_platform (rn_ctx demo_running) (boot demo_os demo_running) demo_trace s \<and>
     sy_pc s \<noteq> Returned (Panic ''index out of bounds'')"
proof -
  obtain s where r: "sys_run demo_platform (rn_ctx demo_running) (boot demo_os demo_running) demo_trace s"
    using demo_run by blast
  with accept_loop_panics_only_without_workers [OF demo_started r demo_platform_fill] show ?thesis
    by (auto simp: demo_trace_facts)
qed

text \<open>
  C17: shutdown. Once the shutdown flag is set, every worker takes at most one more job in the whole
  rest of the run, and none if it was not waiting for one at that moment. Each of its own steps
  brings it closer to its end, which it reaches after three at the latest. A step outside a
  connection always ends; the handling of a connection, which does not look at the flag, ends when
  its client stops.
\<close>

theorem shutdown_ends_the_workers:
  assumes "shutdown (sy_server s)" and "i < length (sy_workers s)"
    and "length (RANDOM_CHUNK (pf_fill P)) = MAX_CHUNK_SIZE" and "sys_run P ctx s tr s'"
  shows "length (took_by i tr) \<le> (if w_pc (sy_workers s ! i) = Receiving then 1 else 0) \<and>
     (\<forall>e l s''. clock_runs e \<and> worker_step P ctx alive e i s' = Some (l, s'') \<longrightarrow>
        stop_distance (w_pc (sy_workers s'' ! i)) \<le> stop_distance (w_pc (sy_workers s' ! i)) - 1) \<and>
     (\<forall>e. (\<forall>c tcp addr tls. w_pc (sy_workers s' ! i) \<noteq> Handling c tcp addr tls) \<or> clock_runs e \<longrightarrow>
        worker_step P ctx alive e i s' \<noteq> None)"
proof (intro conjI allI impI)
  have r: "shutdown (sy_server s')" "length (sy_workers s') = length (sy_workers s)"
    "length (took_by i tr) + is_receiving i s' \<le> is_receiving i s"
    using shutdown_run [OF assms(4,3,1,2)] by auto
  then show "length (took_by i tr) \<le> (if w_pc (sy_workers s ! i) = Receiving then 1 else 0)"
    by (auto simp: is_receiving_def)
  fix e l s''
  assume "clock_runs e \<and> worker_step P ctx alive e i s' = Some (l, s'')"
  with stop_distance_step [of P ctx alive e i s' l s''] r assms(2,3)
  show "stop_distance (w_pc (sy_workers s'' ! i)) \<le> stop_distance (w_pc (sy_workers s' ! i)) - 1" by simp
next
  fix e
  assume "(\<forall>c tcp addr tls. w_pc (sy_workers s' ! i) \<noteq> Handling c tcp addr tls) \<or> clock_runs e"
  then consider "\<forall>c tcp addr tls. w_pc (sy_workers s' ! i) \<noteq> Handling c tcp addr tls" | "clock_runs e"
    by blast
  then show "worker_step P ctx alive e i s' \<noteq> None"
  proof cases
    case 1
    then show ?thesis by (cases "w_pc (sy_workers s' ! i)") (auto simp: worker_step_def)
  next
    case 2
    from worker_step_returns [OF this assms(3), of ctx alive i s'] show ?thesis by auto
  qed
qed

theorem shutdown_ends_the_workers_witness:
  "\<exists>s l s'. sys_run demo_platform (rn_ctx demo_running) (boot demo_os demo_running) (demo_trace @ [CtrlC]) s \<and>
     worker_step demo_platform (rn_ctx demo_running) True (demo_session []) 0 s = Some (l, s') \<and>
     stop_distance (w_pc (sy_workers s' ! 0)) < stop_distance (w_pc (sy_workers s ! 0))"
proof -
  obtain s c addr where r: "sys_run demo_platform (rn_ctx demo_running) (boot demo_os demo_running)
      demo_trace s" "length (sy_workers s) = 2" "w_pc (sy_workers s ! 0) = Handling 1 c addr True"
    using demo_run by blast
  define s1 where "s1 = s\<lparr>sy_server := request_shutdown (sy_server s)\<rparr>"
  have s1: "shutdown (sy_server s1)" "0 < length (sy_workers s1)" "w_pc (sy_workers s1 ! 0) = Handling 1 c addr True"
    using r(2,3) by (simp_all add: s1_def)
  have "sys_run demo_platform (rn_ctx demo_running) (boot demo_os demo_running) (demo_trace @ [CtrlC]) s1"
    unfolding s1_def by (rule sys_run.step [OF r(1) sys_step.ctrl_c])
  moreover have w: "clock_runs (demo_session [])" by (rule demo_session_facts(3))
  note th = shutdown_ends_the_workers [OF s1(1,2) demo_platform_fill sys_run.start, of "rn_ctx demo_running" True]
  from th w obtain l s' where
    l: "worker_step demo_platform (rn_ctx demo_running) True (demo_session []) 0 s1 = Some (l, s')" by fastforce
  with th w have "stop_distance (w_pc (sy_workers s' ! 0)) \<le> stop_distance (w_pc (sy_workers s1 ! 0)) - 1"
    by blast
  then have "stop_distance (w_pc (sy_workers s' ! 0)) < stop_distance (w_pc (sy_workers s1 ! 0))"
    by (simp add: s1(3))
  ultimately show ?thesis using l by blast
qed

text \<open>
  C33: the accept loop ends. When the shutdown flag is set, the next \<open>poll\<close> that is not interrupted
  ends the accepting, whatever events it reports. From then on, however the threads are
  interleaved, \<open>run\<close> is on its way through the workers or has returned \<open>Ok\<close>; it takes one step for
  each worker and one to return, and when it has returned it has offered \<open>Shutdown\<close> to every
  worker once: the worker was sent it, and nothing else, or its channel was full or closed.
\<close>

theorem accept_loop_ends_on_shutdown:
  assumes "shutdown (sy_server s)" and "sy_pc s = Polling" and "registered (Inr tokens) s"
    and "length (RANDOM_CHUNK (pf_fill P)) = MAX_CHUNK_SIZE" and "s1 = poll_step (Inr tokens) s"
  shows "sys_step P ctx s Silent s1 \<and>
    (\<exists>tr s'. sys_run P ctx s1 tr s' \<and> length tr = length (sy_senders s) + 1 \<and>
       sy_pc s' = Returned (Ok ())) \<and>
    (\<forall>tr s'. sys_run P ctx s1 tr s' \<longrightarrow>
       (\<exists>j \<le> length (sy_senders s). sy_pc s' = Signalling j) \<or>
       sy_pc s' = Returned (Ok ()) \<and> list_all (offered P ctx s1 tr) [0..<length (sy_senders s)])"
proof -
  have s1: "sy_pc s1 = Signalling 0" "length (sy_senders s1) = length (sy_senders s)"
    using assms(1) by (simp_all add: assms(5) poll_step_def)
  then obtain tr s' where "sys_run P ctx s1 tr s'" "length tr = length (sy_senders s) + 1"
    "sy_pc s' = Returned (Ok ())" using signalling_returns [of s1 0 "length (sy_senders s)" P ctx] by auto
  moreover have "sys_step P ctx s Silent s1" unfolding assms(5) by (rule sys_step.poll [OF assms(2,3)])
  moreover have "(\<exists>j \<le> length (sy_senders s). sy_pc s' = Signalling j) \<or>
      sy_pc s' = Returned (Ok ()) \<and> list_all (offered P ctx s1 tr) [0..<length (sy_senders s)]"
    if "sys_run P ctx s1 tr s'" for tr s'
    using signalling_run [OF that assms(4) s1(1)] s1(2) by (auto simp: signalled_def)
  ultimately show ?thesis by blast
qed

theorem accept_loop_ends_on_shutdown_witness:
  "\<exists>s s1 tr s'. shutdown (sy_server s) \<and> sys_step demo_platform (rn_ctx demo_running) s Silent s1 \<and>
     sys_run demo_platform (rn_ctx demo_running) s1 tr s' \<and> sy_pc s' = Returned (Ok ()) \<and>
     offered demo_platform (rn_ctx demo_running) s1 tr 1"
proof -
  define s where "s = (boot demo_os demo_running)\<lparr>sy_server := (rn_server demo_running)\<lparr>shutdown := True\<rparr>\<rparr>"
  have s: "shutdown (sy_server s)" "sy_pc s = Polling" "registered (Inr [0]) s" "length (sy_senders s) = 2"
    by (simp_all add: s_def registered_def boot_def demo_running_def run_start_def run_setup_def
        tag_listeners_def first_error_def demo_os_def)
  note th = accept_loop_ends_on_shutdown [OF s(1-3) demo_platform_fill refl, of "rn_ctx demo_running"]
  from th obtain tr s' where r: "sys_run demo_platform (rn_ctx demo_running) (poll_step (Inr [0]) s) tr s'"
    "sy_pc s' = Returned (Ok ())" by blast
  with th have "list_all (offered demo_platform (rn_ctx demo_running) (poll_step (Inr [0]) s) tr) [0..<2]"
    using s(4) by fastforce
  then have "offered demo_platform (rn_ctx demo_running) (poll_step (Inr [0]) s) tr 1"
    by (simp add: list_all_iff)
  with th r s(1) show ?thesis by blast
qed

end
