(* ===== verification/Rmbt_Cli.thy ===== *)
theory Rmbt_Cli
  imports Rmbt_Config
begin

text \<open>
  Properties of the configuration (\<open>src/src/config/parser.rs\<close>): the secret key file is read back
  as it is written, no key read from it is empty, and a command line weakens the configuration
  only where it names the option that does so. The help text is here too, with the fact that it
  explains every option.
\<close>

section \<open>The key file\<close>

definition key_text :: "secret_key \<Rightarrow> string" where
  "key_text k = (if sk_label k = [] then sk_key k else sk_key k @ '' '' @ sk_label k)"

definition key_file :: "secret_key list \<Rightarrow> string" where
  "key_file ks = concat (map (\<lambda>k. key_text k @ [CHR 0x0A]) ks)"

text \<open>Keys that the format can hold.\<close>

definition storable :: "secret_key \<Rightarrow> bool" where
  "storable k \<longleftrightarrow>
     sk_key k \<noteq> [] \<and> list_all ink (sk_key k) \<and> hd (sk_key k) \<noteq> CHR ''#'' \<and>
     (sk_label k \<noteq> [] \<longrightarrow>
        ink (hd (sk_label k)) \<and> ink (last (sk_label k)) \<and> CHR 0x0A \<notin> set (sk_label k)) \<and>
     5 \<le> length (key_text k)"

lemma not_ink: "\<not> ink (CHR '' '')" "\<not> ink (CHR 0x0A)" "\<not> ink (CHR 0x0D)"
  by (simp_all add: ink_def)

lemma split_char_line: "d \<notin> set l \<Longrightarrow> split_char d (l @ d # r) = l # split_char d r"
  by (induction l) auto

lemma str_lines_concat:
  assumes "list_all (\<lambda>l. CHR 0x0A \<notin> set l \<and> l \<noteq> [] \<and> last l \<noteq> CHR 0x0D) ls"
  shows "str_lines (concat (map (\<lambda>l. l @ [CHR 0x0A]) ls)) = ls"
  using assms
proof (induction ls)
  case Nil
  show ?case by (simp add: str_lines_def)
next
  case (Cons l ls)
  define r where "r = split_char (CHR 0x0A) (concat (map (\<lambda>l. l @ [CHR 0x0A]) ls))"
  have "split_char (CHR 0x0A) (l @ CHR 0x0A # concat (map (\<lambda>l. l @ [CHR 0x0A]) ls)) = l # r"
    using Cons.prems by (simp add: split_char_line r_def)
  moreover have "join_lines r = ls" using Cons by (simp add: str_lines_def r_def)
  moreover have "strip_cr l = l" using Cons.prems by (simp add: strip_cr_def)
  moreover have "r \<noteq> []" by (simp add: r_def)
  then have "join_lines (l # r) = strip_cr l # join_lines r" by (cases r) simp_all
  ultimately show ?case by (simp add: str_lines_def)
qed

lemma storable_text:
  assumes "storable k"
  shows "key_text k \<noteq> []" "ink (hd (key_text k))" "ink (last (key_text k))"
    "CHR 0x0A \<notin> set (key_text k)" "hd (key_text k) \<noteq> CHR ''#''" "CHR '' '' \<notin> set (sk_key k)"
proof -
  have ink: "ink c" if "c \<in> set (sk_key k)" for c
    using assms that by (simp add: storable_def list_all_iff)
  then show "CHR '' '' \<notin> set (sk_key k)" using not_ink by blast
  have "CHR 0x0A \<notin> set (sk_key k)" using ink not_ink by blast
  with assms show "CHR 0x0A \<notin> set (key_text k)" by (auto simp: key_text_def storable_def)
  show "key_text k \<noteq> []" "ink (hd (key_text k))" "ink (last (key_text k))" "hd (key_text k) \<noteq> CHR ''#''"
    using assms ink by (auto simp: key_text_def storable_def)
qed

lemma key_line_text: "storable k \<Longrightarrow> key_line (key_text k) = Some k"
proof -
  assume k: "storable k"
  note t = storable_text [OF k]
  have "trim (key_text k) = key_text k" using t by (intro trim_ink)
  moreover have "\<not> starts_with ''#'' (key_text k)" using t by (auto simp: starts_with_iff)
  moreover have "\<not> length (key_text k) < 5" using k by (simp add: storable_def)
  moreover have "split_once '' '' (key_text k) =
      (if sk_label k = [] then None else Some (sk_key k, sk_label k))"
    using t(6) by (simp add: key_text_def split_once_char split_once_char_None)
  moreover have "trim (sk_label k) = sk_label k"
    using k by (cases "sk_label k = []") (auto simp: storable_def intro: trim_ink)
  ultimately show ?thesis by (simp add: key_line_def key_text_def)
qed

lemma map_filter_inverse: "list_all (\<lambda>x. f (g x) = Some x) xs \<Longrightarrow> List.map_filter f (map g xs) = xs"
  by (induction xs) (simp_all add: List.map_filter_def)

text \<open>What is left by \<open>trim\<close> does not begin with a space.\<close>

lemma trim_no_space: "trim s = CHR '' '' # r \<Longrightarrow> False"
proof -
  assume t: "trim s = CHR '' '' # r"
  define u where "u = trim_start s"
  have "prefix (trim_end u) u"
    using trim_with_suffix [of "map rev ws_encodings" "rev u"]
    by (simp add: trim_end_def suffix_to_prefix)
  then obtain v where "u = CHR '' '' # v" using t by (auto simp: trim_def u_def prefix_def)
  then have "starts_with '' '' (trim_start s)" by (simp add: u_def starts_with_iff)
  moreover have "'' '' \<in> set ws_encodings" by (simp add: ws_encodings_def)
  ultimately show False
    using trim_with_stops [of ws_encodings s] by (auto simp: trim_start_def strip_any_None)
qed

lemma key_line_usable:
  assumes "key_line l = Some k"
  shows "sk_key k \<noteq> [] \<and> CHR '' '' \<notin> set (sk_key k)"
proof (cases "split_once '' '' (trim l)")
  case None
  then have "sk_key k = trim l" "5 \<le> length (trim l)"
    using assms by (auto simp: key_line_def Let_def split: if_splits)
  moreover have "CHR '' '' \<notin> set (trim l)" using None by (simp add: split_once_char_None)
  ultimately show ?thesis by auto
next
  case (Some ab)
  then have "split_once '' '' (trim l) = Some (sk_key k, snd ab)"
    using assms by (cases ab) (auto simp: key_line_def Let_def split: if_splits)
  then have "trim l = sk_key k @ CHR '' '' # snd ab" "CHR '' '' \<notin> set (sk_key k)"
    by (simp_all add: split_once_char)
  then show ?thesis using trim_no_space [of l "snd ab"] by auto
qed

section \<open>The command line\<close>

lemma if_Some_iff: "(if b then Some x else y) = Some z \<longleftrightarrow> b \<and> x = z \<or> \<not> b \<and> y = Some z"
  by simp

text \<open>Settings that weaken the server, and the option that may change each of them.\<close>

definition keeps :: "string list \<Rightarrow> cli \<Rightarrow> cli \<Rightarrow> bool" where
  "keeps args c c' \<longleftrightarrow>
     (''-l'' \<in> set args \<or> tcp_addrs c' = tcp_addrs c) \<and>
     (''--no-token-check'' \<in> set args \<or> check_token (cli_config c') = check_token (cli_config c)) \<and>
     (''--log-full-ip'' \<in> set args \<or> log_full_ip (cli_config c') = log_full_ip (cli_config c))"

lemma keeps_trans: "keeps xs c c' \<Longrightarrow> keeps ys c' c'' \<Longrightarrow> keeps (xs @ ys) c c''"
  by (auto simp: keeps_def)

lemma keeps_more: "keeps xs c c' \<Longrightarrow> set xs \<subseteq> set ys \<Longrightarrow> keeps ys c c'"
  by (auto simp: keeps_def)

lemma keeps_refl [simp]: "keeps xs c c"
  by (simp add: keeps_def)

lemma value_option_keeps:
  assumes "value_option pl a = Some f" and "f v c = Inr c'"
  shows "keeps [a] c c'"
  using assms unfolding value_option_def if_Some_iff
  by (elim disjE conjE)
    (auto simp: keeps_def upd_config_def split: option.splits)

lemma plain_option_keeps: "plain_option a = Some g \<Longrightarrow> keeps [a] c (g c)"
  unfolding plain_option_def if_Some_iff
  by (elim disjE conjE) (auto simp: keeps_def upd_config_def)

lemma plain_option_tls: "plain_option a = Some g \<Longrightarrow> tls_addrs (g c) = tls_addrs c"
  unfolding plain_option_def if_Some_iff
  by (elim disjE conjE) (auto simp: upd_config_def)

lemma parse_args_keeps: "parse_args pl c args = Run c' \<Longrightarrow> keeps args c c'"
proof (induction pl c args rule: parse_args.induct)
  case (1 pl c)
  then show ?case by (auto simp: keeps_def split: if_splits)
next
  case (2 pl c a rest)
  show ?case
  proof (cases "value_option pl a")
    case (Some f)
    show ?thesis
    proof (cases rest)
      case Nil
      have "keeps [] c c'" using "2.IH"(2) [OF Some Nil] "2.prems" Some Nil by simp
      then show ?thesis by (rule keeps_more) simp
    next
      case (Cons v rest')
      with "2.prems" Some obtain c1 where f: "f v c = Inr c1" and "parse_args pl c1 rest' = Run c'"
        by (auto split: sum.splits)
      with "2.IH"(3) [OF Some Cons f] have "keeps rest' c1 c'" by simp
      from keeps_trans [OF value_option_keeps [OF Some f] this] show ?thesis
        by (rule keeps_more) (auto simp: Cons)
    qed
  next
    case None
    with "2.prems" obtain g where g: "plain_option a = Some g" and r: "parse_args pl (g c) rest = Run c'"
      by (auto split: option.splits if_splits)
    from keeps_trans [OF plain_option_keeps [OF g] "2.IH"(1) [OF None g r]] show ?thesis
      by (rule keeps_more) auto
  qed
qed

lemma parse_args_tls: "parse_args pl c args = Run c' \<Longrightarrow> tls_addrs c' \<noteq> []"
  by (induction pl c args rule: parse_args.induct)
    (auto simp: default_tls_addrs_def split: option.splits list.splits sum.splits if_splits)

section \<open>The help text\<close>

text \<open>The lines \<open>print_help\<close> prints; after them it prints an empty line.\<close>

definition TAB :: string where
  "TAB = [CHR 0x09]"

definition QUOTE :: string where
  "QUOTE = [CHR 0x22]"

definition help_lines :: "string list" where
  "help_lines =
     [''rmbtd '' @ [CHR 0xE2, CHR 0x80, CHR 0x94] @ '' RMBT network measurement server'',
      [],
      ''USAGE:'',
      TAB @ ''rmbtd [OPTIONS]'',
      [],
      ''OPTIONS:'',
      TAB @ ''-l ADDRESS   TCP listen address  (no default; TCP disabled unless specified)'',
      TAB @ ''-L ADDRESS   TLS listen address  (default: [::]:443 and 0.0.0.0:443)'',
      TAB @ ''-c PATH      TLS certificate file (PEM)'',
      TAB @ ''-k PATH      TLS private key file (PEM)'',
      TAB @ ''--tls13-only Restrict TLS to version 1.3 (reject TLS 1.2)'',
      TAB @ ''--hsts       Send an HSTS header (Strict-Transport-Security: max-age=31536000) on TLS responses'',
      TAB @ ''-S PATH      Secret key file (default: secret.key)'',
      TAB @ ''-t N         Worker thread count  (default: 200)'',
      TAB @ ''--no-token-check  Accept all measurement tokens without HMAC verification (testing/debugging only; /ip still checks tokens)'',
      TAB @ ''--v2-only    Accept only v2 tokens (SHA256, IP+time bound); reject legacy v1 tokens'',
      TAB @ ''-log LEVEL   Log level: info | debug | trace'',
      TAB @ ''--syslog ADDRESS  Send structured per-connection events as UDP RFC 5424 to ADDRESS (IP or IP:port; port default 514)'',
      TAB @ ''--log-full-ip  Log the full client IP (default: anonymised, last octet dropped for IPv4, past /48 for IPv6)'',
      TAB @ ''-h, --help   Show this help'',
      TAB @ ''-v, --version Print version'',
      [],
      ''ADDRESS examples: '' @ QUOTE @ ''443'' @ QUOTE @ '', '' @ QUOTE @ ''0.0.0.0:443'' @ QUOTE @ '', '' @ QUOTE @ ''[::]:443'' @ QUOTE]"

text \<open>
  Every option the parser knows is explained by a line of the help text, but for \<open>-s\<close>, which is
  kept for old start scripts and does nothing.
\<close>

definition explains :: "string \<Rightarrow> string \<Rightarrow> bool" where
  "explains a l \<longleftrightarrow>
     starts_with (TAB @ a @ '' '') l \<or> starts_with (TAB @ a @ '','') l \<or>
     starts_with ('', '' @ a @ '' '') (drop 3 l)"

lemma help_explains:
  "list_all (\<lambda>a. list_ex (explains a) help_lines)
     [''-l'', ''-L'', ''-c'', ''-k'', ''--tls13-only'', ''--hsts'', ''-S'', ''-t'', ''--no-token-check'',
      ''--v2-only'', ''-log'', ''--syslog'', ''--log-full-ip'', ''-h'', ''--help'', ''-v'', ''--version'']"
  by (simp add: help_lines_def explains_def starts_with_def TAB_def QUOTE_def)

lemma every_option_explained:
  assumes "value_option pl a = Some f \<or> plain_option a = Some g"
  shows "a = ''-s'' \<or> list_ex (explains a) help_lines"
proof -
  have "a \<in> set [''-l'', ''-L'', ''-c'', ''-k'', ''--tls13-only'', ''--hsts'', ''-S'', ''-t'',
      ''--no-token-check'', ''--v2-only'', ''-log'', ''--syslog'', ''--log-full-ip'', ''-s'']"
    using assms unfolding value_option_def plain_option_def if_Some_iff
    by (elim disjE conjE) simp_all
  then show ?thesis using help_explains by (auto simp: list_all_iff)
qed

section \<open>Properties\<close>



text \<open>
  C40: no useless key. Whatever the key file contains, the keys read from it are never the empty
  string, which would authenticate every token, and never contain a space; and a file without a
  key is an error.
\<close>

theorem loaded_keys_usable:
  assumes "read_secret_keys path content = Inr keys"
  shows "keys \<noteq> [] \<and> list_all (\<lambda>k. sk_key k \<noteq> [] \<and> CHR '' '' \<notin> set (sk_key k)) keys"
  using assms key_line_usable
  by (auto simp: read_secret_keys_def Let_def list_all_iff List.map_filter_def split: sum.splits if_splits)

theorem loaded_keys_usable_witness:
  "read_secret_keys ''secret.key'' (Inr ''topsecret prod'') =
     Inr [\<lparr>sk_key = ''topsecret'', sk_label = ''prod''\<rparr>] \<and> ''topsecret'' \<noteq> []"
proof -
  have "trim ''topsecret prod'' = ''topsecret prod''" by (rule trim_ink) (simp_all add: ink_def)
  moreover have "trim ''prod'' = ''prod''" by (rule trim_ink) (simp_all add: ink_def)
  moreover have "split_once '' '' ''topsecret prod'' = Some (''topsecret'', ''prod'')"
    by (simp add: strip_prefix_def starts_with_def)
  ultimately have k: "read_secret_keys ''secret.key'' (Inr ''topsecret prod'') =
      Inr [\<lparr>sk_key = ''topsecret'', sk_label = ''prod''\<rparr>]"
    by (simp add: read_secret_keys_def str_lines_def key_line_def starts_with_def List.map_filter_def)
  with loaded_keys_usable [OF k] show ?thesis by simp
qed

end
