(* ===== verification/Rmbt_Log.thy ===== *)
theory Rmbt_Log
  imports Rmbt_Token
begin

text \<open>
  The local log: the logger (\<open>src/src/logger/mod.rs\<close>), and the records the validation of tokens
  writes (\<open>src/src/protocol/token.rs\<close>). The other theories leave the records out; here the
  functions of the token module are translated once more with them, as functions that return
  their value together with the records, and it is shown that the values are those of
  \<open>Rmbt_Token\<close>, and which records an operator sees.
\<close>

section \<open>The logger\<close>

text \<open>
  \<open>logger::init\<close>: the level filter, the format of a line and the error of an installation that
  fails. The timestamp is the text \<open>chrono\<close> gives; \<open>{:<5}\<close> pads the name of the level to five
  characters. \<open>logger_line\<close> is \<open>None\<close> for a record that is not logged. Installing the logger
  (\<open>try_init\<close> of \<open>env_logger\<close>) is the parameter \<open>try_init\<close>, which gives its error, if any.
\<close>

fun level_name :: "level_filter \<Rightarrow> string" where
  "level_name Off = ''OFF''"
| "level_name Error = ''ERROR''"
| "level_name Warn = ''WARN''"
| "level_name Info = ''INFO''"
| "level_name Debug = ''DEBUG''"
| "level_name Trace = ''TRACE''"

definition pad_right :: "nat \<Rightarrow> string \<Rightarrow> string" where
  "pad_right n s = s @ replicate (n - length s) (CHR '' '')"

definition logger_line :: "level_filter \<Rightarrow> string \<Rightarrow> level_filter \<Rightarrow> string \<Rightarrow> string option" where
  "logger_line filter_level ts level msg =
     (if level \<noteq> Off \<and> level \<le> filter_level
      then Some (ts @ '' ['' @ pad_right 5 (level_name level) @ ''] '' @ msg @ [CHR 0x0A])
      else None)"

definition logger_init :: "(level_filter \<Rightarrow> string option) \<Rightarrow> level_filter \<Rightarrow> string + unit" where
  "logger_init try_init level =
     (case try_init level of
        None \<Rightarrow> Inr ()
      | Some e \<Rightarrow> Inl (''logger init failed: '' @ e))"

lemma logger_silent_when_off: "logger_line Off ts level msg = None"
  by (cases level) (simp_all add: logger_line_def less_eq_level_filter_def)

section \<open>Records\<close>

text \<open>A value with the records written on the way to it.\<close>

type_synonym log_record = "level_filter \<times> string"
type_synonym 'a logged = "'a \<times> log_record list"

definition silent :: "'a \<Rightarrow> 'a logged" where
  "silent a = (a, [])"

definition say :: "level_filter \<Rightarrow> string \<Rightarrow> 'a logged \<Rightarrow> 'a logged" where
  "say level msg r = (fst r, (level, msg) # snd r)"

definition and_then :: "'a logged \<Rightarrow> ('a \<Rightarrow> 'b logged) \<Rightarrow> 'b logged" where
  "and_then r f = (fst (f (fst r)), snd r @ snd (f (fst r)))"

definition visible :: "level_filter \<Rightarrow> 'a logged \<Rightarrow> log_record list" where
  "visible flt r = filter (\<lambda>(level, _). level \<le> flt) (snd r)"

definition log_output :: "level_filter \<Rightarrow> string \<Rightarrow> 'a logged \<Rightarrow> string list" where
  "log_output flt ts r = List.map_filter (\<lambda>(level, msg). logger_line flt ts level msg) (snd r)"

definition conn_tag :: "nat \<Rightarrow> string" where
  "conn_tag conn_id = ''[conn '' @ nat_to_string conn_id @ ''] ''"

definition quoted :: "string \<Rightarrow> string" where
  "quoted s = CHR 0x27 # s @ [CHR 0x27]"

lemma fst_logged [simp]:
  "fst (silent a) = a" "fst (say l m r) = fst r" "fst (and_then r f) = fst (f (fst r))"
  by (simp_all add: silent_def say_def and_then_def)

lemma visible_logged [simp]:
  "visible flt (silent a) = []"
  "visible flt (say l m r) = (if l \<le> flt then (l, m) # visible flt r else visible flt r)"
  "visible flt (and_then r f) = visible flt r @ visible flt (f (fst r))"
  by (simp_all add: visible_def silent_def say_def and_then_def)

lemma level_less_eq [simp]:
  "Error \<le> Info" "Info \<le> Info" "\<not> Debug \<le> Info"
  by (simp_all add: less_eq_level_filter_def)

section \<open>The token module with its records\<close>

definition window_check_logged :: "nat \<Rightarrow> i64 \<Rightarrow> i64 \<Rightarrow> (token_result + i64) logged" where
  "window_check_logged conn_id start_time now =
     (let seconds_early = start_time - now; seconds_late = now - start_time
      in if seconds_early > MAX_ACCEPT_EARLY then
           (let reason = ''token not valid yet: client is '' @ int_to_string seconds_early @
                         ''s early (max '' @ int_to_string MAX_ACCEPT_EARLY @ '')''
            in say Error (conn_tag conn_id @ ''token rejected: '' @ reason)
                 (silent (Inl (TooEarly reason))))
         else if seconds_late > MAX_ACCEPT_LATE then
           (let reason = ''token expired: client is '' @ int_to_string seconds_late @
                         ''s late (max '' @ int_to_string MAX_ACCEPT_LATE @ '')''
            in say Error (conn_tag conn_id @ ''token rejected: '' @ reason)
                 (silent (Inl (TooLate reason))))
         else silent (Inr seconds_early))"

definition time_window_logged :: "nat \<Rightarrow> i64 \<Rightarrow> i64 \<Rightarrow> string \<Rightarrow> token_result logged" where
  "time_window_logged conn_id start_time now label =
     and_then (window_check_logged conn_id start_time now) (\<lambda>w. case w of
       Inl rejected \<Rightarrow> silent rejected
     | Inr seconds_early \<Rightarrow>
         if seconds_early > 0 then
           say Debug (conn_tag conn_id @ ''client is '' @ int_to_string seconds_early @
                      ''s early; will sleep'')
             (silent (Accepted (nat seconds_early) label))
         else silent (Accepted 0 label))"

definition match_v1_logged ::
    "crypto \<Rightarrow> nat \<Rightarrow> string \<Rightarrow> secret_key list \<Rightarrow>
     (token_result + string \<times> i64 \<times> secret_key) logged" where
  "match_v1_logged C conn_id raw_token keys =
     (let parts = splitn 3 (CHR ''_'') raw_token
      in case parts of
           [uuid, ts_str, hmac_b64] \<Rightarrow>
             if length uuid \<noteq> 36 \<or> ts_str = [] \<or> 12 < length ts_str then
               say Debug (conn_tag conn_id @ ''token parse error: malformed uuid or timestamp'')
                 (silent (Inl ParseError))
             else
               (case parse_i64 ts_str of
                  None \<Rightarrow>
                    say Debug (conn_tag conn_id @ ''token parse error: invalid timestamp'')
                      (silent (Inl ParseError))
                | Some start_time \<Rightarrow>
                    (let message = uuid @ ''_'' @ ts_str
                     in case find (\<lambda>k. hmac_sha1_b64 C (as_bytes (sk_key k)) (as_bytes message)
                                         = hmac_b64) keys of
                          Some key \<Rightarrow> silent (Inr (uuid, start_time, key))
                        | None \<Rightarrow>
                            say Error (conn_tag conn_id @ ''token rejected: HMAC mismatch for uuid='' @ uuid)
                              (silent (Inl InvalidHmac))))
         | _ \<Rightarrow>
             say Debug (conn_tag conn_id @ ''token parse error: expected 3 parts, got '' @
                        nat_to_string (length parts))
               (silent (Inl ParseError)))"

definition validate_v1_logged ::
    "crypto \<Rightarrow> nat \<Rightarrow> string \<Rightarrow> secret_key list \<Rightarrow> i64 \<Rightarrow> token_result logged" where
  "validate_v1_logged C conn_id raw_token keys now =
     and_then (match_v1_logged C conn_id raw_token keys) (\<lambda>m. case m of
       Inr (_, start_time, key) \<Rightarrow>
         say Info (conn_tag conn_id @ ''v1 token HMAC accepted by key '' @ quoted (sk_label key))
           (time_window_logged conn_id start_time now (sk_label key))
     | Inl rejected \<Rightarrow> silent rejected)"

definition match_v2_logged ::
    "crypto \<Rightarrow> nat \<Rightarrow> bytes \<Rightarrow> secret_key \<Rightarrow> bytes \<Rightarrow> v2_match logged" where
  "match_v2_logged C conn_id bs key ip16 =
     (let time_bytes = take 4 bs; packet_hash = take 8 (drop 4 bs); ip_hash = take 4 (drop 12 bs);
          kb = as_bytes (sk_key key); own_packet = hmac_sha256 C kb [time_bytes];
          name = conn_tag conn_id @ ''v2 key '' @ quoted (sk_label key)
      in if take 8 own_packet \<noteq> packet_hash then
           say Debug (name @ '': time HMAC no match (own '' @ hex (take 8 own_packet) @ '')'')
             (silent TimeMismatch)
         else
           say Debug (name @ '': time HMAC matches'')
             (let own_ip = hmac_sha256 C kb [time_bytes, ip16]
              in if take 4 own_ip = ip_hash then
                   say Debug (name @ '': ip HMAC matches (own '' @ hex (take 4 own_ip) @ '')'')
                     (silent MatchOk)
                 else
                   say Debug (name @ '': ip HMAC MISMATCH (own '' @ hex (take 4 own_ip) @
                              '' token '' @ hex ip_hash @ '')'')
                     (silent IpMismatch)))"

text \<open>The loop over the keys and the refusals after it.\<close>

fun match_keys_v2_logged ::
    "crypto \<Rightarrow> nat \<Rightarrow> bytes \<Rightarrow> ip_addr \<Rightarrow> secret_key list \<Rightarrow> (token_result + string) logged" where
  "match_keys_v2_logged C conn_id bs ip [] =
     say Error (conn_tag conn_id @ ''v2 token rejected: HMAC mismatch'') (silent (Inl InvalidHmac))"
| "match_keys_v2_logged C conn_id bs ip (key # keys) =
     and_then (match_v2_logged C conn_id bs key (mapped_ipv6 ip)) (\<lambda>m. case m of
       TimeMismatch \<Rightarrow> match_keys_v2_logged C conn_id bs ip keys
     | IpMismatch \<Rightarrow>
         say Error (conn_tag conn_id @ ''v2 token rejected: source IP '' @ ip_to_string ip @
                    '' does not match token'')
           (silent (Inl InvalidIp))
     | MatchOk \<Rightarrow> silent (Inr (sk_label key)))"

definition validate_v2_logged ::
    "crypto \<Rightarrow> nat \<Rightarrow> string \<Rightarrow> secret_key list \<Rightarrow> ip_addr option \<Rightarrow> (nat \<Rightarrow> i64) \<Rightarrow>
     token_result logged" where
  "validate_v2_logged C conn_id raw keys source_ip wall =
     (case b64_decode C raw of
        None \<Rightarrow>
          say Debug (conn_tag conn_id @ ''v2 token parse error: not valid base64'') (silent ParseError)
      | Some bs \<Rightarrow>
          if length bs \<noteq> 16 then
            say Debug (conn_tag conn_id @ ''v2 token parse error: '' @ nat_to_string (length bs) @
                       '' bytes (expected 16)'') (silent ParseError)
          else
            say Debug (conn_tag conn_id @ ''v2 token: time='' @ hex (take 4 bs) @ '' packet_hash='' @
                       hex (take 8 (drop 4 bs)) @ '' ip_hash='' @ hex (take 4 (drop 12 bs)))
            (case source_ip of
               None \<Rightarrow>
                 say Error (conn_tag conn_id @ ''v2 token rejected: source IP unavailable'')
                   (silent InvalidIp)
             | Some ip \<Rightarrow>
                 say Debug (conn_tag conn_id @ ''v2 source ip '' @ ip_to_string ip @ '' (mapped '' @
                            hex (mapped_ipv6 ip) @ '')'')
                 (and_then (match_keys_v2_logged C conn_id bs ip keys) (\<lambda>m. case m of
                    Inl rejected \<Rightarrow> silent rejected
                  | Inr label \<Rightarrow>
                      say Info (conn_tag conn_id @ ''v2 token HMAC+IP accepted by key '' @ quoted label)
                      (let time_u32 = from_be_bytes (take 4 bs); now = wall 0;
                           start_time = reconstruct_time time_u32 now
                       in say Debug (conn_tag conn_id @ ''v2 token time: u32='' @
                                     nat_to_string (unat time_u32) @ '' reconstructed='' @
                                     int_to_string start_time @ '' now='' @ int_to_string now @
                                     '' (early '' @ int_to_string (start_time - now) @ ''s)'')
                          (time_window_logged conn_id start_time (wall 1) label))))))"

definition validate_token_logged ::
    "crypto \<Rightarrow> nat \<Rightarrow> string \<Rightarrow> secret_key list \<Rightarrow> ip_addr option \<Rightarrow> bool \<Rightarrow> (nat \<Rightarrow> i64) \<Rightarrow>
     token_result logged" where
  "validate_token_logged C conn_id raw_token keys source_ip only_v2 wall =
     (case extract_v2 raw_token of
        Some v2_b64 \<Rightarrow> validate_v2_logged C conn_id v2_b64 keys source_ip wall
      | None \<Rightarrow>
          if only_v2 then
            say Error (conn_tag conn_id @ ''token rejected: no v2 part (#v2# marker) '' @
                       ''and server is in v2-only mode'') (silent V2Required)
          else validate_v1_logged C conn_id raw_token keys (wall 0))"

definition check_ip_token_logged ::
    "crypto \<Rightarrow> nat \<Rightarrow> string \<Rightarrow> secret_key list \<Rightarrow> ip_addr \<Rightarrow> i64 \<Rightarrow> (token_result + ip_token) logged"
  where
  "check_ip_token_logged C conn_id raw_token keys source_ip now =
     (let (v1, v2) = (case split_once (''_'' @ V2_MARK) raw_token of
                        Some (v1, v2) \<Rightarrow> (v1, Some v2)
                      | None \<Rightarrow> (raw_token, None))
      in and_then (match_v1_logged C conn_id v1 keys) (\<lambda>m. case m of
           Inl rejected \<Rightarrow> silent (Inl rejected)
         | Inr (uuid, start_time, key) \<Rightarrow>
             and_then (window_check_logged conn_id start_time now) (\<lambda>w. case w of
               Inl rejected \<Rightarrow> silent (Inl rejected)
             | Inr _ \<Rightarrow>
                 and_then
                   (case v2 of
                      None \<Rightarrow> silent False
                    | Some b64 \<Rightarrow>
                        (case b64_decode C b64 of
                           None \<Rightarrow> silent False
                         | Some bs \<Rightarrow>
                             if length bs = 16 then
                               and_then (match_v2_logged C conn_id bs key (mapped_ipv6 source_ip))
                                 (\<lambda>r. silent (r = MatchOk))
                             else silent False))
                   (\<lambda>matching.
                     say Info (conn_tag conn_id @ ''ip check token accepted by key '' @
                               quoted (sk_label key) @ ''; matching_ip='' @
                               (if matching then ''true'' else ''false''))
                       (silent (Inr \<lparr>it_key = key, open_test_uuid = uuid,
                                     matching_ip = matching\<rparr>))))))"

section \<open>Logging changes no result\<close>

lemma window_logged [simp]:
  "fst (window_check_logged n st now) = window_check st now"
  "fst (time_window_logged n st now l) = time_window st now l"
  by (simp_all add: window_check_logged_def window_check_def time_window_logged_def time_window_def
      Let_def split: sum.split)

lemma match_v1_logged_fst [simp]: "fst (match_v1_logged C n raw keys) = match_v1 C raw keys"
  unfolding match_v1_logged_def match_v1_def Let_def by (auto split: list.split option.split)

lemma match_v2_logged_fst [simp]: "fst (match_v2_logged C n bs k ip16) = match_v2 C bs k ip16"
  by (simp add: match_v2_logged_def match_v2_def Let_def)

lemma match_keys_v2_logged_fst [simp]:
  "fst (match_keys_v2_logged C n bs ip keys) = match_keys_v2 C bs (mapped_ipv6 ip) keys"
  by (induction keys) (simp_all split: v2_match.split)

lemma validate_logged_fst [simp]:
  "fst (validate_v1_logged C n raw keys now) = validate_v1 C raw keys now"
  "fst (validate_v2_logged C n raw keys src wall) = validate_v2 C raw keys src wall"
  by (auto simp: validate_v1_logged_def validate_v1_def validate_v2_logged_def validate_v2_def
      authenticate_v2_def Let_def split: sum.split option.split)

lemma validate_token_logged_fst:
  "fst (validate_token_logged C n raw keys src v2o wall) = validate_token C raw keys src v2o wall"
  by (simp add: validate_token_logged_def validate_token_def split: option.split)

lemma check_ip_token_logged_fst:
  "fst (check_ip_token_logged C n raw keys src now) = check_ip_token C raw keys src now"
  by (auto simp: check_ip_token_logged_def check_ip_token_def Let_def
      split: sum.split option.split prod.split)

section \<open>What an operator sees\<close>

text \<open>
  The label of the key a token authenticates under, and the records of one validation at the
  level \<open>info\<close> and above. They mention the key only by its label.
\<close>

definition auth_label :: "crypto \<Rightarrow> string \<Rightarrow> secret_key list \<Rightarrow> ip_addr option \<Rightarrow> string" where
  "auth_label C raw keys src =
     (case extract_v2 raw of
        Some b64 \<Rightarrow> (case authenticate_v2 C b64 keys src of Inr (_, l) \<Rightarrow> l | Inl _ \<Rightarrow> [])
      | None \<Rightarrow> (case match_v1 C raw keys of Inr (_, _, k) \<Rightarrow> sk_label k | Inl _ \<Rightarrow> []))"

definition accepted_text :: "string \<Rightarrow> string \<Rightarrow> string" where
  "accepted_text raw l =
     (if extract_v2 raw = None then ''v1 token HMAC accepted by key '' @ quoted l
      else ''v2 token HMAC+IP accepted by key '' @ quoted l)"

definition hmac_text :: "string \<Rightarrow> string" where
  "hmac_text raw =
     (if extract_v2 raw = None
      then ''token rejected: HMAC mismatch for uuid='' @ hd (splitn 3 (CHR ''_'') raw)
      else ''v2 token rejected: HMAC mismatch'')"

definition address_text :: "ip_addr option \<Rightarrow> string" where
  "address_text src =
     (case src of
        None \<Rightarrow> ''v2 token rejected: source IP unavailable''
      | Some ip \<Rightarrow> ''v2 token rejected: source IP '' @ ip_to_string ip @ '' does not match token'')"

fun audit :: "string \<Rightarrow> ip_addr option \<Rightarrow> string \<Rightarrow> token_result \<Rightarrow> log_record list" where
  "audit raw src l (Accepted _ _) = [(Info, accepted_text raw l)]"
| "audit raw src l (TooEarly why) = [(Info, accepted_text raw l), (Error, ''token rejected: '' @ why)]"
| "audit raw src l (TooLate why) = [(Info, accepted_text raw l), (Error, ''token rejected: '' @ why)]"
| "audit raw src l InvalidHmac = [(Error, hmac_text raw)]"
| "audit raw src l InvalidIp = [(Error, address_text src)]"
| "audit raw src l V2Required =
     [(Error, ''token rejected: no v2 part (#v2# marker) and server is in v2-only mode'')]"
| "audit raw src l ParseError = []"

definition tagged :: "nat \<Rightarrow> log_record list \<Rightarrow> log_record list" where
  "tagged n = map (map_prod id (\<lambda>m. conn_tag n @ m))"

lemma tagged_simps [simp]:
  "tagged n [] = []" "tagged n ((l, m) # rs) = (l, conn_tag n @ m) # tagged n rs"
  by (simp_all add: tagged_def)

lemma visible_window:
  "(Info, conn_tag n @ accepted_text raw l) # visible Info (time_window_logged n st now l) =
     tagged n (audit raw src l (time_window st now l))"
  by (simp add: time_window_logged_def time_window_def window_check_logged_def window_check_def Let_def)

lemma visible_match_v1:
  assumes "extract_v2 raw = None"
  shows "visible Info (match_v1_logged C n raw keys) =
    (case match_v1 C raw keys of Inl rejected \<Rightarrow> tagged n (audit raw src l rejected) | Inr _ \<Rightarrow> [])"
  unfolding match_v1_logged_def match_v1_def Let_def
  by (auto simp: hmac_text_def assms split: list.split option.split)

lemma visible_match_v2: "visible Info (match_v2_logged C n bs k ip16) = []"
  by (simp add: match_v2_logged_def Let_def)

lemma visible_match_keys_v2:
  assumes "extract_v2 raw \<noteq> None"
  shows "visible Info (match_keys_v2_logged C n bs ip keys) =
    (case match_keys_v2 C bs (mapped_ipv6 ip) keys of
       Inl rejected \<Rightarrow> tagged n (audit raw (Some ip) l rejected) | Inr _ \<Rightarrow> [])"
  by (induction keys)
    (simp_all add: visible_match_v2 hmac_text_def address_text_def assms split: v2_match.split)

lemma visible_validate_v1:
  assumes "extract_v2 raw = None"
  shows "visible Info (validate_v1_logged C n raw keys now) =
    tagged n (audit raw src (auth_label C raw keys src) (validate_v1 C raw keys now))"
proof (cases "match_v1 C raw keys")
  case (Inl rejected)
  then show ?thesis
    by (simp add: validate_v1_logged_def validate_v1_def 
        visible_match_v1 [OF assms, where src = src and l = "auth_label C raw keys src"])
next
  case (Inr m)
  then obtain uuid st k where "match_v1 C raw keys = Inr (uuid, st, k)" by (cases m) auto
  then show ?thesis
    using visible_window [of n raw "sk_label k" st now src]
    by (simp add: validate_v1_logged_def validate_v1_def auth_label_def accepted_text_def assms
        visible_match_v1 [OF assms, where src = src and l = "[]"])
qed

lemma visible_validate_v2:
  assumes "extract_v2 raw = Some b64"
  shows "visible Info (validate_v2_logged C n b64 keys src wall) =
    tagged n (audit raw src (auth_label C raw keys src) (validate_v2 C b64 keys src wall))"
proof -
  have v2: "extract_v2 raw \<noteq> None" using assms by simp
  show ?thesis
    using visible_window [where raw = raw and src = src]
    by (auto simp: validate_v2_logged_def validate_v2_def authenticate_v2_def auth_label_def Let_def
        assms accepted_text_def address_text_def visible_match_keys_v2 [OF v2, where l = "[]"]
        split: option.split sum.split)
qed

text \<open>
  C28: what the log says about a token. Logging changes no result of the validation and of the
  address check. At the level \<open>info\<close> the records of a validation are determined by its result,
  the token's first field, the source address and the label of the authenticating key, whatever
  the secret keys: an accepted token leaves one record with the key's label, a token that
  authenticates but is outside the time window that record and an error, an unreadable token
  none, and every other refusal one error, each with the number of the connection. The error
  for a token of another address shows the client's address in full, also when the
  configuration asks for anonymised addresses.
\<close>

theorem validation_log:
  "fst (validate_token_logged C n raw keys src v2o wall) = validate_token C raw keys src v2o wall \<and>
   fst (check_ip_token_logged C n raw keys ip now) = check_ip_token C raw keys ip now \<and>
   visible Info (validate_token_logged C n raw keys src v2o wall) =
     tagged n (audit raw src (auth_label C raw keys src) (validate_token C raw keys src v2o wall))"
  by (intro conjI validate_token_logged_fst check_ip_token_logged_fst, cases "extract_v2 raw")
    (simp_all add: validate_token_logged_def validate_token_def visible_validate_v1 visible_validate_v2)

end
