(* ===== verification/Rmbt_Main.thy ===== *)
theory Rmbt_Main
  imports Rmbt_Pool Rmbt_Cli Rmbt_Log
begin

text \<open>
  The process (\<open>src/src/main.rs\<close>) from its arguments to the running server, and the build
  script (\<open>src/build.rs\<close>) that fixes the version and the branch. The environment of the process
  is the record \<open>host\<close>; what \<open>git\<close> and the environment variables say at build time are
  arguments of the build functions.
\<close>

section \<open>The build script\<close>

definition env_override :: "string option \<Rightarrow> string option" where
  "env_override var =
     (case map_option trim var of
        Some v \<Rightarrow> if v \<noteq> [] then Some v else None
      | None \<Rightarrow> None)"

text \<open>The output of a command: whether it succeeded, and its standard output.\<close>

type_synonym command_output = "(bool \<times> bytes) option"

definition stdout_text :: "command_output \<Rightarrow> string option" where
  "stdout_text out =
     (case out of
        None \<Rightarrow> None
      | Some (success, stdout) \<Rightarrow>
          if \<not> success then None else map_option trim (from_utf8 stdout))"

definition git_branch :: "command_output \<Rightarrow> string option" where
  "git_branch out =
     (case stdout_text out of
        Some b \<Rightarrow> if b \<noteq> [] \<and> b \<noteq> ''HEAD'' then Some b else None
      | None \<Rightarrow> None)"

definition git_describe :: "command_output \<Rightarrow> string option" where
  "git_describe out =
     (case stdout_text out of
        Some v \<Rightarrow> if v \<noteq> [] then Some v else None
      | None \<Rightarrow> None)"

definition or_else :: "'a option \<Rightarrow> 'a option \<Rightarrow> 'a option" where
  "or_else a b = (case a of Some x \<Rightarrow> Some x | None \<Rightarrow> b)"

definition unwrap_or :: "'a \<Rightarrow> 'a option \<Rightarrow> 'a" where
  "unwrap_or d a = (case a of Some x \<Rightarrow> x | None \<Rightarrow> d)"

definition build_version :: "string option \<Rightarrow> command_output \<Rightarrow> string \<Rightarrow> string" where
  "build_version var describe pkg_version =
     (let version = unwrap_or pkg_version (or_else (env_override var) (git_describe describe))
      in unwrap_or version (strip_prefix ''v'' version))"

definition build_branch :: "string option \<Rightarrow> command_output \<Rightarrow> string" where
  "build_branch var rev_parse = unwrap_or [] (or_else (env_override var) (git_branch rev_parse))"

definition build_main ::
    "string option \<Rightarrow> string option \<Rightarrow> command_output \<Rightarrow> command_output \<Rightarrow> string \<Rightarrow> string list" where
  "build_main version_var branch_var describe rev_parse pkg_version =
     [''cargo:rustc-env=RMBTD_VERSION='' @ build_version version_var describe pkg_version,
      ''cargo:rustc-env=RMBTD_BRANCH='' @ build_branch branch_var rev_parse,
      ''cargo:rerun-if-env-changed=RMBTD_VERSION'',
      ''cargo:rerun-if-env-changed=RMBTD_BRANCH'',
      ''cargo:rerun-if-changed=.git/HEAD'',
      ''cargo:rerun-if-changed=.git/refs/tags'']"

section \<open>The process\<close>

text \<open>
  \<open>h_runtime\<close> tells whether \<open>tokio\<close> can create its runtime (\<open>Runtime::new\<close>); \<open>h_parse_level\<close> and
  \<open>h_try_init\<close> (the error of installing a logger, if any) belong to \<open>log\<close> and \<open>env_logger\<close>;
  \<open>h_udp_bind\<close> and \<open>h_udp_connect\<close> are the socket calls of \<open>EventSink::new\<close>.
\<close>

record 'c host =
  h_runtime :: bool
  h_parse_level :: "string \<Rightarrow> level_filter option"
  h_try_init :: "level_filter \<Rightarrow> string option"
  h_udp_bind :: "socket_addr \<Rightarrow> string + unit"
  h_udp_connect :: "socket_addr \<Rightarrow> string + unit"
  h_HOSTNAME :: "string option"
  h_COMPUTERNAME :: "string option"
  h_pid :: u32
  h_os :: os
  h_tls :: "'c tls_env"
  h_tls_conn :: "'c \<Rightarrow> string + unit"
  h_version :: string

text \<open>
  How the start ends: the process exits with a code, it panics, or the server is up, with the
  startup event sent (its timestamp is still open).
\<close>

datatype launch = ExitWith nat | Crash | Serving running "(string \<Rightarrow> string) option"

definition open_sink :: "'c host \<Rightarrow> config \<Rightarrow> string + event_sink option" where
  "open_sink H cfg =
     (case syslog_target cfg of
        None \<Rightarrow> Inr None
      | Some target \<Rightarrow>
          map_sum id Some
            (sink_new (h_udp_bind H) (h_udp_connect H) (hostname_of (h_HOSTNAME H) (h_COMPUTERNAME H))
               (h_pid H) target))"

definition start_server :: "'c host \<Rightarrow> cli \<Rightarrow> event_sink option \<Rightarrow> launch" where
  "start_server H c sink =
     (case server_new (h_os H) (h_tls H) (h_tls_conn H) (cli_config c) (tcp_addrs c) (tls_addrs c) sink of
        StartFailed e \<Rightarrow> ExitWith 1
      | SpawnPanic w \<Rightarrow> Crash
      | Started rn \<Rightarrow>
          Serving rn
            (map_option (\<lambda>k. startup_event k (h_version H) (num_workers (cli_config c))
                (length (rn_tcp rn)) (length (rn_tls rn))) sink))"

definition init_logging :: "'c host \<Rightarrow> config \<Rightarrow> string + unit" where
  "init_logging H cfg =
     (if log_level cfg \<noteq> Off then logger_init (h_try_init H) (log_level cfg) else Inr ())"

definition launch_run :: "'c host \<Rightarrow> string list \<Rightarrow> launch" where
  "launch_run H args =
     (case parse_cli (h_parse_level H) args of
        Fail e \<Rightarrow> ExitWith 1
      | ExitFailure a \<Rightarrow> ExitWith 1
      | PrintAndExit \<Rightarrow> ExitWith 0
      | Run c \<Rightarrow>
          (case init_logging H (cli_config c) of
             Inl e \<Rightarrow> ExitWith 1
           | Inr _ \<Rightarrow>
               (case open_sink H (cli_config c) of
                  Inl e \<Rightarrow> ExitWith 1
                | Inr sink \<Rightarrow> start_server H c sink)))"

definition launch_main :: "'c host \<Rightarrow> string list \<Rightarrow> launch" where
  "launch_main H args = (if \<not> h_runtime H then Crash else launch_run H args)"

text \<open>
  The end of \<open>run\<close> when \<open>Server::run\<close> has returned: \<open>Some\<close> of whether it succeeded, \<open>None\<close> for a
  panic; and the exit code \<open>main\<close> makes of it (101 is that of a panic).
\<close>

definition run_end :: "unit res \<Rightarrow> bool option" where
  "run_end r = (case r of Ok _ \<Rightarrow> Some True | Err e \<Rightarrow> Some False | Panic p \<Rightarrow> None)"

definition exit_code :: "bool option \<Rightarrow> nat" where
  "exit_code r = (case r of Some ok \<Rightarrow> if \<not> ok then 1 else 0 | None \<Rightarrow> 101)"

lemma launch_main_Serving:
  assumes "launch_main H args = Serving rn ev"
  obtains c sink where "parse_cli (h_parse_level H) args = Run c"
    "open_sink H (cli_config c) = Inr sink"
    "server_new (h_os H) (h_tls H) (h_tls_conn H) (cli_config c) (tcp_addrs c) (tls_addrs c) sink =
       Started rn"
  using assms
  by (auto simp: launch_main_def launch_run_def start_server_def
      split: cli_result.splits if_splits sum.splits start.splits)

lemma parse_cli_keeps:
  assumes "parse_cli pl args = Run c"
  shows "''-l'' \<in> set args \<or> tcp_addrs c = []"
    "''--no-token-check'' \<in> set args \<or> check_token (cli_config c)"
    "''--log-full-ip'' \<in> set args \<or> \<not> log_full_ip (cli_config c)"
  using parse_args_keeps [OF assms [unfolded parse_cli_def]]
  by (auto simp: keeps_def config_default_def)

subsection \<open>A concrete start\<close>

definition demo_host :: "tls_version list host" where
  "demo_host =
     \<lparr>h_runtime = True, h_parse_level = (\<lambda>_. None), h_try_init = (\<lambda>_. None), h_udp_bind = (\<lambda>_. Inr ()),
      h_udp_connect = (\<lambda>_. Inr ()), h_HOSTNAME = None, h_COMPUTERNAME = None, h_pid = 1,
      h_os = demo_os, h_tls = demo_tls, h_tls_conn = (\<lambda>_. Inr ()), h_version = ''1.9.0''\<rparr>"

definition demo_args :: "string list" where
  "demo_args = [''--no-token-check'', ''-c'', ''cert.pem'', ''-k'', ''key.pem'', ''--tls13-only'']"

lemma demo_parsed:
  "parse_cli pl demo_args =
     Run \<lparr>cli_config = config_default\<lparr>check_token := False, cert_path := Some ''cert.pem'',
            key_path := Some ''key.pem'', tls13_only := True\<rparr>,
          tcp_addrs = [], tls_addrs = default_tls_addrs\<rparr>"
  by (simp add: parse_cli_def demo_args_def value_option_def plain_option_def upd_config_def)

text \<open>On this host every configuration without token check starts.\<close>

lemma demo_os_starts:
  assumes "\<not> check_token cfg"
  shows "\<exists>rn. server_new demo_os E conn cfg tcp tls sink = Started rn \<and>
    ctx_tls (rn_ctx rn) = load_tls E conn cfg"
proof -
  have "bind_all demo_os b as = Inr (map Listener as)" for b as
    by (induction as) (simp_all add: bind_listener_def demo_os_def)
  moreover have "load_keys demo_os cfg = Inr []"
    using assms by (simp add: load_keys_def read_secret_keys_def demo_os_def)
  moreover have "find (\<lambda>w. \<not> os_spawn demo_os w) ws = None" for ws
    by (simp add: find_None_iff demo_os_def)
  ultimately show ?thesis
    by (cases "load_tls E conn cfg") (simp_all add: server_new_def spawn_workers_def Let_def)
qed

lemma demo_launched:
  assumes "parse_cli (h_parse_level demo_host) args = Run c" and "\<not> check_token (cli_config c)"
    and "log_level (cli_config c) = Off" and "syslog_target (cli_config c) = None"
  shows "\<exists>rn ev. launch_main demo_host args = Serving rn ev \<and>
    ctx_tls (rn_ctx rn) = load_tls demo_tls (\<lambda>_. Inr ()) (cli_config c)"
  using assms demo_os_starts [OF assms(2), of demo_tls "\<lambda>_. Inr ()" "tcp_addrs c" "tls_addrs c" None]
  by (auto simp: launch_main_def launch_run_def init_logging_def start_server_def open_sink_def
      demo_host_def)

section \<open>Properties\<close>

text \<open>
  C10: secure defaults. However the process is started, the running server listens for plain TCP
  only if \<open>-l\<close> was given; it checks tokens, and holds a key to check them with, unless
  \<open>--no-token-check\<close> was given; and the events of a connection, which are \<open>connect\<close>, possibly \<open>auth\<close>,
  and \<open>close\<close>, name the client by its anonymised address unless \<open>--log-full-ip\<close> was given. (The
  local log is another matter: its records about a token may show the full address.)
\<close>

theorem weakened_only_on_request:
  assumes "launch_main H args = Serving rn ev"
    and "clock_runs s" and "length (RANDOM_CHUNK (pf_fill P)) = MAX_CHUNK_SIZE"
  shows "(''-l'' \<in> set args \<or> rn_tcp rn = []) \<and>
     (''--no-token-check'' \<in> set args \<or>
        check_token (ctx_config (rn_ctx rn)) \<and> ctx_keys (rn_ctx rn) \<noteq> []) \<and>
     (''--log-full-ip'' \<in> set args \<or>
        (\<exists>s' fs. handle_connection P (rn_ctx rn) n tmo tcp addr is_tls s = Some (Ok (), s') \<and>
           se_frames s' = se_frames s @ fs \<and>
           (case ctx_sink (rn_ctx rn) of
              None \<Rightarrow> fs = []
            | Some k \<Rightarrow> event_log k n (anonymise_addr addr) is_tls fs)))"
proof -
  from assms(1) obtain c sink where c: "parse_cli (h_parse_level H) args = Run c"
    and n: "server_new (h_os H) (h_tls H) (h_tls_conn H) (cli_config c) (tcp_addrs c) (tls_addrs c) sink =
       Started rn" by (cases rule: launch_main_Serving)
  from n obtain keys where k: "load_keys (h_os H) (cli_config c) = Inr keys"
    and rn: "ctx_config (rn_ctx rn) = cli_config c" "ctx_keys (rn_ctx rn) = keys"
      "rn_tcp rn = map Listener (tcp_addrs c)"
    by (cases rule: server_new_Started) simp
  have "check_token (cli_config c) \<Longrightarrow> keys \<noteq> []"
    using k by (auto simp: load_keys_def read_secret_keys_def Let_def split: sum.splits if_splits)
  moreover have "''--log-full-ip'' \<in> set args \<or>
      (\<exists>s' fs. handle_connection P (rn_ctx rn) n tmo tcp addr is_tls s = Some (Ok (), s') \<and>
         se_frames s' = se_frames s @ fs \<and>
         (case ctx_sink (rn_ctx rn) of None \<Rightarrow> fs = [] | Some k \<Rightarrow> event_log k n (anonymise_addr addr) is_tls fs))"
  proof (cases "''--log-full-ip'' \<in> set args")
    case False
    with parse_cli_keeps(3) [OF c] have name: "client_name (ctx_config (rn_ctx rn)) addr = anonymise_addr addr"
      by (simp add: client_name_def rn(1))
    from handle_connection_outcome [OF assms(2,3), of "rn_ctx rn" n tmo tcp addr is_tls] show ?thesis
      unfolding connection_log_def name by (rule disjI2)
  qed simp
  ultimately show ?thesis using parse_cli_keeps(1,2) [OF c] rn by auto
qed

theorem weakened_only_on_request_witness:
  "\<exists>rn ev s'. launch_main demo_host demo_args = Serving rn ev \<and> rn_tcp rn = [] \<and>
     handle_connection demo_platform (rn_ctx rn) 1 True (demo_duplex [])
       (socket_addr_new (V4 (Ipv4Addr 192 0 2 7)) 40000) False (demo_session []) = Some (Ok (), s')"
proof -
  obtain rn ev where l: "launch_main demo_host demo_args = Serving rn ev"
    using demo_launched [OF demo_parsed] by (auto simp: config_default_def)
  have "''-l'' \<notin> set demo_args" "''--log-full-ip'' \<notin> set demo_args" by (simp_all add: demo_args_def)
  with weakened_only_on_request [OF l demo_session_facts(3) [of "[]"] demo_platform_fill, of 1 True
      "demo_duplex []" "socket_addr_new (V4 (Ipv4Addr 192 0 2 7)) 40000" False] l
  show ?thesis by blast
qed

text \<open>
  Nothing to listen on. A process started without \<open>-l\<close> whose TLS configuration could not be
  loaded does not stay up: \<open>Server::run\<close> returns the error \<open>AddrNotAvailable\<close> at once, and the
  process exits with code 1.
\<close>

theorem no_listener_is_an_error:
  assumes "launch_main H args = Serving rn ev" and "''-l'' \<notin> set args" and "ctx_tls (rn_ctx rn) = None"
  shows "\<exists>e. sy_pc (boot os rn) = Returned (Err e) \<and> err_kind e = AddrNotAvailable \<and> exit_code (run_end (Err e)) = 1"
proof -
  from assms(1) obtain c sink where c: "parse_cli (h_parse_level H) args = Run c"
    and n: "server_new (h_os H) (h_tls H) (h_tls_conn H) (cli_config c) (tcp_addrs c) (tls_addrs c) sink =
       Started rn" by (cases rule: launch_main_Serving)
  have "tcp_addrs c = []" using parse_cli_keeps(1) [OF c] assms(2) by simp
  with n assms(3) have "rn_tcp rn = []" "rn_tls rn = []" by (cases rule: server_new_Started; simp)+
  then show ?thesis
    by (simp add: boot_def run_start_def run_setup_def tag_listeners_def exit_code_def run_end_def)
qed

theorem no_listener_is_an_error_witness:
  "\<exists>rn ev e. launch_main demo_host [''--no-token-check''] = Serving rn ev \<and>
     sy_pc (boot demo_os rn) = Returned (Err e) \<and> err_kind e = AddrNotAvailable"
proof -
  obtain rn ev where l: "launch_main demo_host [''--no-token-check''] = Serving rn ev"
    and t: "ctx_tls (rn_ctx rn) = None"
  proof -
    have "parse_cli (h_parse_level demo_host) [''--no-token-check''] =
        Run \<lparr>cli_config = config_default\<lparr>check_token := False\<rparr>, tcp_addrs = [],
             tls_addrs = default_tls_addrs\<rparr>"
      by (simp add: parse_cli_def value_option_def plain_option_def upd_config_def)
    from demo_launched [OF this] show ?thesis using that by (auto simp: config_default_def load_tls_def)
  qed
  have "''-l'' \<notin> set [''--no-token-check'']" by simp
  from no_listener_is_an_error [OF l this t, of demo_os] l show ?thesis by blast
qed

end
