(* ===== verification/Rmbt_Json.thy ===== *)
theory Rmbt_Json
  imports Rmbt_Events
begin

text \<open>
  Properties of the structured events (\<open>src/src/events.rs\<close>): the JSON builder against a list of
  fields and a reader of JSON objects, the bodies of the events, and the accounting of pings.
\<close>

section \<open>A reader\<close>

text \<open>
  A reader of flat JSON objects as a collector has it: quoted text with its escapes, and other
  values as the token they are written with.
\<close>

datatype jvalue = JText string | JToken string

definition hex_digit :: "char \<Rightarrow> nat option" where
  "hex_digit c = find (\<lambda>n. hex_char n = c) [0..<16]"

definition unescape :: "char \<Rightarrow> char option" where
  "unescape e =
     (if e = CHR 0x22 \<or> e = CHR 0x5C \<or> e = CHR ''/'' then Some e
      else if e = CHR ''n'' then Some (CHR 0x0A)
      else if e = CHR ''r'' then Some (CHR 0x0D)
      else if e = CHR ''t'' then Some (CHR 0x09)
      else None)"

definition unescape_hex :: "char \<Rightarrow> char \<Rightarrow> char \<Rightarrow> char \<Rightarrow> char option" where
  "unescape_hex a b c d =
     (case (hex_digit a, hex_digit b, hex_digit c, hex_digit d) of
        (Some 0, Some 0, Some x, Some y) \<Rightarrow> Some (char_of (16 * x + y))
      | _ \<Rightarrow> None)"

definition prepend :: "char option \<Rightarrow> (string \<times> string) option \<Rightarrow> (string \<times> string) option" where
  "prepend c r = (case (c, r) of (Some x, Some (s, rest)) \<Rightarrow> Some (x # s, rest) | _ \<Rightarrow> None)"

text \<open>The rest of a quoted text, up to its closing quote.\<close>

fun read_text :: "string \<Rightarrow> (string \<times> string) option" where
  "read_text [] = None"
| "read_text (c # cs) =
     (if c = CHR 0x22 then Some ([], cs)
      else if c = CHR 0x5C then
        (case cs of
           [] \<Rightarrow> None
         | e # r \<Rightarrow>
             if e = CHR ''u'' then
               (case r of
                  h1 # h2 # h3 # h4 # r' \<Rightarrow> prepend (unescape_hex h1 h2 h3 h4) (read_text r')
                | _ \<Rightarrow> None)
             else prepend (unescape e) (read_text r))
      else if (of_char c :: nat) < 0x20 then None
      else prepend (Some c) (read_text cs))"

definition token_char :: "char \<Rightarrow> bool" where
  "token_char c \<longleftrightarrow> c \<noteq> CHR '','' \<and> c \<noteq> CHR ''}''"

definition read_value :: "string \<Rightarrow> (jvalue \<times> string) option" where
  "read_value s =
     (case s of
        [] \<Rightarrow> None
      | c # cs \<Rightarrow>
          if c = CHR 0x22 then map_option (\<lambda>(t, r). (JText t, r)) (read_text cs)
          else Some (JToken (takeWhile token_char s), dropWhile token_char s))"

definition read_field :: "string \<Rightarrow> ((string \<times> jvalue) \<times> string) option" where
  "read_field s =
     (case s of
        [] \<Rightarrow> None
      | q # cs \<Rightarrow>
          if q \<noteq> CHR 0x22 then None
          else (case read_text cs of
                  Some (k, CHR '':'' # r) \<Rightarrow> map_option (\<lambda>(v, r'). ((k, v), r')) (read_value r)
                | _ \<Rightarrow> None))"

lemma prepend_Some: "prepend c r = Some (s, rest) \<longleftrightarrow> (\<exists>x t. c = Some x \<and> r = Some (t, rest) \<and> s = x # t)"
  by (auto simp: prepend_def split: option.splits)

lemma read_text_shorter: "read_text s = Some (t, r) \<Longrightarrow> length r < length s"
proof (induction s arbitrary: t r rule: read_text.induct)
  case (2 c cs)
  then show ?case
    by (fastforce simp: prepend_Some split: if_splits list.splits)
qed simp

lemma read_value_shorter: "read_value s = Some (v, r) \<Longrightarrow> length r \<le> length s"
  by (auto simp: read_value_def length_dropWhile_le split: list.splits if_splits
      dest!: read_text_shorter intro: le_SucI)

lemma read_field_shorter: "read_field s = Some (f, r) \<Longrightarrow> length r < length s"
  by (fastforce simp: read_field_def split: list.splits if_splits option.splits char.splits bool.splits
      dest!: read_text_shorter read_value_shorter)

text \<open>The fields of an object after its opening brace, and the whole object.\<close>

function read_fields :: "string \<Rightarrow> (string \<times> jvalue) list option" where
  "read_fields s =
     (case read_field s of
        Some (f, CHR '','' # r) \<Rightarrow> map_option (\<lambda>fs. f # fs) (read_fields r)
      | Some (f, r) \<Rightarrow> if r = ''}'' then Some [f] else None
      | None \<Rightarrow> None)"
  by pat_completeness auto
termination
  by (relation "measure length") (auto dest!: read_field_shorter)

declare read_fields.simps [simp del]

definition read_object :: "string \<Rightarrow> (string \<times> jvalue) list option" where
  "read_object s =
     (case s of
        CHR ''{'' # r \<Rightarrow> if r = ''}'' then Some [] else read_fields r
      | _ \<Rightarrow> None)"

section \<open>The escapes are read back\<close>

lemma hex_digit_hex_char: "d < 16 \<Longrightarrow> hex_digit (hex_char d) = Some d"
proof -
  assume d: "d < 16"
  have "find (\<lambda>n. hex_char n = hex_char d) [0..<16] = Some d"
    using d hex_char_inject by (auto simp: find_Some_iff intro!: exI [of _ d])
  then show ?thesis by (simp add: hex_digit_def)
qed

lemma read_text_escape_char: "read_text (escape_char c @ r) = prepend (Some c) (read_text r)"
proof -
  have u: "unescape_hex (CHR ''0'') (CHR ''0'') (hex_char (of_char c div 16)) (hex_char (of_char c mod 16)) =
      Some c" if "(of_char c :: nat) < 0x20"
  proof -
    have "CHR ''0'' = hex_char 0" by (simp add: hex_char_def char_of_def bit_0)
    then have "hex_digit (CHR ''0'') = Some 0" using hex_digit_hex_char [of 0] by simp
    moreover have "hex_digit (hex_char (of_char c div 16)) = Some (of_char c div 16)"
      "hex_digit (hex_char (of_char c mod 16)) = Some (of_char c mod 16)"
      using that by (auto intro!: hex_digit_hex_char)
    moreover have "char_of (16 * (of_char c div 16) + of_char c mod 16 :: nat) = c" by simp
    ultimately show ?thesis by (simp add: unescape_hex_def)
  qed
  show ?thesis
    by (simp add: escape_char_def unescape_def u)
qed

lemma read_text_escape:
  "read_text (json_escape s @ CHR 0x22 # r) = Some (s, r)"
  by (induction s) (simp_all add: json_escape_def read_text_escape_char prepend_def)

section \<open>The builder\<close>

text \<open>The object a chain of builder calls describes is the list of its fields.\<close>

datatype field = FStr string string | FInt string i64 | FBool string bool | FFloat string rat

fun add_field :: "field \<Rightarrow> json \<Rightarrow> json" where
  "add_field (FStr k v) = json_str k v"
| "add_field (FInt k v) = json_int k v"
| "add_field (FBool k v) = json_bool k v"
| "add_field (FFloat k v) = json_float k v"

fun field_key :: "field \<Rightarrow> string" where
  "field_key (FStr k v) = k"
| "field_key (FInt k v) = k"
| "field_key (FBool k v) = k"
| "field_key (FFloat k v) = k"

fun field_value :: "field \<Rightarrow> jvalue" where
  "field_value (FStr k v) = JText v"
| "field_value (FInt k v) = JToken (int_to_string v)"
| "field_value (FBool k v) = JToken (if v then ''true'' else ''false'')"
| "field_value (FFloat k v) = JToken (fmt3 v)"

fun value_text :: "jvalue \<Rightarrow> string" where
  "value_text (JText v) = DQ @ json_escape v @ DQ"
| "value_text (JToken t) = t"

definition field_text :: "field \<Rightarrow> string" where
  "field_text f = DQ @ json_escape (field_key f) @ DQ @ '':'' @ value_text (field_value f)"

fun join_fields :: "field list \<Rightarrow> string" where
  "join_fields [] = []"
| "join_fields [f] = field_text f"
| "join_fields (f # fs) = field_text f @ '','' @ join_fields fs"

lemma add_field_eq: "add_field f j = json_sep j @ field_text f"
  by (cases f) (simp_all add: json_str_def json_int_def json_bool_def json_float_def json_key_def
      field_text_def)

lemma join_fields_snoc:
  "join_fields (fs @ [f]) = (if fs = [] then field_text f else join_fields fs @ '','' @ field_text f)"
  by (induction fs rule: join_fields.induct) simp_all

text \<open>Tokens: not empty, without comma, brace or quote.\<close>

definition token_ok :: "string \<Rightarrow> bool" where
  "token_ok t \<longleftrightarrow> t \<noteq> [] \<and>
     list_all (\<lambda>c. token_char c \<and> c \<noteq> CHR 0x22 \<and> c \<noteq> CHR ''{'') t"

lemma token_ok_append: "token_ok s \<Longrightarrow> token_ok t \<Longrightarrow> token_ok (s @ t)"
  by (simp add: token_ok_def)

lemma token_ok_digit: "d < 10 \<Longrightarrow> token_ok [digit_char d]"
proof -
  assume d: "d < 10"
  have "digit_char d \<noteq> c" if "(of_char c :: nat) < 48 \<or> 57 < (of_char c :: nat)" for c
    using of_char_digit_char [OF d] d that by auto
  then show ?thesis by (simp add: token_ok_def token_char_def)
qed

lemma token_ok_nat: "token_ok (nat_to_string n)"
  using token_ok_digit nat_to_string_digits [of _ n] by (fastforce simp: token_ok_def list_all_iff)

lemma token_ok_values: "field_value f = JToken t \<Longrightarrow> token_ok t"
proof (cases f)
  case (FInt k v)
  moreover have "token_ok (int_to_string v)"
  proof (cases "v < 0")
    case True
    have "token_ok ''-''" by (simp add: token_ok_def token_char_def)
    with True show ?thesis
      using token_ok_append [of "''-''"] token_ok_nat by (simp add: int_to_string_def)
  qed (simp add: int_to_string_def token_ok_nat)
  moreover assume "field_value f = JToken t"
  ultimately show ?thesis by simp
next
  case (FFloat k v)
  moreover have "token_ok (fmt3 v)"
  proof -
    define n where "n = nat (round_half_even (v * 1000))"
    have "token_ok ''.''" by (simp add: token_ok_def token_char_def)
    moreover have "token_ok [digit_char (n mod 1000 div 100), digit_char (n mod 1000 div 10 mod 10),
        digit_char (n mod 1000 mod 10)]"
      using token_ok_append [OF token_ok_append [OF token_ok_digit token_ok_digit] token_ok_digit,
          of "n mod 1000 div 100" "n mod 1000 div 10 mod 10" "n mod 1000 mod 10"]
      by (simp add: less_mult_imp_div_less)
    ultimately have "token_ok (nat_to_string (n div 1000) @ ''.'' @ [digit_char (n mod 1000 div 100),
        digit_char (n mod 1000 div 10 mod 10), digit_char (n mod 1000 mod 10)])"
      by (intro token_ok_append token_ok_nat)
    then show ?thesis by (simp add: fmt3_def Let_def n_def)
  qed
  moreover assume "field_value f = JToken t"
  ultimately show ?thesis by simp
qed (auto simp: token_ok_def token_char_def split: if_splits)

lemma last_field_text: "last (field_text f) \<noteq> CHR ''{''"
proof (cases "field_value f")
  case (JText v)
  then show ?thesis by (simp add: field_text_def DQ_def)
next
  case (JToken t)
  with token_ok_values [OF this] show ?thesis by (auto simp: field_text_def token_ok_def list_all_iff)
qed

lemma ends_with_char: "ends_with [c] s \<longleftrightarrow> s \<noteq> [] \<and> last s = c"
  by (cases s rule: rev_cases) (auto simp: ends_with_iff)

lemma builder_text: "fold add_field fs json_new = ''{'' @ join_fields fs"
proof (induction fs rule: rev_induct)
  case Nil
  show ?case by (simp add: json_new_def)
next
  case (snoc f fs)
  have "field_text g \<noteq> []" for g by (simp add: field_text_def DQ_def)
  then have "last (''{'' @ join_fields fs) \<noteq> CHR ''{''" if "fs \<noteq> []"
    using that last_field_text by (cases fs rule: rev_cases) (auto simp: join_fields_snoc)
  then have "json_sep (''{'' @ join_fields fs) =
      (if fs = [] then ''{'' else ''{'' @ join_fields fs @ '','')"
    by (auto simp: json_sep_def ends_with_char)
  with snoc show ?case by (simp add: add_field_eq join_fields_snoc)
qed

section \<open>The builder is read back\<close>

lemma read_field_text:
  assumes "c = CHR '','' \<or> c = CHR ''}''"
  shows "read_field (field_text f @ c # r) = Some ((field_key f, field_value f), c # r)"
proof -
  have "read_value (value_text (field_value f) @ c # r) = Some (field_value f, c # r)"
  proof (cases "field_value f")
    case (JText v)
    then show ?thesis by (simp add: read_value_def DQ_def read_text_escape)
  next
    case (JToken t)
    have t: "list_all token_char t" "t \<noteq> []" "hd t \<noteq> CHR 0x22"
      using token_ok_values [OF JToken] by (cases t; auto simp: token_ok_def list_all_iff)+
    have "\<not> token_char c" using assms by (auto simp: token_char_def)
    then have "takeWhile token_char (t @ c # r) = t" "dropWhile token_char (t @ c # r) = c # r"
      using t(1) by (auto simp: takeWhile_append dropWhile_append list_all_iff)
    with JToken t(2,3) show ?thesis by (cases t) (simp_all add: read_value_def)
  qed
  then show ?thesis by (simp add: read_field_def field_text_def DQ_def read_text_escape)
qed

lemma read_fields_join:
  "fs \<noteq> [] \<Longrightarrow> read_fields (join_fields fs @ ''}'') = Some (map (\<lambda>f. (field_key f, field_value f)) fs)"
proof (induction fs rule: join_fields.induct)
  case (2 f)
  then show ?case using read_field_text [of "CHR ''}''" f "[]"] by (simp add: read_fields.simps)
next
  case (3 f g fs)
  then show ?case
    using read_field_text [of "CHR '',''" f "join_fields (g # fs) @ ''}''"]
    by (simp add: read_fields.simps [of "field_text f @ CHR '','' # join_fields (g # fs) @ ''}''"])
qed simp

lemma builder_read_back:
  "read_object (json_done (fold add_field fs json_new)) = Some (map (\<lambda>f. (field_key f, field_value f)) fs)"
proof (cases "fs = []")
  case True
  then show ?thesis by (simp add: json_new_def json_done_def read_object_def)
next
  case False
  have "join_fields fs @ ''}'' \<noteq> ''}''"
    using False by (cases fs rule: join_fields.cases) (simp_all add: field_text_def DQ_def)
  with read_fields_join [OF False] show ?thesis
    by (simp add: builder_text json_done_def read_object_def)
qed

section \<open>The events\<close>

text \<open>The fields of each event, in the order they are written.\<close>

definition opt_field :: "string \<Rightarrow> string option \<Rightarrow> field list" where
  "opt_field k v = (case v of Some x \<Rightarrow> [FStr k x] | None \<Rightarrow> [])"

definition auth_fields ::
    "usize \<Rightarrow> string \<Rightarrow> string \<Rightarrow> string \<Rightarrow> string \<Rightarrow> string option \<Rightarrow> string option \<Rightarrow> field list" where
  "auth_fields conn_id client uuid token_type result label reason =
     [FStr ''event'' ''auth'', FInt ''conn'' (usize_as_i64 conn_id), FStr ''client'' client,
      FStr ''uuid'' uuid, FStr ''token'' token_type, FStr ''result'' result] @
     opt_field ''secret'' label @ opt_field ''reason'' reason"

definition close_event_fields ::
    "usize \<Rightarrow> string \<Rightarrow> string \<Rightarrow> string \<Rightarrow> bool \<Rightarrow> nat \<Rightarrow> conn_stats \<Rightarrow> string \<Rightarrow> field list" where
  "close_event_fields conn_id uuid token_type secret tls d st end_reason =
     [FStr ''event'' ''close'', FInt ''conn'' (usize_as_i64 conn_id), FStr ''uuid'' uuid,
      FStr ''token'' token_type, FStr ''secret'' secret, FBool ''tls'' tls, FStr ''end'' end_reason,
      FFloat ''duration_ms'' (duration_ms d), FInt ''commands'' (uint (commands st))] @
     (if download_bytes st > 0 then
        [FInt ''dl_bytes'' (as_i64 (download_bytes st)), FFloat ''dl_ms'' (ns_to_ms (download_ns st)),
         FFloat ''dl_mbps'' (mbps (download_bytes st) (download_ns st))] else []) @
     (if upload_bytes st > 0 then
        [FInt ''ul_bytes'' (as_i64 (upload_bytes st)), FFloat ''ul_ms'' (ns_to_ms (upload_ns st)),
         FFloat ''ul_mbps'' (mbps (upload_bytes st) (upload_ns st))] else []) @
     (if ping_count st > 0 then
        [FInt ''ping_count'' (uint (ping_count st)), FFloat ''ping_min_ms'' (ns_to_ms (ping_min_ns st)),
         FFloat ''ping_max_ms'' (ns_to_ms (ping_max_ns st))] else [])"

definition as_object :: "field list \<Rightarrow> (string \<times> jvalue) list" where
  "as_object fs = map (\<lambda>f. (field_key f, field_value f)) fs"

text \<open>The body of a frame is all that follows the envelope.\<close>

definition envelope :: "event_sink \<Rightarrow> nat \<Rightarrow> string \<Rightarrow> string \<Rightarrow> string" where
  "envelope k severity msgid ts = emit k severity msgid [] ts"

lemma emit_eq: "emit k severity msgid body ts = envelope k severity msgid ts @ body"
  by (simp add: envelope_def emit_def)

lemma auth_event_eq:
  "auth_event k n client uuid token result label reason ts =
     emit k (if result = ''rejected'' then SEV_NOTICE else SEV_INFO) ''auth''
       (json_done (fold add_field (auth_fields n client uuid token result label reason) json_new)) ts"
  by (cases label; cases reason) (simp_all add: auth_event_def auth_fields_def opt_field_def Let_def)

lemma close_event_eq:
  "close_event k n uuid token secret tls d st reason ts =
     emit k SEV_INFO ''close''
       (json_done (fold add_field (close_event_fields n uuid token secret tls d st reason) json_new)) ts"
  by (cases "download_bytes st > 0"; cases "upload_bytes st > 0"; cases "ping_count st > 0")
    (simp_all add: close_event_def close_event_fields_def Let_def)

section \<open>Properties\<close>

text \<open>
  C21: the builder refines lists of fields. The text of an object built by any chain of calls is the
  list of its fields, separated by commas and without a comma before the first one or after the
  last; and a reader of JSON gets back exactly these fields, whatever characters the keys and the
  values contain.
\<close>

theorem builder_refines_fields:
  "json_done (fold add_field fs json_new) = ''{'' @ join_fields fs @ ''}'' \<and>
   read_object (json_done (fold add_field fs json_new)) = Some (as_object fs)"
  using builder_text [of fs] builder_read_back [of fs] by (simp add: json_done_def as_object_def)

text \<open>
  C20: no event can be forged. The uuid of a token and the label of a key reach the log unchecked, but
  whatever they contain, the body of an \<open>auth\<close> and of a \<open>close\<close> event is read back as exactly the
  fields of that event with these texts as values: no client can add a field, end the object
  early or change another value.
\<close>

theorem events_cannot_be_forged:
  "(\<exists>body. auth_event k n client uuid token result label reason ts =
        envelope k (if result = ''rejected'' then SEV_NOTICE else SEV_INFO) ''auth'' ts @ body \<and>
      read_object body = Some (as_object (auth_fields n client uuid token result label reason))) \<and>
   (\<exists>body. close_event k n uuid token secret tls d st end_reason ts =
        envelope k SEV_INFO ''close'' ts @ body \<and>
      read_object body = Some (as_object (close_event_fields n uuid token secret tls d st end_reason)))"
  unfolding auth_event_eq close_event_eq emit_eq as_object_def using builder_read_back by blast

text \<open>
  The ping figures. After pings with the round-trip times \<open>ns\<close>, the connection has the number of
  them (modulo the width of the counter) and their exact minimum and maximum.
\<close>

theorem ping_statistics_exact:
  assumes "ns \<noteq> []"
  shows "ping_count (fold add_ping ns stats_new) = of_nat (length ns) \<and>
     ping_min_ns (fold add_ping ns stats_new) = Min (set ns) \<and>
     ping_max_ns (fold add_ping ns stats_new) = Max (set ns)"
proof -
  have g: "ping_count (fold add_ping ns s) = ping_count s + of_nat (length ns) \<and>
      ping_min_ns (fold add_ping ns s) = Min (insert (ping_min_ns s) (set ns)) \<and>
      ping_max_ns (fold add_ping ns s) = Max (insert (ping_max_ns s) (set ns))" for s
  proof (induction ns arbitrary: s)
    case (Cons x xs)
    have "Min (insert (ping_min_ns s) (set (x # xs))) = Min (insert (min x (ping_min_ns s)) (set xs))"
      "Max (insert (ping_max_ns s) (set (x # xs))) = Max (insert (max x (ping_max_ns s)) (set xs))"
      by (cases "xs = []"; simp add: ac_simps)+
    with Cons [of "add_ping x s"] show ?case by (auto simp: add_ping_def min_def max_def)
  qed simp
  have "Min (insert (- 1) (set ns)) = Min (set ns)"
    using assms by (simp add: min_absorb2)
  moreover have "Max (insert 0 (set ns)) = Max (set ns)"
    using assms by (simp add: max_absorb2)
  ultimately show ?thesis using g [of stats_new] by (simp add: stats_new_def)
qed

theorem ping_statistics_exact_witness:
  "ping_min_ns (fold add_ping [900, 300] stats_new) = Min {900, 300} \<and>
   ping_count (fold add_ping [900, 300] stats_new) = 2"
  using ping_statistics_exact [of "[900, 300]"] by simp

end
