(* ===== verification/Std_Json.thy ===== *)
theory Std_Json
  imports Rmbt_Ip_Check Rmbt_Json
begin

text \<open>
  An instance of the JSON parameter of the address check: a reader for objects, arrays, quoted
  text with the escapes of \<open>Rmbt_Json\<close>, integers and the three literals, with white space
  between the tokens, and a printer of values. The reader covers the request bodies of the
  repository's tests; the crate the server uses reads all of JSON.
\<close>

section \<open>The reader\<close>

definition json_ws :: "char \<Rightarrow> bool" where
  "json_ws c \<longleftrightarrow> c = CHR '' '' \<or> c = CHR 0x09 \<or> c = CHR 0x0A \<or> c = CHR 0x0D"

definition skip_ws :: "string \<Rightarrow> string" where
  "skip_ws s = dropWhile json_ws s"

definition expect :: "char \<Rightarrow> string \<Rightarrow> string option" where
  "expect c s = (case skip_ws s of [] \<Rightarrow> None | d # r \<Rightarrow> if d = c then Some r else None)"

definition json_digit :: "char \<Rightarrow> bool" where
  "json_digit c \<longleftrightarrow> 48 \<le> (of_char c :: nat) \<and> (of_char c :: nat) \<le> 57"

text \<open>The literals and numbers.\<close>

definition read_scalar :: "string \<Rightarrow> (json_value \<times> string) option" where
  "read_scalar s =
     (if starts_with ''null'' s then Some (JNull, drop 4 s)
      else if starts_with ''true'' s then Some (JBool True, drop 4 s)
      else if starts_with ''false'' s then Some (JBool False, drop 5 s)
      else
        (case s of
           [] \<Rightarrow> None
         | c # r \<Rightarrow>
             if json_digit c then Some (JNumber (takeWhile json_digit s), dropWhile json_digit s)
             else if c = CHR ''-'' \<and> takeWhile json_digit r \<noteq> []
             then Some (JNumber (c # takeWhile json_digit r), dropWhile json_digit r)
             else None))"

text \<open>Values, the members after an opening brace, and the elements after an opening bracket.\<close>

fun read_json :: "nat \<Rightarrow> string \<Rightarrow> (json_value \<times> string) option"
  and read_members :: "nat \<Rightarrow> string \<Rightarrow> ((string \<times> json_value) list \<times> string) option"
  and read_elements :: "nat \<Rightarrow> string \<Rightarrow> (json_value list \<times> string) option" where
  "read_json 0 s = None"
| "read_json (Suc n) s =
     (case skip_ws s of
        [] \<Rightarrow> None
      | c # r \<Rightarrow>
          if c = CHR 0x22 then map_option (\<lambda>(t, r'). (JString t, r')) (read_text r)
          else if c = CHR ''{'' then
            (case expect (CHR ''}'') r of
               Some r' \<Rightarrow> Some (JObject [], r')
             | None \<Rightarrow> map_option (\<lambda>(ms, r'). (JObject (rev ms), r')) (read_members n r))
          else if c = CHR ''['' then
            (case expect (CHR '']'') r of
               Some r' \<Rightarrow> Some (JArray [], r')
             | None \<Rightarrow> map_option (\<lambda>(vs, r'). (JArray vs, r')) (read_elements n r))
          else read_scalar (c # r))"
| "read_members 0 s = None"
| "read_members (Suc n) s =
     (case expect (CHR 0x22) s of None \<Rightarrow> None | Some r1 \<Rightarrow>
     (case read_text r1 of None \<Rightarrow> None | Some (k, r2) \<Rightarrow>
     (case expect (CHR '':'') r2 of None \<Rightarrow> None | Some r3 \<Rightarrow>
     (case read_json n r3 of None \<Rightarrow> None | Some (v, r4) \<Rightarrow>
     (case expect (CHR '','') r4 of
        Some r5 \<Rightarrow> map_option (\<lambda>(ms, r'). ((k, v) # ms, r')) (read_members n r5)
      | None \<Rightarrow> map_option (\<lambda>r5. ([(k, v)], r5)) (expect (CHR ''}'') r4))))))"
| "read_elements 0 s = None"
| "read_elements (Suc n) s =
     (case read_json n s of None \<Rightarrow> None | Some (v, r1) \<Rightarrow>
     (case expect (CHR '','') r1 of
        Some r2 \<Rightarrow> map_option (\<lambda>(vs, r'). (v # vs, r')) (read_elements n r2)
      | None \<Rightarrow> map_option (\<lambda>r2. ([v], r2)) (expect (CHR '']'') r1)))"

text \<open>
  A nesting of sixteen levels and members is enough for the bodies of the tests. A repeated key
  counts with its last value.
\<close>

definition json_of_text :: "string \<Rightarrow> string + json_value" where
  "json_of_text s =
     (case read_json 16 s of
        Some (v, r) \<Rightarrow> if skip_ws r = [] then Inr v else Inl ''trailing characters''
      | None \<Rightarrow> Inl ''expected value'')"

text \<open>The printer: no white space, members and elements in their order.\<close>

fun json_text :: "json_value \<Rightarrow> string"
  and members_text :: "(string \<times> json_value) list \<Rightarrow> string"
  and elements_text :: "json_value list \<Rightarrow> string" where
  "json_text JNull = ''null''"
| "json_text (JBool b) = bool_text b"
| "json_text (JNumber n) = n"
| "json_text (JString s) = QQ (json_escape s)"
| "json_text (JArray vs) = ''['' @ elements_text vs @ '']''"
| "json_text (JObject ms) = ''{'' @ members_text ms @ ''}''"
| "members_text [] = []"
| "members_text ((k, v) # ms) =
     QQ (json_escape k) @ '':'' @ json_text v @ (if ms = [] then [] else '','' @ members_text ms)"
| "elements_text [] = []"
| "elements_text (v # vs) = json_text v @ (if vs = [] then [] else '','' @ elements_text vs)"

definition std_serde :: serde where
  "std_serde =
     \<lparr>from_slice = (\<lambda>b. json_of_text (bytes_str b)),
      value_text = json_text\<rparr>"

lemma from_slice_std [simp]: "from_slice std_serde (as_bytes s) = json_of_text s"
  by (simp add: std_serde_def)

section \<open>Plain text is read back\<close>

definition plain_char :: "char \<Rightarrow> bool" where
  "plain_char c \<longleftrightarrow> c \<noteq> CHR 0x22 \<and> c \<noteq> CHR 0x5C \<and> 0x20 \<le> (of_char c :: nat)"

lemma read_text_plain: "list_all plain_char s \<Longrightarrow> read_text (s @ CHR 0x22 # r) = Some (s, r)"
  by (induction s) (auto simp: plain_char_def prepend_def)

end
