(* ===== verification/Std_Vectors.thy ===== *)
theory Std_Vectors
  imports Std_Crypto
begin

text \<open>
  Values of HMAC-SHA-1 and HMAC-SHA-256 on bytes, evaluated: test cases of RFC 2202 and
  RFC 4231, and the ones on which the repository's unit tests depend. The wall clock of the
  tests is 1760000000 seconds; the keys and messages are the ones the tests name.
\<close>

section \<open>Published test cases\<close>

lemma rfc4231_case_2:
  "hmac sha256
     [74, 101, 102, 101]
     [119, 104, 97, 116, 32, 100, 111, 32, 121, 97, 32, 119, 97, 110, 116, 32, 102, 111, 114, 32,
      110, 111, 116, 104, 105, 110, 103, 63] =
     [91, 220, 193, 70, 191, 96, 117, 78, 106, 4, 36, 38, 8, 149, 117, 199, 90, 0, 63, 8,
      157, 39, 57, 131, 157, 236, 88, 185, 100, 236, 56, 67]"
  by (rule hmac_sha256_vector, simp, simp add: hmac_setup_eval, simp only: bits_eval)

lemma rfc2202_case_2:
  "hmac sha1
     [74, 101, 102, 101]
     [119, 104, 97, 116, 32, 100, 111, 32, 121, 97, 32, 119, 97, 110, 116, 32, 102, 111, 114, 32,
      110, 111, 116, 104, 105, 110, 103, 63] =
     [239, 252, 223, 106, 229, 235, 47, 162, 210, 116, 22, 213, 241, 132, 223, 156, 37, 154, 124, 121]"
  by (rule hmac_sha1_vector, simp, simp add: hmac_setup_eval, simp only: bits_eval)

section \<open>Tokens\<close>

lemma top_time:
  "hmac sha256
     [116, 111, 112, 115, 101, 99, 114, 101, 116]
     [104, 231, 120, 0] =
     [107, 177, 236, 142, 145, 93, 180, 203, 188, 46, 7, 82, 218, 124, 136, 202, 27, 155, 130, 244,
      37, 137, 116, 109, 201, 64, 193, 179, 16, 66, 48, 187]"
  by (rule hmac_sha256_vector, simp, simp add: hmac_setup_eval, simp only: bits_eval)

lemma top_v4:
  "hmac sha256
     [116, 111, 112, 115, 101, 99, 114, 101, 116]
     [104, 231, 120, 0, 0, 0, 0, 0, 0, 0, 0, 0, 0, 0, 255, 255, 62, 1, 2, 3] =
     [63, 88, 197, 244, 53, 93, 254, 109, 157, 206, 164, 5, 27, 82, 97, 53, 95, 205, 211, 71,
      204, 177, 239, 222, 1, 60, 230, 120, 223, 237, 185, 229]"
  by (rule hmac_sha256_vector, simp, simp add: hmac_setup_eval, simp only: bits_eval)

lemma top_other4:
  "hmac sha256
     [116, 111, 112, 115, 101, 99, 114, 101, 116]
     [104, 231, 120, 0, 0, 0, 0, 0, 0, 0, 0, 0, 0, 0, 255, 255, 9, 9, 9, 9] =
     [99, 138, 72, 153, 105, 2, 198, 167, 181, 135, 109, 134, 252, 118, 151, 82, 247, 208, 6, 39,
      159, 229, 157, 201, 148, 67, 227, 26, 242, 55, 106, 23]"
  by (rule hmac_sha256_vector, simp, simp add: hmac_setup_eval, simp only: bits_eval)

lemma top_v6:
  "hmac sha256
     [116, 111, 112, 115, 101, 99, 114, 101, 116]
     [104, 231, 120, 0, 32, 1, 13, 184, 0, 0, 0, 0, 0, 0, 0, 0, 0, 0, 0, 1] =
     [127, 205, 26, 145, 60, 62, 190, 122, 19, 13, 92, 222, 30, 2, 58, 87, 113, 141, 171, 104,
      237, 167, 6, 57, 203, 114, 0, 29, 179, 132, 241, 48]"
  by (rule hmac_sha256_vector, simp, simp add: hmac_setup_eval, simp only: bits_eval)

lemma top_other6:
  "hmac sha256
     [116, 111, 112, 115, 101, 99, 114, 101, 116]
     [104, 231, 120, 0, 32, 1, 13, 184, 0, 0, 0, 0, 0, 0, 0, 0, 0, 0, 0, 2] =
     [151, 180, 170, 95, 163, 197, 22, 97, 159, 112, 44, 231, 183, 234, 191, 42, 145, 184, 72, 69,
      25, 74, 118, 110, 33, 253, 176, 228, 60, 203, 123, 102]"
  by (rule hmac_sha256_vector, simp, simp add: hmac_setup_eval, simp only: bits_eval)

lemma other_time:
  "hmac sha256
     [111, 116, 104, 101, 114, 115, 101, 99, 114, 101, 116]
     [104, 231, 120, 0] =
     [90, 226, 223, 129, 106, 7, 169, 20, 10, 180, 117, 235, 86, 36, 235, 64, 238, 185, 206, 7,
      147, 243, 79, 102, 61, 34, 153, 196, 178, 142, 182, 230]"
  by (rule hmac_sha256_vector, simp, simp add: hmac_setup_eval, simp only: bits_eval)

lemma top_golden_time:
  "hmac sha256
     [116, 111, 112, 115, 101, 99, 114, 101, 116]
     [101, 83, 241, 0] =
     [76, 196, 172, 206, 190, 84, 25, 55, 127, 233, 195, 89, 228, 164, 209, 164, 215, 175, 66, 117,
      28, 255, 254, 78, 201, 185, 135, 43, 77, 222, 208, 222]"
  by (rule hmac_sha256_vector, simp, simp add: hmac_setup_eval, simp only: bits_eval)

lemma top_golden_v4:
  "hmac sha256
     [116, 111, 112, 115, 101, 99, 114, 101, 116]
     [101, 83, 241, 0, 0, 0, 0, 0, 0, 0, 0, 0, 0, 0, 255, 255, 62, 1, 2, 3] =
     [30, 100, 243, 63, 11, 81, 174, 99, 110, 159, 216, 103, 123, 132, 245, 195, 232, 121, 14, 102,
      186, 194, 107, 171, 15, 127, 18, 246, 44, 50, 224, 82]"
  by (rule hmac_sha256_vector, simp, simp add: hmac_setup_eval, simp only: bits_eval)

lemma top_golden_v1:
  "hmac sha1
     [116, 111, 112, 115, 101, 99, 114, 101, 116]
     [56, 55, 50, 51, 51, 53, 56, 99, 45, 50, 48, 51, 55, 45, 52, 48, 50, 57, 45, 97,
      55, 48, 99, 45, 57, 49, 101, 53, 100, 57, 100, 51, 53, 99, 102, 51, 95, 49, 55, 48,
      48, 48, 48, 48, 48, 48, 48] =
     [67, 238, 121, 165, 159, 201, 57, 8, 35, 49, 238, 61, 22, 87, 165, 198, 199, 194, 198, 160]"
  by (rule hmac_sha1_vector, simp, simp add: hmac_setup_eval, simp only: bits_eval)

lemma a_time:
  "hmac sha256
     [99, 111, 110, 116, 114, 111, 108, 45, 97, 45, 115, 101, 99, 114, 101, 116]
     [104, 231, 120, 0] =
     [235, 154, 97, 247, 155, 8, 238, 21, 116, 125, 102, 13, 29, 115, 252, 119, 197, 131, 207, 221,
      190, 228, 203, 138, 43, 132, 136, 149, 83, 203, 238, 8]"
  by (rule hmac_sha256_vector, simp, simp add: hmac_setup_eval, simp only: bits_eval)

lemma b_time:
  "hmac sha256
     [99, 111, 110, 116, 114, 111, 108, 45, 98, 45, 115, 101, 99, 114, 101, 116]
     [104, 231, 120, 0] =
     [57, 18, 219, 146, 215, 34, 186, 96, 220, 68, 245, 202, 17, 191, 255, 186, 54, 154, 42, 238,
      62, 212, 183, 113, 24, 118, 82, 218, 203, 172, 136, 71]"
  by (rule hmac_sha256_vector, simp, simp add: hmac_setup_eval, simp only: bits_eval)

lemma a_v4:
  "hmac sha256
     [99, 111, 110, 116, 114, 111, 108, 45, 97, 45, 115, 101, 99, 114, 101, 116]
     [104, 231, 120, 0, 0, 0, 0, 0, 0, 0, 0, 0, 0, 0, 255, 255, 62, 1, 2, 3] =
     [19, 58, 64, 165, 123, 149, 237, 182, 114, 48, 163, 141, 211, 208, 158, 184, 232, 247, 8, 3,
      205, 140, 150, 66, 186, 235, 204, 100, 9, 180, 157, 9]"
  by (rule hmac_sha256_vector, simp, simp add: hmac_setup_eval, simp only: bits_eval)

lemma a_v6:
  "hmac sha256
     [99, 111, 110, 116, 114, 111, 108, 45, 97, 45, 115, 101, 99, 114, 101, 116]
     [104, 231, 120, 0, 32, 1, 13, 184, 0, 0, 0, 0, 0, 0, 0, 0, 0, 0, 0, 1] =
     [26, 11, 166, 49, 15, 232, 92, 41, 11, 209, 170, 251, 170, 122, 52, 37, 198, 87, 211, 21,
      121, 187, 192, 132, 20, 97, 27, 80, 234, 115, 105, 114]"
  by (rule hmac_sha256_vector, simp, simp add: hmac_setup_eval, simp only: bits_eval)

lemma a_v1:
  "hmac sha1
     [99, 111, 110, 116, 114, 111, 108, 45, 97, 45, 115, 101, 99, 114, 101, 116]
     [56, 55, 50, 51, 51, 53, 56, 99, 45, 50, 48, 51, 55, 45, 52, 48, 50, 57, 45, 97,
      55, 48, 99, 45, 57, 49, 101, 53, 100, 57, 100, 51, 53, 99, 102, 51, 95, 49, 55, 54,
      48, 48, 48, 48, 48, 48, 48] =
     [17, 5, 235, 200, 159, 153, 171, 208, 99, 90, 35, 159, 153, 189, 127, 83, 45, 95, 204, 234]"
  by (rule hmac_sha1_vector, simp, simp add: hmac_setup_eval, simp only: bits_eval)

lemma b_v1:
  "hmac sha1
     [99, 111, 110, 116, 114, 111, 108, 45, 98, 45, 115, 101, 99, 114, 101, 116]
     [56, 55, 50, 51, 51, 53, 56, 99, 45, 50, 48, 51, 55, 45, 52, 48, 50, 57, 45, 97,
      55, 48, 99, 45, 57, 49, 101, 53, 100, 57, 100, 51, 53, 99, 102, 51, 95, 49, 55, 54,
      48, 48, 48, 48, 48, 48, 48] =
     [103, 149, 149, 189, 223, 128, 84, 69, 47, 5, 213, 202, 190, 202, 193, 195, 137, 92, 71, 209]"
  by (rule hmac_sha1_vector, simp, simp add: hmac_setup_eval, simp only: bits_eval)

lemma unknown_v1:
  "hmac sha1
     [117, 110, 107, 110, 111, 119, 110, 45, 115, 101, 99, 114, 101, 116]
     [56, 55, 50, 51, 51, 53, 56, 99, 45, 50, 48, 51, 55, 45, 52, 48, 50, 57, 45, 97,
      55, 48, 99, 45, 57, 49, 101, 53, 100, 57, 100, 51, 53, 99, 102, 51, 95, 49, 55, 54,
      48, 48, 48, 48, 48, 48, 48] =
     [190, 234, 83, 179, 69, 108, 20, 135, 141, 144, 135, 8, 58, 225, 200, 15, 180, 85, 204, 24]"
  by (rule hmac_sha1_vector, simp, simp add: hmac_setup_eval, simp only: bits_eval)

lemmas token_vectors =
  top_time top_v4 top_other4 top_v6 top_other6 other_time top_golden_time top_golden_v4
  top_golden_v1 a_time b_time a_v4 a_v6 a_v1 b_v1 unknown_v1

section \<open>Address check\<close>

lemma a_v1_ip:
  "hmac sha1
     [99, 111, 110, 116, 114, 111, 108, 45, 97, 45, 115, 101, 99, 114, 101, 116]
     [102, 55, 49, 100, 53, 51, 102, 52, 45, 99, 54, 55, 99, 45, 52, 98, 57, 57, 45, 98,
      51, 49, 57, 45, 57, 55, 57, 102, 55, 49, 52, 99, 100, 52, 48, 56, 95, 49, 55, 54,
      48, 48, 48, 48, 48, 48, 48] =
     [165, 243, 8, 140, 141, 56, 189, 15, 174, 132, 180, 169, 83, 185, 130, 22, 106, 48, 198, 3]"
  by (rule hmac_sha1_vector, simp, simp add: hmac_setup_eval, simp only: bits_eval)

lemma b_v1_ip:
  "hmac sha1
     [99, 111, 110, 116, 114, 111, 108, 45, 98, 45, 115, 101, 99, 114, 101, 116]
     [102, 55, 49, 100, 53, 51, 102, 52, 45, 99, 54, 55, 99, 45, 52, 98, 57, 57, 45, 98,
      51, 49, 57, 45, 57, 55, 57, 102, 55, 49, 52, 99, 100, 52, 48, 56, 95, 49, 55, 54,
      48, 48, 48, 48, 48, 48, 48] =
     [110, 132, 243, 129, 89, 19, 207, 94, 246, 239, 148, 120, 169, 62, 29, 136, 90, 35, 86, 102]"
  by (rule hmac_sha1_vector, simp, simp add: hmac_setup_eval, simp only: bits_eval)

lemma unknown_v1_ip:
  "hmac sha1
     [117, 110, 107, 110, 111, 119, 110, 45, 115, 101, 99, 114, 101, 116]
     [102, 55, 49, 100, 53, 51, 102, 52, 45, 99, 54, 55, 99, 45, 52, 98, 57, 57, 45, 98,
      51, 49, 57, 45, 57, 55, 57, 102, 55, 49, 52, 99, 100, 52, 48, 56, 95, 49, 55, 54,
      48, 48, 48, 48, 48, 48, 48] =
     [64, 242, 13, 123, 144, 134, 98, 183, 34, 252, 133, 85, 155, 156, 9, 224, 14, 159, 78, 40]"
  by (rule hmac_sha1_vector, simp, simp add: hmac_setup_eval, simp only: bits_eval)

lemma b_ip4:
  "hmac sha256
     [99, 111, 110, 116, 114, 111, 108, 45, 98, 45, 115, 101, 99, 114, 101, 116]
     [104, 231, 120, 0, 0, 0, 0, 0, 0, 0, 0, 0, 0, 0, 255, 255, 203, 0, 113, 1] =
     [120, 14, 254, 126, 77, 188, 124, 153, 111, 109, 139, 216, 120, 206, 230, 102, 81, 4, 230, 124,
      230, 229, 168, 38, 9, 66, 2, 96, 31, 198, 123, 15]"
  by (rule hmac_sha256_vector, simp, simp add: hmac_setup_eval, simp only: bits_eval)

lemma b_ip6:
  "hmac sha256
     [99, 111, 110, 116, 114, 111, 108, 45, 98, 45, 115, 101, 99, 114, 101, 116]
     [104, 231, 120, 0, 32, 1, 13, 184, 0, 0, 0, 0, 0, 0, 0, 0, 0, 0, 0, 7] =
     [44, 59, 236, 70, 67, 242, 161, 76, 48, 244, 125, 21, 195, 216, 243, 205, 9, 223, 89, 142,
      90, 248, 34, 223, 100, 210, 161, 196, 119, 243, 77, 177]"
  by (rule hmac_sha256_vector, simp, simp add: hmac_setup_eval, simp only: bits_eval)

lemma sig_a:
  "hmac sha256
     [99, 111, 110, 116, 114, 111, 108, 45, 97, 45, 115, 101, 99, 114, 101, 116]
     [0, 0, 0, 0, 0, 0, 0, 0, 0, 0, 255, 255, 203, 0, 113, 1, 247, 29, 83, 244,
      198, 124, 75, 153, 179, 25, 151, 159, 113, 76, 212, 8] =
     [218, 126, 195, 163, 196, 142, 170, 252, 224, 201, 177, 5, 120, 11, 86, 48, 194, 183, 107, 126,
      132, 251, 251, 209, 223, 123, 65, 16, 160, 107, 123, 45]"
  by (rule hmac_sha256_vector, simp, simp add: hmac_setup_eval, simp only: bits_eval)

lemma sig_b:
  "hmac sha256
     [99, 111, 110, 116, 114, 111, 108, 45, 98, 45, 115, 101, 99, 114, 101, 116]
     [0, 0, 0, 0, 0, 0, 0, 0, 0, 0, 255, 255, 203, 0, 113, 1, 247, 29, 83, 244,
      198, 124, 75, 153, 179, 25, 151, 159, 113, 76, 212, 8] =
     [135, 135, 82, 240, 12, 105, 134, 215, 175, 168, 139, 198, 99, 173, 113, 120, 99, 218, 199, 51,
      225, 72, 225, 209, 54, 54, 80, 130, 60, 252, 255, 190]"
  by (rule hmac_sha256_vector, simp, simp add: hmac_setup_eval, simp only: bits_eval)

lemma sig_ref:
  "hmac sha256
     [116, 101, 115, 116, 107, 101, 121, 49, 50, 51, 52, 53]
     [0, 0, 0, 0, 0, 0, 0, 0, 0, 0, 255, 255, 203, 0, 113, 1, 247, 29, 83, 244,
      198, 124, 75, 153, 179, 25, 151, 159, 113, 76, 212, 8] =
     [29, 80, 215, 139, 38, 246, 107, 9, 81, 188, 248, 85, 35, 30, 114, 252, 68, 115, 215, 93,
      242, 210, 185, 194, 48, 33, 242, 83, 105, 45, 1, 192]"
  by (rule hmac_sha256_vector, simp, simp add: hmac_setup_eval, simp only: bits_eval)

lemma sig_other_ip:
  "hmac sha256
     [116, 101, 115, 116, 107, 101, 121, 49, 50, 51, 52, 53]
     [0, 0, 0, 0, 0, 0, 0, 0, 0, 0, 255, 255, 203, 0, 113, 2, 247, 29, 83, 244,
      198, 124, 75, 153, 179, 25, 151, 159, 113, 76, 212, 8] =
     [5, 24, 159, 68, 216, 10, 150, 230, 27, 192, 110, 145, 80, 186, 177, 70, 44, 206, 57, 61,
      53, 192, 219, 8, 153, 103, 235, 90, 48, 248, 183, 157]"
  by (rule hmac_sha256_vector, simp, simp add: hmac_setup_eval, simp only: bits_eval)

lemma sig_other_uuid:
  "hmac sha256
     [116, 101, 115, 116, 107, 101, 121, 49, 50, 51, 52, 53]
     [0, 0, 0, 0, 0, 0, 0, 0, 0, 0, 255, 255, 203, 0, 113, 1, 246, 29, 83, 244,
      198, 124, 75, 153, 179, 25, 151, 159, 113, 76, 212, 8] =
     [114, 93, 223, 187, 12, 22, 242, 106, 250, 187, 64, 71, 46, 17, 204, 105, 254, 174, 88, 185,
      75, 255, 82, 119, 34, 76, 35, 220, 230, 228, 126, 224]"
  by (rule hmac_sha256_vector, simp, simp add: hmac_setup_eval, simp only: bits_eval)

lemma sig_other_key:
  "hmac sha256
     [111, 116, 104, 101, 114, 107, 101, 121]
     [0, 0, 0, 0, 0, 0, 0, 0, 0, 0, 255, 255, 203, 0, 113, 1, 247, 29, 83, 244,
      198, 124, 75, 153, 179, 25, 151, 159, 113, 76, 212, 8] =
     [95, 237, 37, 112, 9, 245, 65, 154, 103, 227, 124, 1, 12, 14, 78, 64, 158, 252, 7, 250,
      89, 169, 140, 128, 40, 175, 221, 32, 24, 144, 17, 17]"
  by (rule hmac_sha256_vector, simp, simp add: hmac_setup_eval, simp only: bits_eval)

lemmas address_vectors =
  a_v1_ip b_v1_ip unknown_v1_ip b_ip4 b_ip6 sig_a sig_b sig_ref sig_other_ip sig_other_uuid
  sig_other_key

end
