(* ===== verification/Test_Token.thy ===== *)
theory Test_Token
  imports Std_Vectors
begin

text \<open>
  The unit tests of the token module (\<open>src/src/protocol/token.rs\<close>, module \<open>tests\<close>), each
  \<open>#[test]\<close> function as a predicate over the cryptographic functions and the wall clock, which
  stands still during a test. An \<open>unwrap\<close> that panics fails the test. The tests are evaluated
  with the functions of \<open>Std_Crypto\<close>.
\<close>

section \<open>Helpers\<close>

definition unwrap_test :: "'a option \<Rightarrow> ('a \<Rightarrow> bool) \<Rightarrow> bool" where
  "unwrap_test x f = (case x of None \<Rightarrow> False | Some v \<Rightarrow> f v)"

definition unwrap_ok :: "'e + 'a \<Rightarrow> ('a \<Rightarrow> bool) \<Rightarrow> bool" where
  "unwrap_ok x f = (case x of Inl _ \<Rightarrow> False | Inr v \<Rightarrow> f v)"

definition two_keys :: "secret_key list" where
  "two_keys =
     [\<lparr>sk_key = ''control-a-secret'', sk_label = ''control-a''\<rparr>,
      \<lparr>sk_key = ''control-b-secret'', sk_label = ''control-b''\<rparr>]"

definition SEED :: string where
  "SEED = ''topsecret''"

definition one_key :: "string \<Rightarrow> secret_key list" where
  "one_key k = [\<lparr>sk_key = k, sk_label = ''test''\<rparr>]"

definition v2_bare :: "crypto \<Rightarrow> string \<Rightarrow> ip_addr \<Rightarrow> u32 \<Rightarrow> string" where
  "v2_bare C seed ip time =
     (let tb = to_be_bytes time;
          ph = hmac_sha256 C (as_bytes seed) [tb];
          ih = hmac_sha256 C (as_bytes seed) [tb, mapped_ipv6 ip]
      in b64_encode C (tb @ take 8 ph @ take 4 ih))"

definition wrap_v2 :: "string \<Rightarrow> string" where
  "wrap_v2 bare = ''8723358c-2037-4029-a70c-91e5d9d35cf3_1700000000_v1hmac_#v2#'' @ bare"

definition make_v2 :: "crypto \<Rightarrow> string \<Rightarrow> ip_addr \<Rightarrow> u32 \<Rightarrow> string" where
  "make_v2 C seed ip time = wrap_v2 (v2_bare C seed ip time)"

definition test_make_v1 :: "crypto \<Rightarrow> string \<Rightarrow> string \<Rightarrow> i64 \<Rightarrow> string" where
  "test_make_v1 C seed uuid ts =
     (let hmac = hmac_sha1_b64 C (as_bytes seed) (as_bytes (uuid @ ''_'' @ int_to_string ts))
      in uuid @ ''_'' @ int_to_string ts @ ''_'' @ hmac)"

definition UUID :: string where
  "UUID = ''8723358c-2037-4029-a70c-91e5d9d35cf3''"

definition V2_GOLDEN :: string where
  "V2_GOLDEN = ''ZVPxAEzErM6+VBk3HmTzPw==''"

definition V1_GOLDEN :: string where
  "V1_GOLDEN = ''8723358c-2037-4029-a70c-91e5d9d35cf3_1700000000_Q+55pZ/JOQgjMe49FlelxsfCxqA=''"

section \<open>The token of the address check\<close>

definition ip_token_selects_the_issuing_key_not_the_first :: "crypto \<Rightarrow> i64 \<Rightarrow> bool" where
  "ip_token_selects_the_issuing_key_not_the_first C now \<longleftrightarrow>
     unwrap_test (parse_ip_addr ''62.1.2.3'') (\<lambda>ip.
     let tok = make_test_token C ''control-b-secret'' UUID now ip
     in unwrap_ok (check_ip_token C tok two_keys ip now) (\<lambda>t.
        sk_label (it_key t) = ''control-b'' \<and> open_test_uuid t = UUID \<and> matching_ip t))"

definition ip_token_matching_ip_false_for_other_address :: "crypto \<Rightarrow> i64 \<Rightarrow> bool" where
  "ip_token_matching_ip_false_for_other_address C now \<longleftrightarrow>
     unwrap_test (parse_ip_addr ''62.1.2.3'') (\<lambda>issued_for.
     let tok = make_test_token C ''control-a-secret'' UUID now issued_for
     in unwrap_test (parse_ip_addr ''2001:db8::1'') (\<lambda>ip.
        unwrap_ok (check_ip_token C tok two_keys ip now) (\<lambda>t.
        sk_label (it_key t) = ''control-a'' \<and> \<not> matching_ip t)))"

definition ip_token_v1_only_or_broken_v2_is_not_matching_ip :: "crypto \<Rightarrow> i64 \<Rightarrow> bool" where
  "ip_token_v1_only_or_broken_v2_is_not_matching_ip C now \<longleftrightarrow>
     unwrap_test (parse_ip_addr ''62.1.2.3'') (\<lambda>ip.
     let v1 = test_make_v1 C ''control-a-secret'' UUID now;
         broken = v1 @ ''_#v2#notbase64!'';
         other = make_test_token C ''control-b-secret'' UUID now ip
     in unwrap_ok (check_ip_token C v1 two_keys ip now) (\<lambda>t. \<not> matching_ip t) \<and>
        unwrap_ok (check_ip_token C broken two_keys ip now) (\<lambda>t. \<not> matching_ip t) \<and>
        unwrap_test (split_once ''_#v2#'' other) (\<lambda>(_, rest).
          unwrap_ok (check_ip_token C (v1 @ ''_#v2#'' @ rest) two_keys ip now)
            (\<lambda>t. \<not> matching_ip t)))"

text \<open>The assertions of \<open>ip_token_rejects_invalid_v1\<close>, in the order of the source.\<close>

definition ip_token_rejects_invalid_v1 :: "crypto \<Rightarrow> i64 \<Rightarrow> bool" where
  "ip_token_rejects_invalid_v1 C now \<longleftrightarrow>
     unwrap_test (parse_ip_addr ''62.1.2.3'') (\<lambda>ip.
     let unknown = make_test_token C ''unknown-secret'' UUID now ip;
         late = make_test_token C ''control-a-secret'' UUID (now - MAX_ACCEPT_LATE - 5) ip;
         early = make_test_token C ''control-a-secret'' UUID (now + MAX_ACCEPT_EARLY + 5) ip;
         tok = make_test_token C ''control-a-secret'' UUID now ip
     in check_ip_token C unknown two_keys ip now = Inl InvalidHmac \<and>
        (case check_ip_token C late two_keys ip now of Inl (TooLate _) \<Rightarrow> True | _ \<Rightarrow> False) \<and>
        (case check_ip_token C early two_keys ip now of Inl (TooEarly _) \<Rightarrow> True | _ \<Rightarrow> False) \<and>
        check_ip_token C ''garbage'' two_keys ip now = Inl ParseError \<and>
        unwrap_test (split_once ''_#v2#'' tok) (\<lambda>(_, v2).
          let forged = UUID @ ''_'' @ int_to_string now @ ''_bogus_#v2#'' @ v2
          in check_ip_token C forged two_keys ip now = Inl InvalidHmac))"

section \<open>Tokens of version 2\<close>

definition v2_correct_ipv4_accepted :: "crypto \<Rightarrow> i64 \<Rightarrow> bool" where
  "v2_correct_ipv4_accepted C now \<longleftrightarrow>
     (let ip = V4 (Ipv4Addr 62 1 2 3); tok = make_v2 C SEED ip (of_int now)
      in is_accepted (validate_token C tok (one_key SEED) (Some ip) False (\<lambda>_. now)))"

definition v2_correct_ipv6_accepted :: "crypto \<Rightarrow> i64 \<Rightarrow> bool" where
  "v2_correct_ipv6_accepted C now \<longleftrightarrow>
     unwrap_test (parse_ip_addr ''2001:db8::1'') (\<lambda>ip.
     let tok = make_v2 C SEED ip (of_int now)
     in is_accepted (validate_token C tok (one_key SEED) (Some ip) False (\<lambda>_. now)))"

definition v2_wrong_ipv4_rejected :: "crypto \<Rightarrow> i64 \<Rightarrow> bool" where
  "v2_wrong_ipv4_rejected C now \<longleftrightarrow>
     (let issued_for = V4 (Ipv4Addr 62 1 2 3); connecting = V4 (Ipv4Addr 9 9 9 9);
          tok = make_v2 C SEED issued_for (of_int now)
      in validate_token C tok (one_key SEED) (Some connecting) False (\<lambda>_. now) = InvalidIp)"

definition v2_wrong_ipv6_rejected :: "crypto \<Rightarrow> i64 \<Rightarrow> bool" where
  "v2_wrong_ipv6_rejected C now \<longleftrightarrow>
     unwrap_test (parse_ip_addr ''2001:db8::1'') (\<lambda>issued_for.
     unwrap_test (parse_ip_addr ''2001:db8::2'') (\<lambda>connecting.
     let tok = make_v2 C SEED issued_for (of_int now)
     in validate_token C tok (one_key SEED) (Some connecting) False (\<lambda>_. now) = InvalidIp))"

definition v2_ipv4_token_from_ipv6_rejected :: "crypto \<Rightarrow> i64 \<Rightarrow> bool" where
  "v2_ipv4_token_from_ipv6_rejected C now \<longleftrightarrow>
     (let issued_for = V4 (Ipv4Addr 62 1 2 3)
      in unwrap_test (parse_ip_addr ''2001:db8::1'') (\<lambda>connecting.
         let tok = make_v2 C SEED issued_for (of_int now)
         in validate_token C tok (one_key SEED) (Some connecting) False (\<lambda>_. now) = InvalidIp))"

definition v2_wrong_key_rejected :: "crypto \<Rightarrow> i64 \<Rightarrow> bool" where
  "v2_wrong_key_rejected C now \<longleftrightarrow>
     (let ip = V4 (Ipv4Addr 62 1 2 3); tok = make_v2 C SEED ip (of_int now)
      in validate_token C tok (one_key ''othersecret'') (Some ip) False (\<lambda>_. now) = InvalidHmac)"

definition v2_too_late_rejected :: "crypto \<Rightarrow> i64 \<Rightarrow> bool" where
  "v2_too_late_rejected C now \<longleftrightarrow>
     (let ip = V4 (Ipv4Addr 62 1 2 3); tok = make_v2 C SEED ip (of_int (now - 1000))
      in case validate_token C tok (one_key SEED) (Some ip) False (\<lambda>_. now) of
           TooLate _ \<Rightarrow> True | _ \<Rightarrow> False)"

definition v2_too_early_rejected :: "crypto \<Rightarrow> i64 \<Rightarrow> bool" where
  "v2_too_early_rejected C now \<longleftrightarrow>
     (let ip = V4 (Ipv4Addr 62 1 2 3); tok = make_v2 C SEED ip (of_int (now + 1000))
      in case validate_token C tok (one_key SEED) (Some ip) False (\<lambda>_. now) of
           TooEarly _ \<Rightarrow> True | _ \<Rightarrow> False)"

definition v2_missing_source_ip_rejected :: "crypto \<Rightarrow> i64 \<Rightarrow> bool" where
  "v2_missing_source_ip_rejected C now \<longleftrightarrow>
     (let ip = V4 (Ipv4Addr 62 1 2 3); tok = make_v2 C SEED ip (of_int now)
      in validate_token C tok (one_key SEED) None False (\<lambda>_. now) = InvalidIp)"

definition v2_accepted_in_v2_only_mode :: "crypto \<Rightarrow> i64 \<Rightarrow> bool" where
  "v2_accepted_in_v2_only_mode C now \<longleftrightarrow>
     (let ip = V4 (Ipv4Addr 62 1 2 3); tok = make_v2 C SEED ip (of_int now)
      in is_accepted (validate_token C tok (one_key SEED) (Some ip) True (\<lambda>_. now)))"

definition combined_token_ignores_v1_prefix_and_uses_v2 :: "crypto \<Rightarrow> i64 \<Rightarrow> bool" where
  "combined_token_ignores_v1_prefix_and_uses_v2 C now \<longleftrightarrow>
     (let ip = V4 (Ipv4Addr 62 1 2 3);
          tok = ''garbage_not_a_real_v1_token_#v2#'' @ v2_bare C SEED ip (of_int now)
      in is_accepted (validate_token C tok (one_key SEED) (Some ip) False (\<lambda>_. now)))"

definition ipv4_mapped_ipv6_matches_v4 :: bool where
  "ipv4_mapped_ipv6_matches_v4 \<longleftrightarrow>
     (let v4 = V4 (Ipv4Addr 62 1 2 3)
      in unwrap_test (parse_ip_addr ''::ffff:62.1.2.3'') (\<lambda>mapped.
         mapped_ipv6 v4 = mapped_ipv6 mapped))"

section \<open>Tokens of version 1\<close>

definition v1_still_accepted_by_default :: "crypto \<Rightarrow> i64 \<Rightarrow> bool" where
  "v1_still_accepted_by_default C now \<longleftrightarrow>
     (let tok = test_make_v1 C SEED UUID now
      in is_accepted (validate_token C tok (one_key SEED) None False (\<lambda>_. now)))"

definition v1_rejected_in_v2_only_mode :: "crypto \<Rightarrow> i64 \<Rightarrow> bool" where
  "v1_rejected_in_v2_only_mode C now \<longleftrightarrow>
     (let tok = test_make_v1 C SEED UUID now
      in validate_token C tok (one_key SEED) None True (\<lambda>_. now) = V2Required)"

section \<open>Golden vectors\<close>

definition v2_golden_vector_is_byte_compatible_with_reference :: "crypto \<Rightarrow> bool" where
  "v2_golden_vector_is_byte_compatible_with_reference C \<longleftrightarrow>
     v2_bare C SEED (V4 (Ipv4Addr 62 1 2 3)) 1700000000 = V2_GOLDEN"

definition v2_golden_token_crypto_valid_but_old :: "crypto \<Rightarrow> i64 \<Rightarrow> bool" where
  "v2_golden_token_crypto_valid_but_old C now \<longleftrightarrow>
     (let ip = V4 (Ipv4Addr 62 1 2 3)
      in case validate_token C (wrap_v2 V2_GOLDEN) (one_key SEED) (Some ip) False (\<lambda>_. now) of
           TooLate _ \<Rightarrow> True | _ \<Rightarrow> False)"

definition v1_golden_token_crypto_valid_but_old :: "crypto \<Rightarrow> i64 \<Rightarrow> bool" where
  "v1_golden_token_crypto_valid_but_old C now \<longleftrightarrow>
     (case validate_token C V1_GOLDEN (one_key SEED) None False (\<lambda>_. now) of
        TooLate _ \<Rightarrow> True | _ \<Rightarrow> False)"


section \<open>Evaluation\<close>

lemmas parse_ip_eval =
  parse_with_def read_ip_addr_def read_ipv4_addr_def read_octet_def read_separator_def
  read_number_def read_given_char_def is_radix_digit_def radix_val_def digit_val_def hex_val_def
  radix_number_def read_ipv6_addr_def read_groups.simps replicate_numeral_eval

lemma parsed_addresses:
  "parse_ip_addr ''62.1.2.3'' = Some (V4 (Ipv4Addr 62 1 2 3))"
  "parse_ip_addr ''2001:db8::1'' = Some (V6 (Ipv6Addr 0x2001 0xDB8 0 0 0 0 0 1))"
  "parse_ip_addr ''2001:db8::2'' = Some (V6 (Ipv6Addr 0x2001 0xDB8 0 0 0 0 0 2))"
  "parse_ip_addr ''::ffff:62.1.2.3'' = Some (V6 (Ipv6Addr 0 0 0 0 0 0xFFFF 0x3E01 0x203))"
  by (simp_all add: parse_ip_eval of_be16_def)

lemma mapped_v4: "mapped_ipv6 (V4 (Ipv4Addr a b c d)) =
    [0, 0, 0, 0, 0, 0, 0, 0, 0, 0, 255, 255, a, b, c, d]"
proof -
  have "be16 0 = [0, 0]" "be16 0xFFFF = [255, 255]" by (simp_all add: be16_def)
  then show ?thesis by (simp add: mapped_ipv6_V4 octets6_def)
qed

lemmas mapped_addresses = mapped_v4 mapped_ipv6_V6 octets6_def be16_def

lemma test_times:
  "to_be_bytes 1760000000 = [104, 231, 120, 0]" "to_be_bytes 1700000000 = [101, 83, 241, 0]"
  "to_be_bytes 1759999000 = [104, 231, 116, 24]" "to_be_bytes 1760001000 = [104, 231, 123, 232]"
  by (simp_all add: to_be_bytes_def)

lemma test_time_text:
  "int_to_string 1760000000 = ''1760000000''" "int_to_string 1759999905 = ''1759999905''"
  "int_to_string 1760000025 = ''1760000025''"
  by (simp_all add: int_to_string_def nat_to_string.simps digit_char_def char_of_def bit_0)

lemma test_make_v1_eq: "test_make_v1 C seed uuid ts = make_v1 C seed uuid ts"
  by (simp add: test_make_v1_def make_v1_def Let_def)

text \<open>The parts of the tokens the tests build.\<close>

lemma uuid_no_mark: "CHR ''#'' \<notin> set UUID" "CHR ''_'' \<notin> set UUID"
  by (simp_all add: UUID_def)

lemma make_v1_no_mark: "CHR ''#'' \<notin> set u \<Longrightarrow> CHR ''#'' \<notin> set (make_v1 std_crypto k u ts)"
  using int_to_string_no_special [of ts]
  by (simp add: make_v1_def Let_def hmac_sha1_b64_def b64_enc_plain)

lemma split_v1_v2:
  "CHR ''#'' \<notin> set u \<Longrightarrow>
   split_once ''_#v2#'' (make_v1 std_crypto k u ts @ CHR ''_'' # CHR ''#'' # CHR ''v'' # CHR ''2'' # CHR ''#'' # r) =
   Some (make_v1 std_crypto k u ts, r)"
  using split_once_second [of "''_#v2#''" "CHR ''_''" "CHR ''#''" "''v2#''" "make_v1 std_crypto k u ts" r]
    make_v1_no_mark by simp

lemma split_v1_only:
  "CHR ''#'' \<notin> set s \<Longrightarrow> split_once ''_#v2#'' s = None" "CHR ''#'' \<notin> set s \<Longrightarrow> split_once ''#v2#'' s = None"
  by (auto simp: split_once_None sublist_def)

lemma check_v1_parts:
  assumes "CHR ''#'' \<notin> set u"
  shows "check_ip_token std_crypto (make_v1 std_crypto k u ts @ ''_#v2#'' @ r) keys ip now =
      (case match_v1 std_crypto (make_v1 std_crypto k u ts) keys of
         Inl e \<Rightarrow> Inl e
       | Inr (uuid, start, key) \<Rightarrow>
           (case window_check start now of
              Inl e \<Rightarrow> Inl e
            | Inr _ \<Rightarrow>
                Inr \<lparr>it_key = key, open_test_uuid = uuid,
                     matching_ip =
                       (case b64_dec r of
                          None \<Rightarrow> False
                        | Some bs \<Rightarrow>
                            length bs = 16 \<and> match_v2 std_crypto bs key (mapped_ipv6 ip) = MatchOk)\<rparr>))"
    and "check_ip_token std_crypto (make_v1 std_crypto k u ts) keys ip now =
      (case match_v1 std_crypto (make_v1 std_crypto k u ts) keys of
         Inl e \<Rightarrow> Inl e
       | Inr (uuid, start, key) \<Rightarrow>
           (case window_check start now of
              Inl e \<Rightarrow> Inl e
            | Inr _ \<Rightarrow> Inr \<lparr>it_key = key, open_test_uuid = uuid, matching_ip = False\<rparr>))"
  using split_v1_v2 [OF assms, of k ts r] split_v1_only(1) [OF make_v1_no_mark [OF assms, of k ts]]
  by (simp_all add: check_ip_token_def V2_MARK_def Let_def split: sum.splits)

lemmas hash_test_eval =
  hmac_sha256_def hmac_sha1_b64_def as_bytes_def token_vectors b64_dec_enc test_times test_time_text

lemmas token_test_eval =
  Let_def unwrap_test_def unwrap_ok_def parsed_addresses mapped_addresses hash_test_eval

lemmas v2_test_eval =
  make_v2_def wrap_v2_def v2_bare_def one_key_def SEED_def validate_token_def extract_v2_def
  V2_MARK_def strip_prefix_def starts_with_def validate_v2_def authenticate_v2_def match_v2_def

lemmas window_test_eval =
  time_window_def window_check_def MAX_ACCEPT_EARLY_def MAX_ACCEPT_LATE_def reconstruct_time_def
  PERIOD_def from_be_bytes_def

lemma golden_is_encoded:
  "V2_GOLDEN = b64_enc [101, 83, 241, 0, 76, 196, 172, 206, 190, 84, 25, 55, 30, 100, 243, 63]"
  by (simp add: V2_GOLDEN_def b64_enc_eval)

lemma golden_tests:
  "v2_golden_vector_is_byte_compatible_with_reference std_crypto"
  "v2_golden_token_crypto_valid_but_old std_crypto 1760000000"
  by (simp_all add: v2_golden_vector_is_byte_compatible_with_reference_def
      v2_golden_token_crypto_valid_but_old_def golden_is_encoded
      token_test_eval v2_test_eval window_test_eval)

lemma v2_accepting_tests:
  "v2_correct_ipv4_accepted std_crypto 1760000000"
  "v2_correct_ipv6_accepted std_crypto 1760000000"
  "v2_accepted_in_v2_only_mode std_crypto 1760000000"
  "combined_token_ignores_v1_prefix_and_uses_v2 std_crypto 1760000000"
  by (simp_all add: v2_correct_ipv4_accepted_def v2_correct_ipv6_accepted_def
      v2_accepted_in_v2_only_mode_def combined_token_ignores_v1_prefix_and_uses_v2_def
      token_test_eval v2_test_eval window_test_eval)

lemma v2_address_tests:
  "v2_wrong_ipv4_rejected std_crypto 1760000000"
  "v2_wrong_ipv6_rejected std_crypto 1760000000"
  "v2_ipv4_token_from_ipv6_rejected std_crypto 1760000000"
  "v2_missing_source_ip_rejected std_crypto 1760000000"
  by (simp_all add: v2_wrong_ipv4_rejected_def v2_wrong_ipv6_rejected_def
      v2_ipv4_token_from_ipv6_rejected_def v2_missing_source_ip_rejected_def
      token_test_eval v2_test_eval)

lemma v2_rejecting_tests:
  "v2_wrong_key_rejected std_crypto 1760000000"
  "v2_too_late_rejected std_crypto 1760000000"
  "v2_too_early_rejected std_crypto 1760000000"
  by (simp_all add: v2_wrong_key_rejected_def v2_too_late_rejected_def v2_too_early_rejected_def
      token_test_eval v2_test_eval window_test_eval)

lemma mapped_test: "ipv4_mapped_ipv6_matches_v4"
  by (simp add: ipv4_mapped_ipv6_matches_v4_def token_test_eval)

lemmas v1_test_eval =
  match_v1_def make_v1_def numeral_3_eq_3 UUID_def strip_prefix_def starts_with_def two_keys_def
  parse_sint_def parse_digits_def digit_val_def

lemma test_token_parts:
  "make_test_token std_crypto k u ts ip =
     make_v1 std_crypto k u ts @ ''_#v2#'' @ b64_enc (make_v2_bytes std_crypto k ts ip)"
  by (simp add: make_test_token_def)

text \<open>The first part of the tokens against the two keys of the tests.\<close>

abbreviation key_a :: secret_key where
  "key_a \<equiv> \<lparr>sk_key = ''control-a-secret'', sk_label = ''control-a''\<rparr>"

abbreviation key_b :: secret_key where
  "key_b \<equiv> \<lparr>sk_key = ''control-b-secret'', sk_label = ''control-b''\<rparr>"

lemma match_v1_first:
  assumes "length u = 36" and "CHR ''_'' \<notin> set u" and "\<bar>ts\<bar> < 2 ^ 63" and "length (int_to_string ts) \<le> 12"
  shows "match_v1 C (make_v1 C (sk_key k) u ts) (k # keys) = Inr (u, ts, k)"
  by (rule match_v1_issued [OF assms]) simp

lemma test_token_times:
  "length (int_to_string 1760000000) \<le> 12" "length (int_to_string 1759999905) \<le> 12"
  "length (int_to_string 1760000025) \<le> 12"
  by (simp_all add: test_time_text)

lemma uuid_length: "length UUID = 36"
  by (simp add: UUID_def)

lemma match_test_tokens:
  "match_v1 std_crypto (make_v1 std_crypto ''control-a-secret'' UUID 1760000000) two_keys =
     Inr (UUID, 1760000000, key_a)"
  "match_v1 std_crypto (make_v1 std_crypto ''control-a-secret'' UUID 1759999905) two_keys =
     Inr (UUID, 1759999905, key_a)"
  "match_v1 std_crypto (make_v1 std_crypto ''control-a-secret'' UUID 1760000025) two_keys =
     Inr (UUID, 1760000025, key_a)"
  "match_v1 std_crypto (make_v1 std_crypto SEED UUID 1760000000) (one_key SEED) =
     Inr (UUID, 1760000000, \<lparr>sk_key = SEED, sk_label = ''test''\<rparr>)"
  using match_v1_first [OF uuid_length uuid_no_mark(2) _ test_token_times(1), where k = key_a and C = std_crypto]
    match_v1_first [OF uuid_length uuid_no_mark(2) _ test_token_times(2), where k = key_a and C = std_crypto]
    match_v1_first [OF uuid_length uuid_no_mark(2) _ test_token_times(3), where k = key_a and C = std_crypto]
    match_v1_first [OF uuid_length uuid_no_mark(2) _ test_token_times(1),
      where k = "\<lparr>sk_key = SEED, sk_label = ''test''\<rparr>" and C = std_crypto]
  by (simp_all add: two_keys_def one_key_def)

lemma match_test_token_b:
  "match_v1 std_crypto (make_v1 std_crypto ''control-b-secret'' UUID 1760000000) two_keys =
     Inr (UUID, 1760000000, key_b)"
  using match_v1_issued [OF uuid_length uuid_no_mark(2) _ test_token_times(1), of std_crypto key_b two_keys]
  by (simp add: two_keys_def make_v1_def Let_def hash_test_eval UUID_def)

lemma match_test_token_unknown:
  "match_v1 std_crypto (make_v1 std_crypto ''unknown-secret'' UUID 1760000000) two_keys = Inl InvalidHmac"
  by (simp add: v1_test_eval hash_test_eval Let_def)

lemma not_base64: "b64_dec ''notbase64!'' = None" "b64_dec ''bogus'' = None"
  by (simp_all add: b64_dec.simps split: option.split)

lemma forged_token:
  "check_ip_token std_crypto (UUID @ ''_1760000000_bogus_#v2#'' @ r) two_keys ip now = Inl InvalidHmac"
  "check_ip_token std_crypto ''garbage'' two_keys ip now = Inl ParseError"
  by (simp_all add: check_ip_token_def V2_MARK_def strip_prefix_def starts_with_def match_v1_def
      numeral_3_eq_3 UUID_def parse_sint_def parse_digits_def digit_val_def Let_def two_keys_def
      hmac_sha1_b64_def b64_enc_not [OF not_base64(2)])

lemmas ip_token_test_eval =
  unwrap_test_def parsed_addresses option.case Let_def test_token_parts test_make_v1_eq
  check_v1_parts [OF uuid_no_mark(1)] prod.case

lemmas ip_token_parts_eval =
  split_v1_v2 uuid_no_mark check_v1_parts(1) [simplified] check_v1_parts(2) match_test_tokens
  match_test_token_b match_test_token_unknown unwrap_ok_def window_check_def MAX_ACCEPT_EARLY_def
  MAX_ACCEPT_LATE_def

lemmas ip_token_hash_eval = match_v2_def make_v2_bytes_def Let_def hash_test_eval mapped_addresses

lemma ip_token_key_tests:
  "ip_token_selects_the_issuing_key_not_the_first std_crypto 1760000000"
  "ip_token_matching_ip_false_for_other_address std_crypto 1760000000"
  unfolding ip_token_selects_the_issuing_key_not_the_first_def
    ip_token_matching_ip_false_for_other_address_def ip_token_test_eval
  by (simp_all add: ip_token_parts_eval) (simp_all add: ip_token_hash_eval)

lemma ip_token_v1_test: "ip_token_v1_only_or_broken_v2_is_not_matching_ip std_crypto 1760000000"
  unfolding ip_token_v1_only_or_broken_v2_is_not_matching_ip_def ip_token_test_eval
  by (simp add: ip_token_parts_eval not_base64) (simp add: ip_token_hash_eval)

lemma ip_token_reject_test: "ip_token_rejects_invalid_v1 std_crypto 1760000000"
  unfolding ip_token_rejects_invalid_v1_def ip_token_test_eval
  by (simp add: ip_token_parts_eval test_time_text forged_token(1) [simplified] forged_token(2))

lemma golden_v1_match:
  "match_v1 std_crypto V1_GOLDEN (one_key SEED) = Inr (UUID, 1700000000, \<lparr>sk_key = SEED, sk_label = ''test''\<rparr>)"
  by (simp add: V1_GOLDEN_def SEED_def one_key_def v1_test_eval hash_test_eval Let_def b64_enc_eval)

lemma golden_v1_plain: "extract_v2 V1_GOLDEN = None"
  by (simp add: V1_GOLDEN_def extract_v2_def V2_MARK_def strip_prefix_def starts_with_def)

lemma v1_tests:
  "v1_still_accepted_by_default std_crypto 1760000000"
  "v1_rejected_in_v2_only_mode std_crypto 1760000000"
  "v1_golden_token_crypto_valid_but_old std_crypto 1760000000"
  by (simp_all add: v1_still_accepted_by_default_def v1_rejected_in_v2_only_mode_def
      v1_golden_token_crypto_valid_but_old_def validate_token_def extract_v2_def [of "make_v1 C k u t" for C k u t]
      V2_MARK_def test_make_v1_eq split_v1_only(2) make_v1_no_mark uuid_no_mark Let_def validate_v1_def
      match_test_tokens golden_v1_plain golden_v1_match time_window_def window_check_def
      MAX_ACCEPT_EARLY_def MAX_ACCEPT_LATE_def)

lemma golden_v2_parts:
  "extract_v2 (wrap_v2 V2_GOLDEN) = Some V2_GOLDEN"
  "authenticate_v2 std_crypto V2_GOLDEN (one_key SEED) (Some (V4 (Ipv4Addr 62 1 2 3))) =
     Inr (1700000000, ''test'')"
  by (simp_all add: extract_v2_def wrap_v2_def V2_MARK_def strip_prefix_def starts_with_def
      authenticate_v2_def golden_is_encoded one_key_def SEED_def match_v2_def hash_test_eval
      mapped_addresses Let_def from_be_bytes_def)

section \<open>Properties\<close>

text \<open>
  The tokens of the reference implementation are authentic, with HMAC and Base64 as the
  standards define them. The v2 token of the test vectors is, byte for byte, what the model
  computes for the vectors' key, time and address. Both reference tokens authenticate under
  their key, so that their validation ends in the verdict of the time window for the time they
  were issued for, as long as the clock is within \<open>2 ^ 31\<close> seconds of it, and for v2 with v2 tokens
  required or not.
\<close>

theorem golden_tokens_authentic:
  assumes "\<bar>1700000000 - wall 0\<bar> < 2 ^ 31"
  shows "v2_bare std_crypto SEED (V4 (Ipv4Addr 62 1 2 3)) 1700000000 = V2_GOLDEN \<and>
    validate_token std_crypto V1_GOLDEN (one_key SEED) src False wall =
      time_window 1700000000 (wall 0) ''test'' \<and>
    validate_token std_crypto (wrap_v2 V2_GOLDEN) (one_key SEED)
        (Some (V4 (Ipv4Addr 62 1 2 3))) v2o wall =
      time_window 1700000000 (wall 1) ''test''"
proof (intro conjI)
  show "v2_bare std_crypto SEED (V4 (Ipv4Addr 62 1 2 3)) 1700000000 = V2_GOLDEN"
    using golden_tests(1) by (simp add: v2_golden_vector_is_byte_compatible_with_reference_def)
  show "validate_token std_crypto V1_GOLDEN (one_key SEED) src False wall =
      time_window 1700000000 (wall 0) ''test''"
    by (simp add: validate_token_def golden_v1_plain validate_v1_def golden_v1_match)
  have "reconstruct_time 1700000000 (wall 0) = 1700000000"
    using reconstruct_time_unique [of 1700000000 "wall 0"] assms by simp
  then show "validate_token std_crypto (wrap_v2 V2_GOLDEN) (one_key SEED)
        (Some (V4 (Ipv4Addr 62 1 2 3))) v2o wall =
      time_window 1700000000 (wall 1) ''test''"
    by (simp add: validate_token_def golden_v2_parts validate_v2_def Let_def)
qed

theorem golden_tokens_authentic_witness:
  "validate_token std_crypto (wrap_v2 V2_GOLDEN) (one_key SEED)
     (Some (V4 (Ipv4Addr 62 1 2 3))) True (\<lambda>_. 1699999995) = Accepted 5 ''test''"
proof -
  have "\<bar>1700000000 - (\<lambda>_. 1699999995) 0\<bar> < (2 ^ 31 :: int)" by simp
  from golden_tokens_authentic [OF this, of None True] show ?thesis
    by (simp add: time_window_def window_check_def MAX_ACCEPT_EARLY_def MAX_ACCEPT_LATE_def)
qed

text \<open>
  The model passes the unit tests of the token module, evaluated with HMAC-SHA-1,
  HMAC-SHA-256 and Base64 as the standards define them.
\<close>

theorem token_tests_pass:
  "ip_token_selects_the_issuing_key_not_the_first std_crypto 1760000000 \<and>
   ip_token_matching_ip_false_for_other_address std_crypto 1760000000 \<and>
   ip_token_v1_only_or_broken_v2_is_not_matching_ip std_crypto 1760000000 \<and>
   ip_token_rejects_invalid_v1 std_crypto 1760000000 \<and>
   v2_correct_ipv4_accepted std_crypto 1760000000 \<and>
   v2_correct_ipv6_accepted std_crypto 1760000000 \<and>
   v2_wrong_ipv4_rejected std_crypto 1760000000 \<and>
   v2_wrong_ipv6_rejected std_crypto 1760000000 \<and>
   v2_ipv4_token_from_ipv6_rejected std_crypto 1760000000 \<and>
   v2_wrong_key_rejected std_crypto 1760000000 \<and>
   v2_too_late_rejected std_crypto 1760000000 \<and>
   v2_too_early_rejected std_crypto 1760000000 \<and>
   v2_missing_source_ip_rejected std_crypto 1760000000 \<and>
   v1_still_accepted_by_default std_crypto 1760000000 \<and>
   v1_rejected_in_v2_only_mode std_crypto 1760000000 \<and>
   v2_accepted_in_v2_only_mode std_crypto 1760000000 \<and>
   ipv4_mapped_ipv6_matches_v4 \<and>
   v2_golden_vector_is_byte_compatible_with_reference std_crypto \<and>
   v2_golden_token_crypto_valid_but_old std_crypto 1760000000 \<and>
   combined_token_ignores_v1_prefix_and_uses_v2 std_crypto 1760000000 \<and>
   v1_golden_token_crypto_valid_but_old std_crypto 1760000000"
  by (intro conjI ip_token_key_tests ip_token_v1_test ip_token_reject_test v2_accepting_tests
      v2_address_tests v2_rejecting_tests v1_tests mapped_test golden_tests)

end
