(* ===== verification/Test_Ip.thy ===== *)
theory Test_Ip
  imports Std_Json Test_Token
begin

text \<open>
  The unit tests of the address check (\<open>src/src/ip_check.rs\<close>, module \<open>tests\<close>), each
  \<open>#[test]\<close> function as a predicate over the cryptographic functions, the JSON reader and the
  wall clock. They are evaluated with the functions of \<open>Std_Crypto\<close> and \<open>Std_Json\<close>.
\<close>

section \<open>Helpers\<close>

definition KEY :: bytes where
  "KEY = as_bytes ''testkey12345''"

definition IP_UUID :: string where
  "IP_UUID = ''f71d53f4-c67c-4b99-b319-979f714cd408''"

definition ip_keys :: "secret_key list" where
  "ip_keys =
     [\<lparr>sk_key = ''control-a-secret'', sk_label = ''control-a''\<rparr>,
      \<lparr>sk_key = ''control-b-secret'', sk_label = ''control-b''\<rparr>]"

text \<open>\<open>None\<close> stands for an \<open>unwrap\<close> that panics.\<close>

definition token_b :: "crypto \<Rightarrow> i64 \<Rightarrow> string \<Rightarrow> string option" where
  "token_b C now issued_for =
     map_option (make_test_token C ''control-b-secret'' IP_UUID now) (parse_ip_addr issued_for)"

definition answer ::
    "crypto \<Rightarrow> serde \<Rightarrow> i64 \<Rightarrow> string \<Rightarrow> string \<Rightarrow> (ip_error + ip_answer) option" where
  "answer C S now flds public =
     (let sep = if flds = [] then [] else '',''
      in case (token_b C now public, parse_ip_addr public) of
           (Some tok, Some ip) \<Rightarrow>
             (let body = ''{'' @ QQ ''token'' @ '':'' @ QQ tok @ sep @ flds @ ''}''
              in Some (ip_response C S (as_bytes body) ip ip_keys now))
         | _ \<Rightarrow> None)"

definition test_json :: "crypto \<Rightarrow> serde \<Rightarrow> i64 \<Rightarrow> string \<Rightarrow> string \<Rightarrow> string option" where
  "test_json C S now flds public =
     (case answer C S now flds public of Some (Inr a) \<Rightarrow> Some (ans_json a) | _ \<Rightarrow> None)"

definition test_status :: "crypto \<Rightarrow> serde \<Rightarrow> i64 \<Rightarrow> string \<Rightarrow> string option" where
  "test_status C S now body =
     (case parse_ip_addr ''203.0.113.1'' of
        None \<Rightarrow> None
      | Some ip \<Rightarrow>
          (case ip_response C S (as_bytes body) ip ip_keys now of
             Inr _ \<Rightarrow> Some ''200''
           | Inl (status, _) \<Rightarrow> Some (take 3 status)))"

text \<open>One member of a JSON object whose value is a text.\<close>

definition member :: "string \<Rightarrow> string \<Rightarrow> string" where
  "member k v = QQ k @ '':'' @ QQ v"

definition to_uppercase :: "string \<Rightarrow> string" where
  "to_uppercase = map (\<lambda>c. let n = (of_char c :: nat) in if 97 \<le> n \<and> n \<le> 122 then char_of (n - 32) else c)"

section \<open>Tests without a request\<close>

definition ip_matches_path :: bool where
  "ip_matches_path \<longleftrightarrow>
     ip_matches ''/ip'' \<and> ip_matches ''/ip?x=1'' \<and> \<not> ip_matches ''/ip/'' \<and> \<not> ip_matches ''/ipx'' \<and>
     \<not> ip_matches ''/RMBTControlServer/ip''"

definition content_type_test :: bool where
  "content_type_test \<longleftrightarrow>
     is_json ''application/json'' \<and> is_json ''Application/JSON; charset=utf-8'' \<and>
     \<not> is_json ''text/plain'' \<and> \<not> is_json []"

definition parses_uuid :: bool where
  "parses_uuid \<longleftrightarrow>
     unwrap_test (parse_uuid IP_UUID) (\<lambda>bytes.
       take 4 bytes = [0xF7, 0x1D, 0x53, 0xF4] \<and> bytes ! 15 = 0x08 \<and>
       parse_uuid (to_uppercase IP_UUID) = Some bytes \<and>
       parse_uuid (''O'' @ IP_UUID) = None \<and>
       parse_uuid ''f71d53f4c67c4b99b319979f714cd408'' = None \<and>
       parse_uuid ''+71d53f4-c67c-4b99-b319-979f714cd408'' = None)"

definition signature_binds_ip_and_uuid :: "crypto \<Rightarrow> bool" where
  "signature_binds_ip_and_uuid C \<longleftrightarrow>
     unwrap_test (parse_uuid IP_UUID) (\<lambda>uuid.
     unwrap_test (parse_ip_addr ''203.0.113.1'') (\<lambda>v4.
     unwrap_test (parse_ip_addr ''::ffff:203.0.113.1'') (\<lambda>mapped.
     unwrap_test (parse_ip_addr ''203.0.113.2'') (\<lambda>v4'.
     let sig = ip_signature C KEY v4 uuid; other = uuid[0 := uuid ! 0 XOR 1]
     in b64_encode C sig = ''HVDXiyb2awlRvPhVIx5y/ERz113y0rnCMCHyU2ktAcA='' \<and>
        sig = ip_signature C KEY mapped uuid \<and>
        sig \<noteq> ip_signature C KEY v4' uuid \<and>
        sig \<noteq> ip_signature C KEY v4 other \<and>
        sig \<noteq> ip_signature C (as_bytes ''otherkey'') v4 uuid))))"

section \<open>Tests of the answer\<close>

definition nat_test :: "crypto \<Rightarrow> serde \<Rightarrow> i64 \<Rightarrow> string \<Rightarrow> string \<Rightarrow> string \<Rightarrow> bool" where
  "nat_test C S now flds p expected =
     unwrap_test (test_json C S now flds p) (contains (member ''nat_type'' expected))"

definition nat_types_match_control_server :: "crypto \<Rightarrow> serde \<Rightarrow> i64 \<Rightarrow> bool" where
  "nat_types_match_control_server C S now \<longleftrightarrow>
     (let p = ''213.47.60.109''; loc = member ''client_ip_local''
      in unwrap_test (test_json C S now [] p)
           (starts_with (''{'' @ member ''v'' ''4'' @ '','' @ member ''ip'' p @ '','' @
                         member ''nat_type'' ''is_ipv4'' @ '','')) \<and>
         nat_test C S now (loc ''192.168.1.5'') p ''nat_local_to_public_ipv4'' \<and>
         nat_test C S now (loc ''213.47.60.109'') p ''no_nat_ipv4'' \<and>
         nat_test C S now (loc ''::ffff:213.47.60.109'') p ''no_nat_ipv4'' \<and>
         nat_test C S now (loc ''fe80::1'') p ''nat_ipv6_to_public_ipv4'' \<and>
         nat_test C S now (QQ ''client_ip_local'' @ '':null,'' @ member ''client_uuid'' ''x'') p
           ''is_ipv4'' \<and>
         nat_test C S now (loc ''  '') p ''is_ipv4'')"

definition ipv6_and_mapped_clients :: "crypto \<Rightarrow> serde \<Rightarrow> i64 \<Rightarrow> bool" where
  "ipv6_and_mapped_clients C S now \<longleftrightarrow>
     unwrap_test (test_json C S now (member ''client_ip_local'' ''2001:db8::1'') ''2001:db8::1'')
       (starts_with (''{'' @ member ''v'' ''6'' @ '','' @ member ''ip'' ''2001:db8::1'' @ '','' @
                     member ''nat_type'' ''no_nat_ipv6'' @ '','')) \<and>
     unwrap_test (test_json C S now [] ''::ffff:198.51.100.7'')
       (starts_with (''{'' @ member ''v'' ''4'' @ '','' @ member ''ip'' ''198.51.100.7'' @ '','' @
                     member ''nat_type'' ''is_ipv4'' @ '','' @ QQ ''matching_ip'' @ '':true,'')) \<and>
     nat_test C S now (member ''client_ip_local'' ''10.0.0.2'') ''10.0.0.1'' ''nat_local_to_local_ipv4''"

definition rejects_bad_requests :: "crypto \<Rightarrow> serde \<Rightarrow> i64 \<Rightarrow> bool" where
  "rejects_bad_requests C S now \<longleftrightarrow>
     unwrap_test (token_b C now ''203.0.113.1'') (\<lambda>tok.
       test_status C S now [] = Some ''400'' \<and>
       test_status C S now ''{x'' = Some ''400'' \<and>
       test_status C S now ''[]'' = Some ''400'' \<and>
       test_status C S now (''{'' @ member ''token'' tok @ '','' @ member ''client_ip_local'' ''nope'' @ ''}'') =
         Some ''400'' \<and>
       test_status C S now (''{'' @ member ''token'' tok @ '','' @ QQ ''client_ip_local'' @ '':5}'') =
         Some ''400'' \<and>
       test_status C S now (''{'' @ member ''token'' tok @ '','' @ QQ ''client_ip_local'' @ '':{}}'') =
         Some ''400'' \<and>
       test_status C S now (''{'' @ QQ ''token'' @ '':5}'') = Some ''400'')"

definition without_token_the_answer_is_unsigned :: "crypto \<Rightarrow> serde \<Rightarrow> i64 \<Rightarrow> bool" where
  "without_token_the_answer_is_unsigned C S now \<longleftrightarrow>
     unwrap_test (parse_ip_addr ''203.0.113.1'') (\<lambda>ip.
       list_all
         (\<lambda>body. unwrap_ok (ip_response C S (as_bytes body) ip ip_keys now) (\<lambda>a.
            \<not> contains ''matching_ip'' (ans_json a) \<and> \<not> contains ''signature'' (ans_json a) \<and>
            contains ''unsigned'' (ans_note a)))
         [''{}'', ''{'' @ QQ ''token'' @ '':null}'', ''{'' @ member ''token'' ''  '' @ ''}'',
          ''{'' @ member ''client_ip_local'' ''192.168.1.5'' @ ''}''] \<and>
       unwrap_ok (ip_response C S (as_bytes (''{'' @ member ''client_ip_local'' ''192.168.1.5'' @ ''}''))
                    ip ip_keys now) (\<lambda>a.
         ans_json a = ''{'' @ member ''v'' ''4'' @ '','' @ member ''ip'' ''203.0.113.1'' @ '','' @
           member ''nat_type'' ''nat_local_to_public_ipv4'' @ ''}''))"

definition a_given_token_must_be_valid :: "crypto \<Rightarrow> serde \<Rightarrow> i64 \<Rightarrow> bool" where
  "a_given_token_must_be_valid C S now \<longleftrightarrow>
     test_status C S now (''{'' @ member ''token'' ''garbage'' @ ''}'') = Some ''403'' \<and>
     unwrap_test (parse_ip_addr ''203.0.113.1'') (\<lambda>ip.
       let unknown = make_test_token C ''unknown-secret'' IP_UUID now ip;
           expired = make_test_token C ''control-a-secret'' IP_UUID (now - 3600) ip
       in test_status C S now (''{'' @ member ''token'' unknown @ ''}'') = Some ''403'' \<and>
          test_status C S now (''{'' @ member ''token'' expired @ ''}'') = Some ''403'')"

definition signs_with_the_key_that_issued_the_token :: "crypto \<Rightarrow> serde \<Rightarrow> i64 \<Rightarrow> bool" where
  "signs_with_the_key_that_issued_the_token C S now \<longleftrightarrow>
     unwrap_test (answer C S now (member ''test_uuid'' ''ignored'') ''203.0.113.1'') (\<lambda>r.
     unwrap_ok r (\<lambda>a.
     unwrap_test (parse_uuid IP_UUID) (\<lambda>uuid.
     unwrap_test (parse_ip_addr ''203.0.113.1'') (\<lambda>ip.
       let sig_b = b64_encode C (ip_signature C (as_bytes ''control-b-secret'') ip uuid);
           sig_a = b64_encode C (ip_signature C (as_bytes ''control-a-secret'') ip uuid)
       in contains (''key '' @ [CHR 0x27] @ ''control-b'' @ [CHR 0x27]) (ans_note a) \<and>
          \<not> contains ''is_proxy'' (ans_json a) \<and> \<not> contains ''salt'' (ans_json a) \<and>
          contains (member ''signature'' sig_b) (ans_json a) \<and>
          \<not> contains sig_a (ans_json a)))))"

definition matching_ip_reports_whether_the_token_was_issued_for_this_address ::
    "crypto \<Rightarrow> serde \<Rightarrow> i64 \<Rightarrow> bool" where
  "matching_ip_reports_whether_the_token_was_issued_for_this_address C S now \<longleftrightarrow>
     unwrap_test (answer C S now [] ''203.0.113.1'') (\<lambda>r. unwrap_ok r (\<lambda>same.
       contains (QQ ''matching_ip'' @ '':true'') (ans_json same))) \<and>
     unwrap_test (token_b C now ''203.0.113.1'') (\<lambda>tok.
     unwrap_test (parse_ip_addr ''2001:db8::7'') (\<lambda>ip.
     unwrap_ok (ip_response C S (as_bytes (''{'' @ member ''token'' tok @ ''}'')) ip ip_keys now)
       (\<lambda>other.
          contains (member ''ip'' ''2001:db8::7'') (ans_json other) \<and>
          contains (QQ ''matching_ip'' @ '':false'') (ans_json other) \<and>
          contains (QQ ''signature'' @ '':'') (ans_json other))))"

definition without_keys_a_token_is_refused :: "crypto \<Rightarrow> serde \<Rightarrow> i64 \<Rightarrow> bool" where
  "without_keys_a_token_is_refused C S now \<longleftrightarrow>
     unwrap_test (parse_ip_addr ''203.0.113.1'') (\<lambda>ip.
     unwrap_test (token_b C now ''203.0.113.1'') (\<lambda>tok.
       isl (ip_response C S (as_bytes (''{'' @ member ''token'' tok @ ''}'')) ip [] now) \<and>
       unwrap_ok (ip_response C S (as_bytes ''{}'') ip [] now) (\<lambda>a.
         ans_json a = ''{'' @ member ''v'' ''4'' @ '','' @ member ''ip'' ''203.0.113.1'' @ '','' @
           member ''nat_type'' ''is_ipv4'' @ ''}'')))"

section \<open>Evaluation\<close>

lemma parsed_peers:
  "parse_ip_addr ''203.0.113.1'' = Some (V4 (Ipv4Addr 203 0 113 1))"
  "parse_ip_addr ''203.0.113.2'' = Some (V4 (Ipv4Addr 203 0 113 2))"
  "parse_ip_addr ''213.47.60.109'' = Some (V4 (Ipv4Addr 213 47 60 109))"
  "parse_ip_addr ''192.168.1.5'' = Some (V4 (Ipv4Addr 192 168 1 5))"
  "parse_ip_addr ''10.0.0.1'' = Some (V4 (Ipv4Addr 10 0 0 1))"
  "parse_ip_addr ''10.0.0.2'' = Some (V4 (Ipv4Addr 10 0 0 2))"
  "parse_ip_addr ''nope'' = None" "parse_ip_addr ''5'' = None"
  by (simp_all add: parse_ip_eval)

lemma parsed_peers_v6:
  "parse_ip_addr ''::ffff:203.0.113.1'' = Some (V6 (Ipv6Addr 0 0 0 0 0 0xFFFF 0xCB00 0x7101))"
  "parse_ip_addr ''::ffff:213.47.60.109'' = Some (V6 (Ipv6Addr 0 0 0 0 0 0xFFFF 0xD52F 0x3C6D))"
  "parse_ip_addr ''::ffff:198.51.100.7'' = Some (V6 (Ipv6Addr 0 0 0 0 0 0xFFFF 0xC633 0x6407))"
  "parse_ip_addr ''fe80::1'' = Some (V6 (Ipv6Addr 0xFE80 0 0 0 0 0 0 1))"
  "parse_ip_addr ''2001:db8::7'' = Some (V6 (Ipv6Addr 0x2001 0xDB8 0 0 0 0 0 7))"
  by (simp_all add: parse_ip_eval of_be16_def)

lemma parsed_uuid: "parse_uuid IP_UUID =
    Some [0xF7, 0x1D, 0x53, 0xF4, 0xC6, 0x7C, 0x4B, 0x99, 0xB3, 0x19, 0x97, 0x9F, 0x71, 0x4C, 0xD4, 0x08]"
  by (simp add: IP_UUID_def parse_uuid_def Let_def as_bytes_def is_ascii_hexdigit_def hex_digit_val_def)

lemma plain_tests: "ip_matches_path" "content_type_test"
  by (simp_all add: ip_matches_path_def ip_matches_def starts_with_def content_type_test_def is_json_def
      trim_def trim_start_def trim_end_def trim_with.simps ws_encodings_def strip_prefix_def
      eq_ignore_ascii_case_def to_ascii_lowercase_def ascii_lower_def char_of_def bit_0)

lemma uuid_test: "parses_uuid"
  by (simp add: parses_uuid_def unwrap_test_def parsed_uuid)
   (simp add: parse_uuid_def to_uppercase_def IP_UUID_def Let_def as_bytes_def is_ascii_hexdigit_def hex_digit_val_def char_of_def bit_0)

lemma signature_test: "signature_binds_ip_and_uuid std_crypto"
  by (simp add: signature_binds_ip_and_uuid_def unwrap_test_def parsed_uuid parsed_peers
      parsed_peers_v6 ip_signature_eq mapped_addresses hmac_sha256_def KEY_def as_bytes_def Let_def
      address_vectors b64_enc_eval)

subsection \<open>The tokens of the tests\<close>

lemma ip_uuid_ok: "length IP_UUID = 36" "CHR ''_'' \<notin> set IP_UUID" "CHR ''#'' \<notin> set IP_UUID"
    "list_all plain_char IP_UUID"
  by (simp_all add: IP_UUID_def plain_char_def)

lemma plain_b64: "list_all plain_char (b64_enc bs)"
proof -
  have "list_all plain_char b64_alphabet" by (simp add: b64_alphabet_def plain_char_def)
  then have c: "plain_char (b64_char n)" if "n < 64" for n
    using b64_char_in [OF that] by (simp add: list_all_iff)
  have "plain_char (CHR ''='')" by (simp add: plain_char_def)
  then show ?thesis
  proof (induction bs rule: b64_enc.induct)
    case (1 a b c bs)
    note s = sextets [of "unat (a :: u8)" "unat (b :: u8)" "unat (c :: u8)", OF unat_u8_less unat_u8_less unat_u8_less]
    show ?case using 1 c s by (simp add: b64_enc.simps)
  next
    case (2 a b)
    note s = sextets [of "unat (a :: u8)" "unat (b :: u8)" 0, OF unat_u8_less unat_u8_less]
    show ?case using 2 c s by (simp add: b64_enc.simps)
  next
    case (3 a)
    note s = sextets [of "unat (a :: u8)" 0 0, OF unat_u8_less]
    show ?case using 3 c s by (simp add: b64_enc.simps)
  qed (simp add: b64_enc.simps)
qed

lemma test_time_ok: "length (int_to_string 1760000000) \<le> 12" "list_all plain_char (int_to_string 1760000000)"
    "list_all plain_char (int_to_string 1759996400)"
  by (simp_all add: int_to_string_def nat_to_string.simps digit_char_def char_of_def bit_0 plain_char_def)

lemma plain_token:
  assumes "list_all plain_char (int_to_string ts)"
  shows "list_all plain_char (make_test_token std_crypto k IP_UUID ts ip)"
  using assms ip_uuid_ok(4)
  by (simp add: make_test_token_def make_v1_def Let_def hmac_sha1_b64_def plain_b64)
    (simp add: plain_char_def)

lemma issuing_key_b:
  "find (\<lambda>j. make_v1 std_crypto (sk_key j) IP_UUID 1760000000 =
        make_v1 std_crypto (sk_key \<lparr>sk_key = ''control-b-secret'', sk_label = ''control-b''\<rparr>) IP_UUID 1760000000)
     ip_keys = Some \<lparr>sk_key = ''control-b-secret'', sk_label = ''control-b''\<rparr>"
  by (simp add: make_v1_def Let_def hmac_sha1_b64_def ip_keys_def test_time_text as_bytes_def
      address_vectors IP_UUID_def)

lemmas checked_token_b =
  check_ip_token_issued [OF std_crypto_laws ip_uuid_ok(1-3) _ test_time_ok(1) issuing_key_b, simplified]

subsection \<open>The bodies of the tests\<close>

lemmas read_json_eval =
  read_json.simps(2) [of "pred_numeral n" for n, folded numeral_eq_Suc]
  read_members.simps(2) [of "pred_numeral n" for n, folded numeral_eq_Suc]
  skip_ws_def json_ws_def expect_def read_scalar_def json_digit_def starts_with_def

lemma read_token_member:
  assumes "list_all plain_char t"
  shows "read_json 16 (''{'' @ member ''token'' t @ '','' @ r) =
      map_option (\<lambda>(ms, r'). (JObject (rev ((''token'', JString t) # ms)), r')) (read_members 14 r)"
    and "read_json 16 (''{'' @ member ''token'' t @ ''}'') = Some (JObject [(''token'', JString t)], [])"
proof -
  note t = read_text_plain [OF assms]
  show "read_json 16 (''{'' @ member ''token'' t @ '','' @ r) =
      map_option (\<lambda>(ms, r'). (JObject (rev ((''token'', JString t) # ms)), r')) (read_members 14 r)"
    by (simp add: read_json.simps(2) [of 15, simplified] read_members.simps(2) [of 14, simplified]
        read_json.simps(2) [of 13, simplified] skip_ws_def json_ws_def expect_def member_def QQ_def t
        prepend_def option.map_comp comp_def case_prod_unfold del: read_json.simps read_members.simps)
  show "read_json 16 (''{'' @ member ''token'' t @ ''}'') = Some (JObject [(''token'', JString t)], [])"
    by (simp add: read_json_eval member_def QQ_def t prepend_def)
qed

lemma ip_response_std:
  "ip_response C std_serde (as_bytes s) pub keys now =
     (if s = [] then Inl (bad_request ''Required request body is missing'')
      else
        (case json_of_text s of
           Inl e \<Rightarrow> Inl (bad_request (''Invalid request format: '' @ e))
         | Inr (JObject obj) \<Rightarrow> answer_object C std_serde obj pub keys now
         | Inr _ \<Rightarrow> Inl (bad_request ''Invalid request format: expected a JSON object'')))"
  by (simp add: ip_response_def)

lemma issued_not_blank_std: "trim (make_test_token C k IP_UUID ts ip) \<noteq> []"
proof -
  have e: "IP_UUID = uuid_text [0xF7, 0x1D, 0x53, 0xF4, 0xC6, 0x7C, 0x4B, 0x99, 0xB3, 0x19, 0x97, 0x9F,
      0x71, 0x4C, 0xD4, 0x08]"
    by (simp add: IP_UUID_def uuid_text_def hex_def hex_byte_def hex_char_def char_of_def bit_0)
  show ?thesis unfolding e by (rule issued_not_blank) simp
qed

definition ip_uuid_bytes :: bytes where
  "ip_uuid_bytes = [0xF7, 0x1D, 0x53, 0xF4, 0xC6, 0x7C, 0x4B, 0x99, 0xB3, 0x19, 0x97, 0x9F, 0x71,
     0x4C, 0xD4, 0x08]"

definition matches_b :: "ip_addr \<Rightarrow> ip_addr \<Rightarrow> bool" where
  "matches_b ip pub =
     ip_hash_ok std_crypto (make_v2_bytes std_crypto ''control-b-secret'' 1760000000 ip) key_b
       (mapped_ipv6 pub)"

text \<open>The answer to a token of control server B issued for \<open>ip\<close>, to a client at \<open>pub\<close>.\<close>

definition answer_b :: "ip_addr \<Rightarrow> ip_addr \<Rightarrow> string \<Rightarrow> ip_answer" where
  "answer_b ip pub nt =
     \<lparr>ans_json = json_head pub nt @ '','' @ QQ ''matching_ip'' @ '':'' @ bool_text (matches_b ip pub) @
        '','' @ member ''signature''
          (b64_enc (ip_signature std_crypto (as_bytes ''control-b-secret'') pub ip_uuid_bytes)) @ ''}'',
      ans_note = nt @ '', key '' @ [CHR 0x27] @ ''control-b'' @ [CHR 0x27] @ '', matching_ip='' @
        bool_text (matches_b ip pub) @ '', signed''\<rparr>"

lemma answer_object_b:
  assumes "map_of obj ''token'' =
      Some (JString (make_test_token std_crypto ''control-b-secret'' IP_UUID 1760000000 ip))"
    and "local_text std_serde obj = Inr lt" and "local_ip lt = Inr loc"
  shows "answer_object std_crypto std_serde obj pub ip_keys 1760000000 =
      Inr (answer_b ip (to_canonical pub) (nat_type loc (to_canonical pub)))"
  using assms issued_not_blank_std
  by (simp add: answer_object_def token_text_def sign_answer_def checked_token_b parsed_uuid Let_def
      answer_b_def matches_b_def ip_uuid_bytes_def member_def)

lemma same_address_matches: "matches_b ip (to_canonical ip)"
  unfolding matches_b_def mapped_ipv6_canonical ip_hash_ok_def
    make_v2_bytes_parts [OF std_crypto_laws] by simp

text \<open>The answers of the helper \<open>answer\<close>, without and with further members.\<close>

lemma answer_without_members:
  assumes "parse_ip_addr p = Some ip"
  shows "answer std_crypto std_serde 1760000000 [] p =
      Some (Inr (answer_b ip (to_canonical ip) (nat_type None (to_canonical ip))))"
proof -
  let ?t = "make_test_token std_crypto ''control-b-secret'' IP_UUID 1760000000 ip"
  have "json_of_text (''{'' @ member ''token'' ?t @ ''}'') = Inr (JObject [(''token'', JString ?t)])"
    unfolding json_of_text_def read_token_member(2) [OF plain_token [OF test_time_ok(2)]]
    by (simp add: skip_ws_def)
  moreover have "answer_object std_crypto std_serde [(''token'', JString ?t)] ip ip_keys 1760000000 =
      Inr (answer_b ip (to_canonical ip) (nat_type None (to_canonical ip)))"
    by (rule answer_object_b [where lt = None]) (simp_all add: local_text_def local_ip_def)
  ultimately show ?thesis
    by (simp add: answer_def token_b_def assms ip_response_std member_def Let_def del: as_bytes_append)
qed

lemma answer_with_members:
  assumes "parse_ip_addr p = Some ip" and "f \<noteq> []"
    and "read_members 14 (f @ ''}'') = Some (ms, [])" and "map_of (rev ms) ''token'' = None"
    and "local_text std_serde (rev ms) = Inr lt" and "local_ip lt = Inr loc"
  shows "answer std_crypto std_serde 1760000000 f p =
      Some (Inr (answer_b ip (to_canonical ip) (nat_type loc (to_canonical ip))))"
proof -
  let ?t = "make_test_token std_crypto ''control-b-secret'' IP_UUID 1760000000 ip"
  let ?o = "rev ((''token'', JString ?t) # ms)"
  have "json_of_text (''{'' @ member ''token'' ?t @ '','' @ f @ ''}'') = Inr (JObject ?o)"
    unfolding json_of_text_def read_token_member(1) [OF plain_token [OF test_time_ok(2)]]
    by (simp add: skip_ws_def assms(3))
  moreover have "answer_object std_crypto std_serde ?o ip ip_keys 1760000000 =
      Inr (answer_b ip (to_canonical ip) (nat_type loc (to_canonical ip)))"
  proof (rule answer_object_b [OF _ _ assms(6)])
    show "map_of ?o ''token'' = Some (JString ?t)" using assms(4) by (simp add: map_add_def)
    have "map_of ?o ''client_ip_local'' = map_of (rev ms) ''client_ip_local''"
      by (simp add: map_add_def split: option.splits)
    then show "local_text std_serde ?o = Inr lt" using assms(5) by (simp add: local_text_def)
  qed
  ultimately show ?thesis
    using assms(2)
    by (simp add: answer_def token_b_def assms(1) ip_response_std member_def Let_def del: as_bytes_append)
qed

lemma blank_text: "trim ''  '' = []"
  by (simp add: trim_def trim_start_sp) (simp add: trim_start_def trim_end_def)

lemma ink_text: "ink c \<Longrightarrow> (trim (c # s) = []) = False"
  using trim_starts_ink by simp

lemma answer_with_local:
  assumes "parse_ip_addr p = Some ip" and "list_all plain_char s" and "trim s \<noteq> []"
    and "parse_ip_addr s = Some l"
  shows "answer std_crypto std_serde 1760000000 (member ''client_ip_local'' s) p =
      Some (Inr (answer_b ip (to_canonical ip) (nat_type (Some (to_canonical l)) (to_canonical ip))))"
proof (rule answer_with_members [OF assms(1)])
  show "read_members 14 (member ''client_ip_local'' s @ ''}'') = Some ([(''client_ip_local'', JString s)], [])"
    using read_text_plain [OF assms(2)]
    by (simp add: read_json_eval member_def QQ_def prepend_def)
  show "local_text std_serde (rev [(''client_ip_local'', JString s)]) = Inr (Some s)"
    using assms(3) by (simp add: local_text_def)
  show "local_ip (Some s) = Inr (Some (to_canonical l))"
    using assms(4) by (simp add: local_ip_def)
qed (simp_all add: member_def QQ_def)

lemma answer_with_other_members:
  assumes "parse_ip_addr p = Some ip"
  shows "answer std_crypto std_serde 1760000000 (member ''client_ip_local'' ''  '') p =
      Some (Inr (answer_b ip (to_canonical ip) (nat_type None (to_canonical ip))))"
    and "answer std_crypto std_serde 1760000000
        (QQ ''client_ip_local'' @ '':null,'' @ member ''client_uuid'' ''x'') p =
      Some (Inr (answer_b ip (to_canonical ip) (nat_type None (to_canonical ip))))"
    and "answer std_crypto std_serde 1760000000 (member ''test_uuid'' ''ignored'') p =
      Some (Inr (answer_b ip (to_canonical ip) (nat_type None (to_canonical ip))))"
proof -
  note a = answer_with_members [OF assms, where lt = None and loc = None]
  show "answer std_crypto std_serde 1760000000 (member ''client_ip_local'' ''  '') p =
      Some (Inr (answer_b ip (to_canonical ip) (nat_type None (to_canonical ip))))"
    by (rule a [where ms = "[(''client_ip_local'', JString ''  '')]"])
      (simp_all add: read_json_eval member_def QQ_def prepend_def local_text_def local_ip_def blank_text)
  show "answer std_crypto std_serde 1760000000
        (QQ ''client_ip_local'' @ '':null,'' @ member ''client_uuid'' ''x'') p =
      Some (Inr (answer_b ip (to_canonical ip) (nat_type None (to_canonical ip))))"
    by (rule a [where ms = "[(''client_ip_local'', JNull), (''client_uuid'', JString ''x'')]"])
      (simp_all add: read_json_eval member_def QQ_def prepend_def local_text_def local_ip_def)
  show "answer std_crypto std_serde 1760000000 (member ''test_uuid'' ''ignored'') p =
      Some (Inr (answer_b ip (to_canonical ip) (nat_type None (to_canonical ip))))"
    by (rule a [where ms = "[(''test_uuid'', JString ''ignored'')]"])
      (simp_all add: read_json_eval member_def QQ_def prepend_def local_text_def local_ip_def)
qed

lemmas number_text_eval =
  nat_to_string.simps hex_string.simps hex_char_def digit_char_def char_of_def bit_0

lemmas local_answers =
  answer_with_local [OF parsed_peers(3)] answer_with_local [OF parsed_peers(5)]
  answer_with_local [OF parsed_addresses(2)] answer_with_other_members [OF parsed_peers(3), simplified]
  answer_without_members [OF parsed_peers(3)] answer_without_members [OF parsed_peers_v6(3)]

lemmas nat_test_eval =
  unwrap_test_def parsed_peers parsed_peers_v6 parsed_addresses plain_char_def ink_text ink_def

lemma address_texts:
  "ip_to_string (V4 (Ipv4Addr 213 47 60 109)) = ''213.47.60.109''"
  "ip_to_string (V4 (Ipv4Addr 198 51 100 7)) = ''198.51.100.7''"
  "ip_to_string (V4 (Ipv4Addr 203 0 113 1)) = ''203.0.113.1''"
  "ip_to_string (V4 (Ipv4Addr 10 0 0 1)) = ''10.0.0.1''"
  by (simp_all add: number_text_eval)

lemma address_texts_v6:
  "ip_to_string (V6 (Ipv6Addr 0x2001 0xDB8 0 0 0 0 0 1)) = ''2001:db8::1''"
  "ip_to_string (V6 (Ipv6Addr 0x2001 0xDB8 0 0 0 0 0 7)) = ''2001:db8::7''"
  by (simp_all add: ipv6_to_string_def number_text_eval)

lemmas json_text_eval =
  answer_b_def json_head_def QQ_def member_def contains_def starts_with_def strip_prefix_def
  nat_type_def ip_version_def ip_scope_def bool_text_def address_texts address_texts_v6

lemma nat_types_test: "nat_types_match_control_server std_crypto std_serde 1760000000"
  by (simp add: nat_types_match_control_server_def nat_test_def test_json_def Let_def
      local_answers nat_test_eval)
    (simp add: json_text_eval del: ip_to_string.simps)

lemmas same_address_true =
  same_address_matches [of "V4 a" for a, simplified]
  same_address_matches [of "V6 (Ipv6Addr 0 0 0 0 0 0xFFFF 0xC633 0x6407)", simplified]

lemma mapped_clients_test: "ipv6_and_mapped_clients std_crypto std_serde 1760000000"
  apply (simp add: ipv6_and_mapped_clients_def nat_test_def test_json_def Let_def
      local_answers nat_test_eval)
  apply (simp add: json_text_eval same_address_true del: ip_to_string.simps)
  done

subsection \<open>Refused requests\<close>

lemma test_status_std:
  "test_status C std_serde now s =
     Some (case ip_response C std_serde (as_bytes s) (V4 (Ipv4Addr 203 0 113 1)) ip_keys now of
             Inr _ \<Rightarrow> ''200''
           | Inl (st, _) \<Rightarrow> take 3 st)"
  by (simp add: test_status_def parsed_peers split: sum.split prod.split)

lemma status_unreadable:
  assumes "json_of_text s = Inl e \<or> json_of_text s = Inr (JArray vs)"
  shows "test_status C std_serde now s = Some ''400''"
  using assms unfolding test_status_std ip_response_std by (auto simp: bad_request_def)

lemma status_of_object:
  assumes "json_of_text s = Inr (JObject obj)" and "s \<noteq> []"
    and "answer_object C std_serde obj (V4 (Ipv4Addr 203 0 113 1)) ip_keys now = Inl (st, m)"
  shows "test_status C std_serde now s = Some (take 3 st)"
  using assms unfolding test_status_std ip_response_std by simp

text \<open>Objects whose \<open>client_ip_local\<close> or \<open>token\<close> is refused.\<close>

lemma refused_members:
  assumes "map_of obj ''client_ip_local'' = Some v" and "v = JString ''nope'' \<or> v = JNumber ''5'' \<or> v = JObject []"
  shows "\<exists>m. answer_object C std_serde obj pub keys now = Inl (''400 Bad Request'', m)"
  using assms
  by (auto simp: answer_object_def local_text_def local_ip_def parsed_peers ink_text ink_def bad_request_def
      std_serde_def)

lemma token_body:
  assumes "list_all plain_char t" and "read_members 14 (f @ ''}'') = Some (ms, [])"
  shows "json_of_text (''{'' @ member ''token'' t @ '','' @ f @ ''}'') = Inr (JObject (rev ((''token'', JString t) # ms)))"
  unfolding json_of_text_def read_token_member(1) [OF assms(1)] by (simp add: assms(2) skip_ws_def)

lemma bad_requests_test: "rejects_bad_requests std_crypto std_serde 1760000000"
proof -
  let ?S = "test_status std_crypto std_serde 1760000000"
  let ?t = "make_test_token std_crypto ''control-b-secret'' IP_UUID 1760000000 (V4 (Ipv4Addr 203 0 113 1))"
  note t = plain_token [OF test_time_ok(2), of "''control-b-secret''" "V4 (Ipv4Addr 203 0 113 1)"]
  have 1: "?S [] = Some ''400''" unfolding test_status_std ip_response_std by (simp add: bad_request_def)
  have 2: "?S ''{x'' = Some ''400''" "?S ''[]'' = Some ''400''"
    by (rule status_unreadable, simp add: json_of_text_def read_json_eval)+
  have local_refused: "?S (''{'' @ member ''token'' ?t @ '','' @ f @ ''}'') = Some ''400''"
    if f: "read_members 14 (f @ ''}'') = Some ([(''client_ip_local'', v)], [])"
      and v: "v = JString ''nope'' \<or> v = JNumber ''5'' \<or> v = JObject []" for f v
  proof -
    let ?o = "rev [(''token'', JString ?t), (''client_ip_local'', v)]"
    have "\<exists>m. answer_object std_crypto std_serde ?o (V4 (Ipv4Addr 203 0 113 1)) ip_keys 1760000000 =
        Inl (''400 Bad Request'', m)"
      by (rule refused_members [OF _ v]) simp
    then obtain m where "answer_object std_crypto std_serde ?o (V4 (Ipv4Addr 203 0 113 1)) ip_keys
        1760000000 = Inl (''400 Bad Request'', m)" ..
    from status_of_object [OF token_body [OF t f] _ this] show ?thesis by simp
  qed
  have 3: "?S (''{'' @ member ''token'' ?t @ '','' @ member ''client_ip_local'' ''nope'' @ ''}'') = Some ''400''"
    by (rule local_refused [where v = "JString ''nope''"])
      (simp_all add: read_json_eval member_def QQ_def prepend_def)
  have 4: "?S (''{'' @ member ''token'' ?t @ '','' @ (QQ ''client_ip_local'' @ '':5'') @ ''}'') = Some ''400''"
    by (rule local_refused [where v = "JNumber ''5''"])
      (simp_all add: read_json_eval member_def QQ_def prepend_def)
  have 5: "?S (''{'' @ member ''token'' ?t @ '','' @ (QQ ''client_ip_local'' @ '':{}'') @ ''}'') = Some ''400''"
    by (rule local_refused [where v = "JObject []"])
      (simp_all add: read_json_eval member_def QQ_def prepend_def)
  have 6: "?S (''{'' @ QQ ''token'' @ '':5}'') = Some (take 3 ''400 Bad Request'')"
    by (rule status_of_object [where obj = "[(''token'', JNumber ''5'')]"])
      (simp_all add: json_of_text_def read_json_eval QQ_def prepend_def answer_object_def local_text_def
        local_ip_def token_text_def bad_request_def)
  show ?thesis
    using 1 2 3 4 5 6 by (simp add: rejects_bad_requests_def unwrap_test_def token_b_def parsed_peers)
qed

subsection \<open>Answers without a token\<close>

lemma unsigned_answer:
  assumes "json_of_text s = Inr (JObject obj)" and "s \<noteq> []" and "token_text obj = Inr None"
    and "local_text std_serde obj = Inr lt" and "local_ip lt = Inr loc"
  shows "ip_response C std_serde (as_bytes s) (V4 a) keys now =
      Inr \<lparr>ans_json = json_head (V4 a) (nat_type loc (V4 a)) @ ''}'',
           ans_note = nat_type loc (V4 a) @ '', no token, unsigned''\<rparr>"
  unfolding ip_response_std using assms by (simp add: answer_object_def sign_answer_def Let_def)

lemma unsigned_bodies:
  "ip_response C std_serde (as_bytes ''{}'') (V4 a) keys now =
     Inr \<lparr>ans_json = json_head (V4 a) ''is_ipv4'' @ ''}'', ans_note = ''is_ipv4, no token, unsigned''\<rparr>"
  "ip_response C std_serde (as_bytes (''{'' @ QQ ''token'' @ '':null}'')) (V4 a) keys now =
     Inr \<lparr>ans_json = json_head (V4 a) ''is_ipv4'' @ ''}'', ans_note = ''is_ipv4, no token, unsigned''\<rparr>"
  "ip_response C std_serde (as_bytes (''{'' @ member ''token'' ''  '' @ ''}'')) (V4 a) keys now =
     Inr \<lparr>ans_json = json_head (V4 a) ''is_ipv4'' @ ''}'', ans_note = ''is_ipv4, no token, unsigned''\<rparr>"
proof -
  note u = unsigned_answer [where lt = None and loc = None and a = a and C = C and keys = keys and now = now]
  note e = json_of_text_def read_json_eval member_def QQ_def prepend_def token_text_def local_text_def
    local_ip_def blank_text
  show "ip_response C std_serde (as_bytes ''{}'') (V4 a) keys now =
     Inr \<lparr>ans_json = json_head (V4 a) ''is_ipv4'' @ ''}'', ans_note = ''is_ipv4, no token, unsigned''\<rparr>"
    using u [where obj = "[]" and s = "''{}''"]
    by (simp add: e nat_type_def ip_version_def del: as_bytes_append)
  show "ip_response C std_serde (as_bytes (''{'' @ QQ ''token'' @ '':null}'')) (V4 a) keys now =
     Inr \<lparr>ans_json = json_head (V4 a) ''is_ipv4'' @ ''}'', ans_note = ''is_ipv4, no token, unsigned''\<rparr>"
    using u [where obj = "[(''token'', JNull)]" and s = "''{'' @ QQ ''token'' @ '':null}''"]
    by (simp add: e nat_type_def ip_version_def del: as_bytes_append)
  show "ip_response C std_serde (as_bytes (''{'' @ member ''token'' ''  '' @ ''}'')) (V4 a) keys now =
     Inr \<lparr>ans_json = json_head (V4 a) ''is_ipv4'' @ ''}'', ans_note = ''is_ipv4, no token, unsigned''\<rparr>"
    using u [where obj = "[(''token'', JString ''  '')]" and s = "''{'' @ member ''token'' ''  '' @ ''}''"]
    by (simp add: e nat_type_def ip_version_def del: as_bytes_append)
qed

lemma unsigned_local_body:
  "ip_response C std_serde (as_bytes (''{'' @ member ''client_ip_local'' ''192.168.1.5'' @ ''}''))
     (V4 (Ipv4Addr 203 0 113 1)) keys now =
   Inr \<lparr>ans_json = json_head (V4 (Ipv4Addr 203 0 113 1)) ''nat_local_to_public_ipv4'' @ ''}'',
        ans_note = ''nat_local_to_public_ipv4, no token, unsigned''\<rparr>"
  using unsigned_answer [where lt = "Some ''192.168.1.5''" and loc = "Some (V4 (Ipv4Addr 192 168 1 5))"
      and obj = "[(''client_ip_local'', JString ''192.168.1.5'')]" and C = C and keys = keys and now = now
      and a = "Ipv4Addr 203 0 113 1" and s = "''{'' @ member ''client_ip_local'' ''192.168.1.5'' @ ''}''"]
  by (simp add: json_of_text_def read_json_eval member_def QQ_def prepend_def token_text_def local_text_def
    local_ip_def ink_text ink_def parsed_peers nat_type_def ip_version_def ip_scope_def del: as_bytes_append)

lemma unsigned_test: "without_token_the_answer_is_unsigned std_crypto std_serde 1760000000"
  unfolding without_token_the_answer_is_unsigned_def parsed_peers unwrap_test_def option.case list.pred_inject
    unsigned_bodies unsigned_local_body unwrap_ok_def sum.case
  by (simp add: json_text_eval del: ip_to_string.simps)

subsection \<open>Answers to a token\<close>

lemma token_only_response:
  assumes "list_all plain_char t" and "trim t \<noteq> []"
  shows "ip_response C std_serde (as_bytes (''{'' @ member ''token'' t @ ''}'')) pub keys now =
      (case sign_answer C (Some t) keys (to_canonical pub) now of
         Inl e \<Rightarrow> Inl e
       | Inr (sig, note) \<Rightarrow>
           Inr \<lparr>ans_json = json_head (to_canonical pub) (nat_type None (to_canonical pub)) @ sig @ ''}'',
                ans_note = nat_type None (to_canonical pub) @ note\<rparr>)"
proof -
  have "json_of_text (''{'' @ member ''token'' t @ ''}'') = Inr (JObject [(''token'', JString t)])"
    unfolding json_of_text_def read_token_member(2) [OF assms(1)] by (simp add: skip_ws_def)
  then show ?thesis
    unfolding ip_response_std using assms(2)
    by (simp add: answer_object_def local_text_def local_ip_def token_text_def Let_def)
qed

lemma refused_token:
  assumes "list_all plain_char t" and "trim t \<noteq> []" and "isl (check_ip_token C t keys (to_canonical pub) now)"
  shows "\<exists>m. ip_response C std_serde (as_bytes (''{'' @ member ''token'' t @ ''}'')) pub keys now =
      Inl (''403 Forbidden'', m)"
  unfolding token_only_response [OF assms(1,2)]
  using assms(3) by (auto simp: isl_def sign_answer_def forbidden_def)

lemma refused_token_status:
  assumes "list_all plain_char t" and "trim t \<noteq> []"
    and "isl (check_ip_token C t ip_keys (V4 (Ipv4Addr 203 0 113 1)) now)"
  shows "test_status C std_serde now (''{'' @ member ''token'' t @ ''}'') = Some ''403''"
  using refused_token [OF assms(1,2), of C ip_keys "V4 (Ipv4Addr 203 0 113 1)" now] assms(3)
  unfolding test_status_std by auto

lemma check_issued_refused:
  assumes "isl (match_v1 std_crypto (make_v1 std_crypto k IP_UUID ts) keys)"
  shows "isl (check_ip_token std_crypto (make_test_token std_crypto k IP_UUID ts ip) keys pub now)"
  using assms unfolding test_token_parts check_v1_parts(1) [OF ip_uuid_ok(3)]
  by (auto simp: isl_def)

lemma issued_tokens_refused:
  "isl (match_v1 C t [])"
  "isl (match_v1 std_crypto (make_v1 std_crypto ''unknown-secret'' IP_UUID 1760000000) ip_keys)"
proof -
  show "isl (match_v1 C t [])"
    by (auto simp: match_v1_def Let_def split: list.split option.split)
  show "isl (match_v1 std_crypto (make_v1 std_crypto ''unknown-secret'' IP_UUID 1760000000) ip_keys)"
    by (simp add: v1_test_eval ip_keys_def IP_UUID_def test_time_text Let_def hmac_sha1_b64_def
        as_bytes_def address_vectors)
qed

lemma no_keys_test: "without_keys_a_token_is_refused std_crypto std_serde 1760000000"
proof -
  let ?ip = "V4 (Ipv4Addr 203 0 113 1)"
  let ?t = "make_test_token std_crypto ''control-b-secret'' IP_UUID 1760000000 ?ip"
  have "isl (ip_response std_crypto std_serde (as_bytes (''{'' @ member ''token'' ?t @ ''}'')) ?ip [] 1760000000)"
    using refused_token [OF plain_token [OF test_time_ok(2)] issued_not_blank_std
        check_issued_refused [OF issued_tokens_refused(1)], of "''control-b-secret''" ?ip ?ip 1760000000] by auto
  then show ?thesis
    unfolding without_keys_a_token_is_refused_def parsed_peers unwrap_test_def option.case token_b_def
      unsigned_bodies(1) unwrap_ok_def
    by (simp add: json_head_def member_def address_texts del: as_bytes_append ip_to_string.simps)
qed

lemma expired_refused:
  "isl (check_ip_token std_crypto (make_test_token std_crypto ''control-a-secret'' IP_UUID 1759996400 ip)
      ip_keys pub 1760000000)"
proof -
  have "int_to_string 1759996400 = ''1759996400''"
    by (simp add: int_to_string_def nat_to_string.simps digit_char_def char_of_def bit_0)
  then have "length (int_to_string 1759996400) \<le> 12" by simp
  then have "match_v1 std_crypto (make_v1 std_crypto ''control-a-secret'' IP_UUID 1759996400) ip_keys =
      Inr (IP_UUID, 1759996400, key_a)"
    using match_v1_first [OF ip_uuid_ok(1,2), of 1759996400 std_crypto key_a "tl ip_keys"]
    by (simp add: ip_keys_def)
  then show ?thesis
    unfolding test_token_parts check_v1_parts(1) [OF ip_uuid_ok(3)]
    by (simp add: window_check_def MAX_ACCEPT_EARLY_def MAX_ACCEPT_LATE_def)
qed

lemma valid_token_test: "a_given_token_must_be_valid std_crypto std_serde 1760000000"
proof -
  have "test_status std_crypto std_serde 1760000000 (''{'' @ member ''token'' ''garbage'' @ ''}'') = Some ''403''"
    by (rule refused_token_status)
      (simp_all add: plain_char_def ink_text ink_def check_ip_token_def V2_MARK_def strip_prefix_def
        starts_with_def match_v1_def numeral_3_eq_3)
  moreover have "test_status std_crypto std_serde 1760000000
      (''{'' @ member ''token'' (make_test_token std_crypto ''unknown-secret'' IP_UUID 1760000000 ip) @ ''}'') = Some ''403''" for ip
    by (intro refused_token_status plain_token test_time_ok issued_not_blank_std check_issued_refused
        issued_tokens_refused)
  moreover have "test_status std_crypto std_serde 1760000000
      (''{'' @ member ''token'' (make_test_token std_crypto ''control-a-secret'' IP_UUID 1759996400 ip) @ ''}'') = Some ''403''" for ip
    by (intro refused_token_status plain_token test_time_ok issued_not_blank_std expired_refused)
  ultimately show ?thesis
    by (simp add: a_given_token_must_be_valid_def unwrap_test_def parsed_peers)
qed

lemma signing_key_test: "signs_with_the_key_that_issued_the_token std_crypto std_serde 1760000000"
  unfolding signs_with_the_key_that_issued_the_token_def
    answer_with_other_members(3) [OF parsed_peers(1)] parsed_peers parsed_uuid unwrap_test_def
    unwrap_ok_def option.case sum.case
  by (simp add: json_text_eval ip_signature_eq mapped_addresses hmac_sha256_def as_bytes_def ip_uuid_bytes_def
      address_vectors b64_enc_eval same_address_true Let_def del: ip_to_string.simps)

lemma other_address_differs:
  "\<not> matches_b (V4 (Ipv4Addr 203 0 113 1)) (V6 (Ipv6Addr 0x2001 0xDB8 0 0 0 0 0 7))"
  unfolding matches_b_def ip_hash_ok_def make_v2_bytes_parts [OF std_crypto_laws]
  by (simp add: hmac_sha256_def test_times mapped_addresses as_bytes_def address_vectors)

lemma matching_ip_test:
  "matching_ip_reports_whether_the_token_was_issued_for_this_address std_crypto std_serde 1760000000"
proof -
  let ?t = "make_test_token std_crypto ''control-b-secret'' IP_UUID 1760000000 (V4 (Ipv4Addr 203 0 113 1))"
  let ?p = "V6 (Ipv6Addr 0x2001 0xDB8 0 0 0 0 0 7)"
  have "ip_response std_crypto std_serde (as_bytes (''{'' @ member ''token'' ?t @ ''}'')) ?p ip_keys 1760000000 =
      Inr (answer_b (V4 (Ipv4Addr 203 0 113 1)) ?p ''is_ipv6'')"
    unfolding token_only_response [OF plain_token [OF test_time_ok(2)] issued_not_blank_std]
    by (simp add: sign_answer_def checked_token_b parsed_uuid answer_b_def matches_b_def [symmetric]
        ip_uuid_bytes_def nat_type_def ip_version_def member_def)
  then show ?thesis
    unfolding matching_ip_reports_whether_the_token_was_issued_for_this_address_def token_b_def
      answer_without_members [OF parsed_peers(1)] parsed_peers parsed_peers_v6 unwrap_test_def unwrap_ok_def
      option.case sum.case option.map
    by (simp add: json_text_eval same_address_true other_address_differs
        del: ip_to_string.simps as_bytes_append)
qed

section \<open>Properties\<close>

text \<open>
  The model passes the unit tests of the address check, evaluated with HMAC-SHA-256 and
  Base64 as the standards define them and a JSON reader: the NAT classification of the control
  server, the refused requests, the unsigned answers, and the signed ones, among them the
  reference signature of the documentation.
\<close>

theorem ip_tests_pass:
  "ip_matches_path \<and> content_type_test \<and> parses_uuid \<and>
   signature_binds_ip_and_uuid std_crypto \<and>
   nat_types_match_control_server std_crypto std_serde 1760000000 \<and>
   ipv6_and_mapped_clients std_crypto std_serde 1760000000 \<and>
   rejects_bad_requests std_crypto std_serde 1760000000 \<and>
   without_token_the_answer_is_unsigned std_crypto std_serde 1760000000 \<and>
   a_given_token_must_be_valid std_crypto std_serde 1760000000 \<and>
   signs_with_the_key_that_issued_the_token std_crypto std_serde 1760000000 \<and>
   matching_ip_reports_whether_the_token_was_issued_for_this_address std_crypto std_serde 1760000000 \<and>
   without_keys_a_token_is_refused std_crypto std_serde 1760000000"
  by (intro conjI plain_tests uuid_test signature_test nat_types_test mapped_clients_test
      bad_requests_test unsigned_test valid_token_test signing_key_test matching_ip_test no_keys_test)

end
