(* ===== verification/Rmbt_Float.thy ===== *)
theory Rmbt_Float
  imports Rmbt_Events
begin

text \<open>
  Accuracy of the floating point numbers in the events (\<open>src/src/events.rs\<close>): rounding to the
  nearest double is exact on natural numbers below \<open>2 ^ 53\<close> and has a relative error of at most
  \<open>2 ^ -53\<close> on the range of the numbers that occur, and from it the error of the reported
  throughput and times.
\<close>

section \<open>Rounding\<close>

lemma round_half_even_int [simp]: "round_half_even (of_int k) = k"
  by (simp add: round_half_even_def)

lemma round_half_even_near: "\<bar>of_int (round_half_even q) - q\<bar> \<le> 1 / 2"
proof -
  have "of_int \<lfloor>q\<rfloor> \<le> q" "q < of_int \<lfloor>q\<rfloor> + 1" by linarith+
  then show ?thesis unfolding round_half_even_def Let_def by (auto simp: abs_le_iff)
qed

text \<open>The scaled significand for the exponent \<open>e\<close>, and that some exponent fits.\<close>

definition scaled :: "rat \<Rightarrow> nat \<Rightarrow> rat" where
  "scaled q e = q * 2 ^ 1074 / 2 ^ e"

definition fits :: "rat \<Rightarrow> nat \<Rightarrow> bool" where
  "fits q e \<longleftrightarrow> 2 ^ 52 \<le> scaled q e \<and> scaled q e < 2 ^ 53"

lemma scaled_Suc: "scaled q (Suc e) = scaled q e / 2"
  by (simp add: scaled_def)

lemma unscaled: "scaled q e * 2 ^ e / 2 ^ 1074 = q"
  unfolding scaled_def by simp

text \<open>The numbers that are rounded to a normal double.\<close>

definition normal :: "rat \<Rightarrow> bool" where
  "normal q \<longleftrightarrow> 2 ^ 52 \<le> q * 2 ^ 1074 \<and> q < 2 ^ 1023"

lemma normal_fits:
  assumes "normal q"
  obtains e where "e < 2046" and "fits q e"
proof -
  define P where "P = (\<lambda>e. scaled q e < 2 ^ 53)"
  have "q * 2 ^ 1074 < 2 ^ 1023 * 2 ^ 1074" using assms by (simp only: normal_def mult_less_cancel_right_pos) simp
  also have "(2 :: rat) ^ 1023 * 2 ^ 1074 = 2 ^ 52 * 2 ^ 2045" unfolding power_add [symmetric] by simp
  finally have "scaled q 2045 < 2 ^ 52" by (simp only: scaled_def) (simp only: divide_less_eq, simp)
  also have "(2 :: rat) ^ 52 \<le> 2 ^ 53" by simp
  finally have "P 2045" unfolding P_def .
  define e where "e = (LEAST e. P e)"
  have e: "P e" "e \<le> 2045" unfolding e_def using \<open>P 2045\<close> by (auto intro: LeastI Least_le)
  have "2 ^ 52 \<le> scaled q e"
  proof (cases e)
    case 0
    then show ?thesis using assms by (simp add: scaled_def normal_def)
  next
    case (Suc d)
    then have "\<not> P d" using not_less_Least [of d P] by (simp add: e_def)
    then show ?thesis unfolding Suc scaled_Suc P_def by simp
  qed
  with e show ?thesis by (intro that [of e]) (auto simp: fits_def P_def)
qed

lemma f64_round_fits:
  assumes "normal q"
  obtains e where "fits q e" and "f64_round q = of_int (round_half_even (scaled q e)) * 2 ^ e / 2 ^ 1074"
proof -
  have r: "f64_round q =
      (case find (fits q) [0..<2046] of
         None \<Rightarrow> 0
       | Some e \<Rightarrow> of_int (round_half_even (scaled q e)) * 2 ^ e / 2 ^ 1074)"
    unfolding f64_round_def fits_def scaled_def ..
  from normal_fits [OF assms] obtain d where "d < 2046" "fits q d" .
  then have "find (fits q) [0..<2046] \<noteq> None" by (auto simp: find_None_iff)
  then obtain e where f: "find (fits q) [0..<2046] = Some e" by blast
  then have "fits q e" by (auto simp: find_Some_iff)
  with r f show ?thesis by (intro that [of e]) simp_all
qed

theorem f64_round_accurate:
  assumes "normal q"
  shows "\<bar>f64_round q - q\<bar> \<le> q / 2 ^ 53"
proof -
  from f64_round_fits [OF assms] obtain e where e: "fits q e"
    and r: "f64_round q = of_int (round_half_even (scaled q e)) * 2 ^ e / 2 ^ 1074" .
  define c :: rat where "c = 2 ^ e / 2 ^ 1074"
  have c: "c > 0" by (simp only: c_def) simp
  have q: "q = scaled q e * c" using unscaled [of q e] by (simp add: c_def)
  have "f64_round q - q = (of_int (round_half_even (scaled q e)) - scaled q e) * c"
    using q r by (simp add: c_def algebra_simps)
  then have "\<bar>f64_round q - q\<bar> = \<bar>of_int (round_half_even (scaled q e)) - scaled q e\<bar> * c"
    using c by (simp add: abs_mult)
  also have "\<dots> \<le> 1 / 2 * c"
    using c round_half_even_near [of "scaled q e"] by (intro mult_right_mono) auto
  also have "\<dots> \<le> scaled q e / 2 ^ 53 * c"
    using c e by (intro mult_right_mono) (auto simp: fits_def)
  also have "\<dots> = q / 2 ^ 53" using q by simp
  finally show ?thesis .
qed

lemma f64_round_0 [simp]: "f64_round 0 = 0"
proof -
  have "find (\<lambda>e. (2 :: rat) ^ 52 \<le> 0 * 2 ^ 1074 / 2 ^ e \<and> 0 * 2 ^ 1074 / 2 ^ e < (2 :: rat) ^ 53) [0..<2046] = None"
    unfolding find_None_iff by simp
  then show ?thesis unfolding f64_round_def by simp
qed

lemma normal_of_nat: "0 < n \<Longrightarrow> n < 2 ^ 1023 \<Longrightarrow> normal (of_nat n)"
proof -
  assume n: "0 < n" "n < 2 ^ 1023"
  have "(2 :: rat) ^ 52 \<le> 1 * 2 ^ 1074" by simp
  also have "\<dots> \<le> of_nat n * 2 ^ 1074" using n(1) by (intro mult_right_mono) auto
  finally show ?thesis
    using n(2) unfolding normal_def by (metis of_nat_less_iff of_nat_numeral of_nat_power)
qed

lemma f64_round_nat:
  assumes "n < 2 ^ 53"
  shows "f64_round (of_nat n) = of_nat n"
proof (cases "n = 0")
  case False
  have "(2 :: nat) ^ 53 \<le> 2 ^ 1023" by (rule power_increasing) simp_all
  with assms False have "normal (of_nat n)" by (intro normal_of_nat) simp_all
  from f64_round_fits [OF this] obtain e where e: "fits (of_nat n) e"
    and r: "f64_round (of_nat n) = of_int (round_half_even (scaled (of_nat n) e)) * 2 ^ e / 2 ^ 1074" .
  have "e \<le> 1074"
  proof (rule ccontr)
    assume "\<not> e \<le> 1074"
    then obtain d where d: "e = 1074 + Suc d" by (metis add_Suc_right less_iff_Suc_add not_le)
    have "scaled (of_nat n) e = of_nat n / 2 ^ Suc d"
      unfolding scaled_def d power_add by simp
    then have "(2 :: rat) ^ 52 * 2 ^ Suc d \<le> of_nat n"
      using e by (simp add: fits_def le_divide_eq)
    moreover have "(2 :: rat) ^ 53 \<le> 2 ^ 52 * 2 ^ Suc d"
      unfolding power_add [symmetric] by (rule power_increasing) simp_all
    ultimately have "(2 :: rat) ^ 53 \<le> of_nat n" by linarith
    then have "2 ^ 53 \<le> n" by (metis of_nat_le_iff of_nat_numeral of_nat_power)
    with assms show False by simp
  qed
  then obtain d where d: "1074 = e + d" by (metis le_add_diff_inverse)
  have "scaled (of_nat n) e = of_int (int n * 2 ^ d)"
    unfolding scaled_def d power_add by simp
  then have "round_half_even (scaled (of_nat n) e) = int n * 2 ^ d" by (metis round_half_even_int)
  then show ?thesis unfolding r d power_add by simp
qed simp

section \<open>Relative errors\<close>

lemma normal_range:
  assumes "1 / 2 ^ 200 \<le> q" and "q \<le> 2 ^ 200"
  shows "normal q"
proof -
  have "(2 :: rat) ^ 252 * (1 / 2 ^ 200) \<le> 2 ^ 1074 * (1 / 2 ^ 200)"
    by (intro mult_right_mono power_increasing) simp_all
  also have "\<dots> \<le> 2 ^ 1074 * q" using assms(1) by (intro mult_left_mono) simp_all
  finally have "2 ^ 52 \<le> q * 2 ^ 1074" by (simp add: mult.commute)
  moreover have "(2 :: rat) ^ 200 < 2 ^ 1023" by (rule power_strict_increasing) simp_all
  ultimately show ?thesis using assms(2) unfolding normal_def by linarith
qed

text \<open>
  The result of an operation: the exact value times \<open>1 + d\<close> with a small \<open>d\<close>, and within twice
  the bounds of the exact value.
\<close>

lemma f64_round_relative:
  assumes "1 / 2 ^ k \<le> q" and "q \<le> 2 ^ m" and "k \<le> 200" and "m \<le> 200"
  obtains d where "f64_round q = q * (1 + d)" and "\<bar>d\<bar> \<le> 1 / 2 ^ 53"
    and "1 / 2 ^ Suc k \<le> f64_round q" and "f64_round q \<le> 2 ^ Suc m"
proof -
  have "(2 :: rat) ^ k \<le> 2 ^ 200" "(2 :: rat) ^ m \<le> 2 ^ 200"
    using assms(3,4) by (auto intro: power_increasing simp del: power_numeral)
  moreover from this(1) have "(1 :: rat) / 2 ^ 200 \<le> 1 / 2 ^ k" by (intro frac_le) simp_all
  ultimately have n: "normal q" using assms(1,2) by (intro normal_range) linarith+
  have "0 < 1 / (2 :: rat) ^ k" by simp
  then have q: "0 < q" using assms(1) by linarith
  define d where "d = (f64_round q - q) / q"
  have r: "f64_round q = q * (1 + d)" using q by (simp add: d_def field_simps)
  have "\<bar>d\<bar> = \<bar>f64_round q - q\<bar> / q" using q by (simp add: d_def)
  also have "\<dots> \<le> (q / 2 ^ 53) / q"
    using q f64_round_accurate [OF n] by (intro divide_right_mono) simp_all
  finally have d: "\<bar>d\<bar> \<le> 1 / 2 ^ 53" using q by simp
  then have d': "1 / 2 \<le> 1 + d" "1 + d \<le> 2" by (simp_all add: abs_le_iff)
  have "q * (1 / 2) \<le> q * (1 + d)" "q * (1 + d) \<le> q * 2" using q d' by simp_all
  with assms(1,2) r have "1 / 2 ^ Suc k \<le> f64_round q" "f64_round q \<le> 2 ^ Suc m" by simp_all
  with r d show ?thesis by (rule that)
qed

lemma unat_rat_range:
  fixes w :: "'a::len word"
  assumes "w \<noteq> 0"
  shows "1 / 2 ^ 0 \<le> (of_nat (unat w) :: rat)" and "(of_nat (unat w) :: rat) \<le> 2 ^ LENGTH('a)"
proof -
  have "0 < unat w" using assms by (simp add: unat_gt_0)
  then have "(of_nat 1 :: rat) \<le> of_nat (unat w)" by (simp only: of_nat_le_iff)
  then show "1 / 2 ^ 0 \<le> (of_nat (unat w) :: rat)" by simp
  have "unat w < 2 ^ LENGTH('a)" by (rule unsigned_less)
  then have "of_nat (unat w) < (of_nat (2 ^ LENGTH('a)) :: rat)" by (simp only: of_nat_less_iff)
  then show "(of_nat (unat w) :: rat) \<le> 2 ^ LENGTH('a)" by simp
qed

text \<open>Six relative errors, four in the numerator and two in the denominator.\<close>

lemma six_errors:
  fixes d1 d2 d3 d4 d5 d6 :: rat
  assumes "\<bar>d1\<bar> \<le> 1 / 2 ^ 53" "\<bar>d2\<bar> \<le> 1 / 2 ^ 53" "\<bar>d3\<bar> \<le> 1 / 2 ^ 53" "\<bar>d4\<bar> \<le> 1 / 2 ^ 53"
    "\<bar>d5\<bar> \<le> 1 / 2 ^ 53" "\<bar>d6\<bar> \<le> 1 / 2 ^ 53"
  shows "\<bar>(1 + d1) * (1 + d2) * (1 + d5) * (1 + d6) / ((1 + d3) * (1 + d4)) - 1\<bar> \<le> 1 / 2 ^ 50"
proof -
  define u :: rat where "u = 1 / 2 ^ 53"
  have u: "0 < u" "u < 1" by (simp_all add: u_def)
  have r: "1 - u \<le> 1 + d \<and> 1 + d \<le> 1 + u" if "\<bar>d\<bar> \<le> 1 / 2 ^ 53" for d
    using that unfolding u_def [symmetric] by linarith
  define n m where "n = (1 + d1) * (1 + d2) * (1 + d5) * (1 + d6)" and "m = (1 + d3) * (1 + d4)"
  have n: "(1 - u) * (1 - u) * (1 - u) * (1 - u) \<le> n" "n \<le> (1 + u) * (1 + u) * (1 + u) * (1 + u)"
    and m: "(1 - u) * (1 - u) \<le> m" "m \<le> (1 + u) * (1 + u)"
    unfolding n_def m_def using r [OF assms(1)] r [OF assms(2)] r [OF assms(3)] r [OF assms(4)]
      r [OF assms(5)] r [OF assms(6)] u
    by (auto intro!: mult_mono mult_nonneg_nonneg)
  have "0 < (1 - u) * (1 - u)" using u by simp
  then have "0 < m" using m(1) by linarith
  have lo: "(1 - 1 / 2 ^ 50) * ((1 + u) * (1 + u)) \<le> (1 - u) * (1 - u) * (1 - u) * (1 - u)"
    and hi: "(1 + u) * (1 + u) * (1 + u) * (1 + u) \<le> (1 + 1 / 2 ^ 50) * ((1 - u) * (1 - u))"
    by (simp_all add: u_def)
  have "(1 - 1 / 2 ^ 50) * m \<le> n"
    using mult_left_mono [OF m(2), of "1 - 1 / 2 ^ 50"] lo n(1) by simp
  moreover have "n \<le> (1 + 1 / 2 ^ 50) * m"
    using mult_left_mono [OF m(1), of "1 + 1 / 2 ^ 50"] hi n(2) by simp
  ultimately have "1 - 1 / 2 ^ 50 \<le> n / m" "n / m \<le> 1 + 1 / 2 ^ 50"
    using \<open>0 < m\<close> by (simp_all add: pos_le_divide_eq pos_divide_le_eq)
  then show ?thesis unfolding n_def [symmetric] m_def [symmetric] by linarith
qed

lemma mbps_relative:
  assumes "ns \<noteq> 0"
  shows "\<bar>mbps n ns - 8000 * of_nat (unat n) / of_nat (unat ns)\<bar> \<le>
     8000 * of_nat (unat n) / of_nat (unat ns) / 2 ^ 50"
proof (cases "n = 0")
  case True
  then show ?thesis by (simp add: mbps_def f64_of_nat_def f64_mul_def f64_div_def)
next
  case False
  define N M :: rat where "N = of_nat (unat n)" and "M = of_nat (unat ns)"
  have N: "1 / 2 ^ 0 \<le> N" "N \<le> 2 ^ 64" and M: "1 / 2 ^ 0 \<le> M" "M \<le> 2 ^ 128"
    using unat_rat_range [OF False] unat_rat_range [OF assms] by (simp_all add: N_def M_def)
  from f64_round_relative [OF N] obtain d1 where a: "f64_round N = N * (1 + d1)" "\<bar>d1\<bar> \<le> 1 / 2 ^ 53"
    "1 / 2 ^ Suc 0 \<le> f64_round N" "f64_round N \<le> 2 ^ Suc 64" by auto
  define A where "A = f64_round N"
  have "1 / 2 ^ 0 \<le> A * 8" "A * 8 \<le> 2 ^ 68" using a(3,4) by (simp_all add: A_def)
  from f64_round_relative [OF this] obtain d2 where b: "f64_round (A * 8) = A * 8 * (1 + d2)"
    "\<bar>d2\<bar> \<le> 1 / 2 ^ 53" "1 / 2 ^ Suc 0 \<le> f64_round (A * 8)" "f64_round (A * 8) \<le> 2 ^ Suc 68" by auto
  define B where "B = f64_round (A * 8)"
  from f64_round_relative [OF M] obtain d3 where c: "f64_round M = M * (1 + d3)" "\<bar>d3\<bar> \<le> 1 / 2 ^ 53"
    "1 / 2 ^ Suc 0 \<le> f64_round M" "f64_round M \<le> 2 ^ Suc 128" by auto
  define C where "C = f64_round M"
  have "1 / 2 ^ 31 \<le> C / 1000000000" "C / 1000000000 \<le> 2 ^ 129" using c(3,4) by (simp_all add: C_def)
  from f64_round_relative [OF this] obtain d4 where d: "f64_round (C / 1000000000) = C / 1000000000 * (1 + d4)"
    "\<bar>d4\<bar> \<le> 1 / 2 ^ 53" "1 / 2 ^ Suc 31 \<le> f64_round (C / 1000000000)"
    "f64_round (C / 1000000000) \<le> 2 ^ Suc 129" by auto
  define D where "D = f64_round (C / 1000000000)"
  have "0 < D" using d(3) by (simp add: D_def)
  have "1 / 2 ^ 131 \<le> B / D"
  proof -
    have "1 / 2 ^ 131 * D \<le> 1 / 2 ^ 131 * 2 ^ 130" using d(4) by (intro mult_left_mono) (simp_all add: D_def)
    also have "\<dots> \<le> B" using b(3) by (simp add: B_def)
    finally show ?thesis using \<open>0 < D\<close> by (simp add: pos_le_divide_eq)
  qed
  moreover have "B / D \<le> 2 ^ 101"
  proof -
    have "B \<le> 2 ^ 101 * (1 / 2 ^ 32)" using b(4) by (simp add: B_def)
    also have "\<dots> \<le> 2 ^ 101 * D" using d(3) by (intro mult_left_mono) (simp_all add: D_def)
    finally show ?thesis using \<open>0 < D\<close> by (simp add: pos_divide_le_eq)
  qed
  ultimately obtain d5 where f: "f64_round (B / D) = B / D * (1 + d5)" "\<bar>d5\<bar> \<le> 1 / 2 ^ 53"
    "1 / 2 ^ Suc 131 \<le> f64_round (B / D)" "f64_round (B / D) \<le> 2 ^ Suc 101"
    by (rule f64_round_relative) auto
  define F where "F = f64_round (B / D)"
  have "1 / 2 ^ 152 \<le> F / 1000000" "F / 1000000 \<le> 2 ^ 102" using f(3,4) by (simp_all add: F_def)
  from f64_round_relative [OF this] obtain d6 where g: "f64_round (F / 1000000) = F / 1000000 * (1 + d6)"
    "\<bar>d6\<bar> \<le> 1 / 2 ^ 53" by auto
  define R where "R = (1 + d1) * (1 + d2) * (1 + d5) * (1 + d6) / ((1 + d3) * (1 + d4))"
  have "mbps n ns = f64_round (F / 1000000)"
    using assms by (simp add: mbps_def f64_of_nat_def f64_mul_def f64_div_def N_def M_def A_def B_def
        C_def D_def F_def)
  also have "\<dots> = 8000 * N / M * R"
    unfolding g(1) unfolding F_def f(1) unfolding B_def b(1) D_def d(1) unfolding A_def a(1) C_def c(1) R_def
    by simp
  finally have "mbps n ns - 8000 * N / M = 8000 * N / M * (R - 1)"
    by (simp only: right_diff_distrib mult_1_right)
  moreover have "\<bar>R - 1\<bar> \<le> 1 / 2 ^ 50"
    unfolding R_def by (rule six_errors [OF a(2) b(2) c(2) d(2) f(2) g(2)])
  moreover have "0 \<le> 8000 * N / M" using N(1) M(1) by simp
  ultimately have "\<bar>mbps n ns - 8000 * N / M\<bar> \<le> 8000 * N / M * (1 / 2 ^ 50)"
    by (simp only: abs_mult abs_of_nonneg) (rule mult_left_mono)
  then show ?thesis by (simp add: N_def M_def)
qed

section \<open>The reported throughput\<close>

text \<open>The decimal text of \<open>k\<close> thousandths.\<close>

definition thousandths :: "nat \<Rightarrow> string" where
  "thousandths k =
     nat_to_string (k div 1000) @ ''.'' @
     [digit_char (k mod 1000 div 100), digit_char (k mod 1000 div 10 mod 10), digit_char (k mod 1000 mod 10)]"

lemma fmt3_thousandths: "fmt3 v = thousandths (nat (round_half_even (v * 1000)))"
  by (simp add: fmt3_def thousandths_def Let_def)

lemma round_half_even_nonneg: "0 \<le> q \<Longrightarrow> 0 \<le> round_half_even q"
  by (simp add: round_half_even_def Let_def)

lemma fmt3_near:
  assumes "0 \<le> v"
  shows "\<exists>k. fmt3 v = thousandths k \<and> \<bar>of_nat k / 1000 - v\<bar> \<le> 1 / 2000"
proof (intro exI conjI)
  let ?k = "nat (round_half_even (v * 1000))"
  show "fmt3 v = thousandths ?k" by (rule fmt3_thousandths)
  have "(of_nat ?k :: rat) = of_int (round_half_even (v * 1000))"
    using round_half_even_nonneg [of "v * 1000"] assms by simp
  with round_half_even_near [of "v * 1000"] show "\<bar>of_nat ?k / 1000 - v\<bar> \<le> 1 / 2000" by linarith
qed

text \<open>
  C22: the throughput in a close event is accurate. For \<open>n\<close> bytes in \<open>ns\<close> nanoseconds the
  event shows a number with three decimals that differs from the exact \<open>8000 n / ns\<close> Mbit/s by
  at most half a unit of the last decimal and a relative error of \<open>2 ^ -50\<close>, for every number
  of bytes and every duration the counters can hold.
\<close>

theorem throughput_accurate:
  assumes "ns \<noteq> 0"
  shows "\<exists>k. fmt3 (mbps n ns) = thousandths k \<and>
     \<bar>of_nat k / 1000 - 8000 * of_nat (unat n) / of_nat (unat ns)\<bar> \<le>
       1 / 2000 + 8000 * of_nat (unat n) / of_nat (unat ns) / (2 ^ 50 :: rat)"
proof -
  define x :: rat where "x = 8000 * of_nat (unat n) / of_nat (unat ns)"
  have "0 \<le> x"
    unfolding x_def by (intro divide_nonneg_nonneg mult_nonneg_nonneg of_nat_0_le_iff) simp
  moreover have m: "\<bar>mbps n ns - x\<bar> \<le> x / 2 ^ 50" unfolding x_def by (rule mbps_relative [OF assms])
  moreover from \<open>0 \<le> x\<close> have "x / 2 ^ 50 \<le> x" by (simp add: divide_le_eq)
  ultimately have "0 \<le> mbps n ns" by linarith
  from fmt3_near [OF this] obtain k where "fmt3 (mbps n ns) = thousandths k"
    "\<bar>of_nat k / 1000 - mbps n ns\<bar> \<le> 1 / 2000" by blast
  with m show ?thesis unfolding x_def [symmetric] by (intro exI [of _ k] conjI) linarith+
qed

theorem throughput_accurate_witness:
  "\<exists>k. fmt3 (mbps 1500000000 7000000000) = thousandths k \<and>
     \<bar>of_nat k / 1000 - 12000 / 7\<bar> \<le> 1 / 2000 + 12000 / 7 / (2 ^ 50 :: rat)"
  using throughput_accurate [of 7000000000 1500000000] by simp

end
