(* ===== verification/Test_Misc.thy ===== *)
theory Test_Misc
  imports Test_Ip Rmbt_Float Rmbt_Connection
begin

text \<open>
  The remaining unit tests: of the events (\<open>src/src/events.rs\<close>), the version endpoint
  (\<open>src/src/version.rs\<close>) and the anonymised addresses (\<open>src/src/server/mod.rs\<close>). The test
  of the version's body takes the version and branch of the build as parameters.
\<close>

section \<open>Events\<close>

definition json_escapes_quotes_and_controls :: bool where
  "json_escapes_quotes_and_controls \<longleftrightarrow>
     json_escape [CHR ''a'', CHR 0x22, CHR ''b'', CHR 0x5C, CHR ''c'', CHR 0x0A] =
       [CHR ''a'', CHR 0x5C, CHR 0x22, CHR ''b'', CHR 0x5C, CHR 0x5C, CHR ''c'', CHR 0x5C, CHR ''n'']"

definition json_builder_emits_object :: bool where
  "json_builder_emits_object \<longleftrightarrow>
     json_done (json_float ''v'' (3 / 2) (json_bool ''tls'' True (json_int ''conn'' 3
       (json_str ''event'' ''x'' json_new)))) =
     ''{'' @ member ''event'' ''x'' @ '','' @ QQ ''conn'' @ '':3,'' @ QQ ''tls'' @ '':true,'' @
     QQ ''v'' @ '':1.500}''"

definition mbps_computes_throughput :: bool where
  "mbps_computes_throughput \<longleftrightarrow>
     \<bar>mbps 1000000 1000000000 - 8\<bar> < 1 / 10 ^ 9 \<and> mbps 100 0 = 0"

definition stats_track_min_ping_and_totals :: bool where
  "stats_track_min_ping_and_totals \<longleftrightarrow>
     (let s = add_ping 300 (add_ping 900 (add_download 2000 1500 (add_download 1000 500 stats_new)))
      in download_bytes s = 3000 \<and> download_ns s = 2000 \<and> ping_count s = 2 \<and>
         ping_min_ns s = 300 \<and> ping_max_ns s = 900)"

section \<open>Version endpoint\<close>

definition version_matches_path :: bool where
  "version_matches_path \<longleftrightarrow>
     version_matches ''/version'' \<and> version_matches ''/version?x=1'' \<and>
     \<not> version_matches ''/version/'' \<and> \<not> version_matches ''/versions'' \<and>
     \<not> version_matches ''/RMBTControlServer/version''"

definition body_is_json_with_the_build_version :: "serde \<Rightarrow> string \<Rightarrow> string \<Rightarrow> bool" where
  "body_is_json_with_the_build_version S ver branch =
     unwrap_ok (from_slice S (as_bytes (version_body ver branch))) (\<lambda>v.
       case v of
         JObject obj \<Rightarrow>
           (case map_of obj ''version'' of
              Some (JString s) \<Rightarrow>
                starts_with (''v'' @ ver) s \<and> ends_with '')'' s = (branch \<noteq> []) \<and> length obj = 1
            | _ \<Rightarrow> False)
       | _ \<Rightarrow> False)"

section \<open>Anonymised addresses\<close>

definition ipv4_drops_last_octet :: bool where
  "ipv4_drops_last_octet \<longleftrightarrow>
     unwrap_test (parse_socket_addr ''203.0.113.42:8080'') (\<lambda>addr.
       anonymise_addr addr = ''203.0.113.*'')"

definition ipv6_keeps_only_first_48_bits :: bool where
  "ipv6_keeps_only_first_48_bits \<longleftrightarrow>
     unwrap_test (parse_socket_addr ''[2001:db8:85a3:8d3:1319:8a2e:370:7348]:443'') (\<lambda>addr.
       anonymise_addr addr = ''2001:db8:85a3:*'')"

section \<open>Evaluation\<close>

lemma exact_doubles: "f64_round 1000000 = 1000000" "f64_round 8000000 = 8000000" "f64_round 1000000000 = 1000000000"
    "f64_round 1 = 1" "f64_round 8 = 8"
  using f64_round_nat [of 1000000] f64_round_nat [of 8000000] f64_round_nat [of 1000000000]
    f64_round_nat [of 1] f64_round_nat [of 8] by simp_all

lemma event_tests: "json_escapes_quotes_and_controls" "json_builder_emits_object"
    "mbps_computes_throughput" "stats_track_min_ping_and_totals"
proof -
  show "json_escapes_quotes_and_controls"
    by (simp add: json_escapes_quotes_and_controls_def json_escape_def escape_char_def)
  show "json_builder_emits_object"
    by (simp add: json_builder_emits_object_def json_done_def json_float_def json_bool_def json_int_def
        json_str_def json_new_def json_sep_def json_key_def ends_with_def starts_with_def DQ_def
        json_escape_def escape_char_def member_def QQ_def fmt3_def round_half_even_def Let_def
        int_to_string_def nat_to_string.simps digit_char_def char_of_def bit_0)
  show "mbps_computes_throughput"
    by (simp add: mbps_computes_throughput_def mbps_def f64_of_nat_def f64_mul_def f64_div_def exact_doubles)
  show "stats_track_min_ping_and_totals"
    by (simp add: stats_track_min_ping_and_totals_def add_ping_def add_download_def stats_new_def Let_def)
qed

lemma version_path_test: "version_matches_path"
  by (simp add: version_matches_path_def version_matches_def starts_with_def)

lemma version_body_test:
  assumes "list_all plain_char ver" and "list_all plain_char branch" and "branch = [] \<Longrightarrow> \<not> ends_with '')'' ver"
    and "ver \<noteq> []"
  shows "body_is_json_with_the_build_version std_serde ver branch"
proof -
  let ?v = "version ver branch"
  have "list_all plain_char ?v" using assms(1,2) by (simp add: version_def plain_char_def)
  then have t: "read_text (?v @ CHR 0x22 # r) = Some (?v, r)" for r by (rule read_text_plain)
  have "read_json 16 (version_body ver branch) = Some (JObject [(''version'', JString ?v)], [])"
    unfolding version_body_def by (simp add: read_json_eval prepend_def t)
  then have "json_of_text (version_body ver branch) = Inr (JObject [(''version'', JString ?v)])"
    by (simp add: json_of_text_def skip_ws_def)
  moreover have "starts_with (''v'' @ ver) ?v" by (simp add: version_def starts_with_def)
  moreover have "ends_with '')'' ?v = (branch \<noteq> [])"
    using assms(3,4) by (cases branch) (auto simp: version_def ends_with_iff Cons_eq_append_conv)
  ultimately show ?thesis
    by (simp add: body_is_json_with_the_build_version_def unwrap_ok_def)
qed

lemma anonymise_tests: "ipv4_drops_last_octet" "ipv6_keeps_only_first_48_bits"
proof -
  have "parse_socket_addr ''203.0.113.42:8080'' = Some (SocketAddrV4 (Ipv4Addr 203 0 113 42) 8080)"
    by (simp add: parse_ip_eval read_socket_addr_def read_socket_addr_v4_def read_port_def)
  then show "ipv4_drops_last_octet"
    by (simp add: ipv4_drops_last_octet_def unwrap_test_def anonymise_addr_def number_text_eval)
  have "parse_socket_addr ''[2001:db8:85a3:8d3:1319:8a2e:370:7348]:443'' =
      Some (SocketAddrV6 (Ipv6Addr 0x2001 0xDB8 0x85A3 0x8D3 0x1319 0x8A2E 0x370 0x7348) 443 0 0)"
    by (simp add: parse_ip_eval read_socket_addr_def read_socket_addr_v4_def read_socket_addr_v6_def
        read_scope_id_def read_port_def)
  then show "ipv6_keeps_only_first_48_bits"
    by (simp add: ipv6_keeps_only_first_48_bits_def unwrap_test_def anonymise_addr_def number_text_eval)
qed

section \<open>Properties\<close>

text \<open>
  The model passes the unit tests of the events, the version endpoint and the anonymised
  addresses, the one of the version's body for every version and branch of printable text
  without quotes and backslashes, where a version without branch does not end in a parenthesis.
\<close>

theorem module_tests_pass:
  assumes "list_all plain_char ver" and "list_all plain_char branch" and "ver \<noteq> []"
    and "branch \<noteq> [] \<or> \<not> ends_with '')'' ver"
  shows "json_escapes_quotes_and_controls \<and> json_builder_emits_object \<and> mbps_computes_throughput \<and>
    stats_track_min_ping_and_totals \<and> version_matches_path \<and>
    body_is_json_with_the_build_version std_serde ver branch \<and>
    ipv4_drops_last_octet \<and> ipv6_keeps_only_first_48_bits"
  using assms by (intro conjI event_tests version_path_test version_body_test anonymise_tests) auto

theorem module_tests_pass_witness:
  "body_is_json_with_the_build_version std_serde ''1.3.5'' ''main''"
  using module_tests_pass [of "''1.3.5''" "''main''"] by (simp add: plain_char_def)

end
