(* ===== verification/Spec2Isabelle.thy ===== *)
theory Spec2Isabelle
  imports Rmbt_Main Rmbt_Json Test_Misc
begin

text \<open>
  \<^bold>\<open>rmbtd, the RMBT measurement server: a model and its correctness.\<close>

  The program under \<open>src/\<close> is a network server for speed tests. It listens for plain TCP and TLS
  connections, deals them to a pool of worker threads, and each worker handles one connection at a
  time: an HTTP request head, which is answered (\<open>/ip\<close>, \<open>/version\<close>) or upgrades the connection
  to a raw or WebSocket stream; a greeting in which the client presents a token; and a loop of
  measurement commands. Structured events about every connection go to a syslog collector.

  \<^bold>\<open>Theories and sources.\<close>
  \<^item> \<open>Rust_Str\<close>, \<open>Rust_Num\<close>, \<open>Rust_Utf8\<close>, \<open>Rust_Net\<close>: what the code uses of Rust's standard
    library. A \<open>String\<close> is the list of its UTF-8 bytes (as characters), so lengths count bytes;
    numbers are parsed and printed in their ranges; addresses are parsed and printed as
    \<open>std::net\<close> does. \<open>Rust_Str\<close> also declares the collections of rewrite rules.
  \<^item> \<open>Rmbt_Config\<close>: constants (\<open>config/constants.rs\<close>), \<open>Config\<close> (\<open>config/mod.rs\<close>), key file, command
    line and addresses (\<open>config/parser.rs\<close>); their properties and the help text are in
    \<open>Rmbt_Cli\<close>.
  \<^item> \<open>Rmbt_Io\<close>, \<open>Rmbt_Stream\<close>: errors and results, \<open>Transport\<close> (\<open>stream/transport.rs\<close>) and
    \<open>Stream\<close> (\<open>stream/mod.rs\<close>). The locale \<open>byte_stream\<close> is the contract of a stream; it is
    interpreted for raw streams, WebSockets, their sum, and (in \<open>Rmbt_Session\<close>) for the session.
  \<^item> \<open>Rmbt_Token\<close>: \<open>protocol/token.rs\<close>.
  \<^item> \<open>Rmbt_Log\<close>: \<open>logger/mod.rs\<close>, and the functions of \<open>protocol/token.rs\<close> once more with the
    records they write to the local log.
  \<^item> \<open>Rmbt_Events\<close>: \<open>events.rs\<close>; its properties are in \<open>Rmbt_Json\<close> (the text of an event) and
    \<open>Rmbt_Float\<close> (the numbers in it, with the rounding of \<open>f64\<close>).
  \<^item> \<open>Rmbt_Session\<close>: the state handlers work on (stream, statistics, clocks, emitted frames), and
    the relations every step of a session keeps.
  \<^item> \<open>Rmbt_Greeting\<close>: \<open>protocol/greeting.rs\<close>. \<open>Rmbt_Commands\<close>: \<open>protocol/commands.rs\<close>, with the
    locale \<open>command_handler\<close> interpreted for each handler.
  \<^item> \<open>Rmbt_Http\<close>: HTTP answers and \<open>version.rs\<close>; \<open>Rmbt_Ip_Check\<close>: \<open>ip_check.rs\<close>;
    \<open>Rmbt_Upgrade\<close>: \<open>stream/websocket_upgrade.rs\<close>. The locale \<open>http_answer\<close> is interpreted for
    the answers of all three.
  \<^item> \<open>Rmbt_Connection\<close>: \<open>handle_connection\<close> of \<open>server/mod.rs\<close>, which composes all of the above.
  \<^item> \<open>Rmbt_Tls\<close>: \<open>tls.rs\<close>. \<open>Rmbt_Server\<close>: \<open>Server::new\<close>, \<open>Server::run\<close> and \<open>worker_loop\<close> of
    \<open>server/mod.rs\<close>, with the locale \<open>bounded_fifo\<close> interpreted for the channels between them.
    \<open>Rmbt_Pool\<close>: what all interleavings of these threads guarantee.
  \<^item> \<open>Rmbt_Main\<close>: \<open>main.rs\<close> and \<open>build.rs\<close>.
  \<^item> \<open>Std_Sha\<close>, \<open>Std_Crypto\<close>, \<open>Std_Vectors\<close>, \<open>Std_Json\<close>: instances of the parameters below, with
    which the model can be run: SHA-1, SHA-256 and HMAC as FIPS 180-4 and RFC 2104 define them,
    Base64 as RFC 4648 does, and a JSON reader for the request bodies of the tests. They model no
    code of the repository. SHA is computed on lists of bits, proved equal to the definition on
    32-bit words, so that the kernel can evaluate it.
  \<^item> \<open>Test_Token\<close>, \<open>Test_Ip\<close>, \<open>Test_Misc\<close>: the unit tests of \<open>protocol/token.rs\<close>,
    \<open>ip_check.rs\<close>, \<open>events.rs\<close>, \<open>version.rs\<close> and \<open>server/mod.rs\<close>, one predicate per test.

  \<^bold>\<open>State and effects.\<close> An operation that may fail is a function from a state to a result (\<open>Ok\<close>,
  \<open>Err\<close> or \<open>Panic\<close>) and a state; \<open>try_act\<close> is Rust's \<open>?\<close>. The peer and the operating system are
  in the state: what the peer will send and where the input ends or fails, how much can be written
  before writes fail, the readings of the clocks. All theorems quantify over them. What a peer sends
  is a finite list of any length, followed by the way it stops (end of file, an error, or silence
  until the socket's timeout, which bounds a read and not a session). So "ends" means for a command
  phase, a connection or a worker: ends once its client stops. A client that goes on is an
  environment that sends more between two commands (\<open>serving\<close>); what the loop keeps is proved for
  any number of commands, and that there is no bound on it. Handlers with a
  loop that only the clock can end are \<open>partial_function (option)\<close>, where \<open>None\<close> is a loop that
  never returns, and it is proved that they return if the clock runs (\<open>clock_runs\<close>: it passes
  every value). Every other loop is a total function; no fuel is used. Machine integers are words
  where they can overflow (the counters of a connection) or have the wrap-around written out (the
  round-robin counter); other \<open>usize\<close> values are bounded by the input and are natural numbers.

  The server is a concurrent system. Each thread's loop is cut into steps between two accesses to
  shared state; \<open>sys_step\<close> lets any thread take its next step, and labels the step with what it
  sent or took; \<open>sys_run\<close> collects the labels of a run. The environment chooses the results of
  \<open>poll\<close> and \<open>accept\<close>, when Ctrl+C arrives, and what every client does.

  \<^bold>\<open>What the theorems show.\<close>
  \<^item> Authentication: exactly which tokens are accepted (v1, v2, \<open>/ip\<close>), that tokens issued for an
    address are accepted from it and refused from another, and that no command is executed without
    an accepted token when tokens are checked.
  \<^item> Measurement: what each command reads and writes, byte for byte, which clock readings make up
    the times it reports, what it accounts; that the command phase ends without a panic when its
    client stops, and stays safe while it does not.
  \<^item> HTTP: the request head is read exactly, every answer is framed, addresses and signatures in
    \<open>/ip\<close> answers are right.
  \<^item> One connection: it ends when its client stops, with one connect and one close event, at most one
    auth event between them, and no panic.
  \<^item> The pool: it refines a set of bounded queues (\<open>spec_run\<close>); jobs are delivered once and in
    order; no client can end a worker; the log of a worker is the sequence of the logs of its
    connections; connections are dealt round robin; after Ctrl+C the accept loop offers \<open>Shutdown\<close> to
    every worker and returns, and every worker takes at most one more connection.
  \<^item> Configuration and events: the key file is read back as written and never yields an empty key;
    checks are weakened only by the option that says so; the JSON builder refines lists of fields,
    and no text in an event can forge another field; throughputs are shown to three decimals with
    a bounded error; what the log says about a token is determined, and names no secret.
  \<^item> The model against the tests (validation of the model, not properties of the code): with the
    standard functions the model passes every unit test of the repository, evaluated in the kernel
    at one reading of the clock (1760000000).
  Theorems with hypotheses are applied to concrete data right after them. The demo definitions
  (\<open>demo_crypto\<close>, \<open>demo_session\<close>, \<open>demo_os\<close> and others) exist for this purpose and model nothing.

  \<^bold>\<open>Parameters.\<close> HMAC, SHA-1, SHA-256 and Base64 (\<open>crypto\<close>), \<open>serde_json\<close> (\<open>serde\<close>), the creation of
  a WebSocket from an upgraded socket, \<open>fastrand::fill\<close>, PEM decoding and \<open>rustls\<close> (\<open>tls_env\<close>),
  sockets and threads (\<open>os\<close>), the level parser and logger installation (\<open>host\<close>), timestamps of
  \<open>chrono\<close>, and the version and branch fixed at build time. Where a theorem needs their documented
  behaviour, it is a hypothesis of the theorem; \<open>std_crypto_laws\<close> shows that the standard
  functions satisfy the one about \<open>crypto\<close>.

  \<^bold>\<open>Not modelled.\<close> A client that never stops within one command or before its token: an endless
  \<open>PUT\<close>, or endless blank lines or control messages, for which the code has no bound either, has no run
  in the model, which sees only what happens up to any point of it. The records of the local log outside the token module, which are text for
  people; the framing inside \<open>tungstenite\<close> and the record layer inside \<open>rustls\<close>; the scheduler of
  \<open>tokio\<close>, which runs one task beside the accept loop; memory exhaustion and the limits of the
  operating system beyond the errors its calls return.
\<close>

end
